(* ===== verification/Rtmp_Prelude.thy ===== *)
theory Rtmp_Prelude
  imports Complex_Main "HOL-Library.Word" "HOL-Library.AList" "HOL-Library.Sublist"
    "HOL-Library.List_Lexorder" "HOL-Library.Product_Lexorder" "HOL-Library.Char_ord"
begin

text \<open>
  Shared vocabulary of the development: the integer widths of the Rust code, the clock, the two
  standard-library containers the components are written with (the hash map and the hash set),
  and the generic lemmas about lists, options and words that the component proofs rest on.

  A Rust \<open>String\<close> is a sequence of UTF-8 bytes; it is a \<^typ>\<open>string\<close> here, one \<^typ>\<open>char\<close> per byte,
  so \<open>str::len\<close> is \<^const>\<open>length\<close> and the byte-wise order of \<open>str\<close> is the lexicographic order of the
  library. A \<open>usize\<close> that counts elements of a container is a \<^typ>\<open>nat\<close>; the saturating and checked
  operations are written out at 64 bits.
\<close>

section \<open>Integers and the clock\<close>

type_synonym u8 = "8 word"
type_synonym u16 = "16 word"
type_synonym u32 = "32 word"
type_synonym u64 = "64 word"
type_synonym bytes = "u8 list"

text \<open>Monotonic clock readings and durations, both in nanoseconds.\<close>

type_synonym instant = nat
type_synonym duration = nat

definition millis :: "nat \<Rightarrow> duration" where
  "millis n = n * 1000000"

definition secs :: "nat \<Rightarrow> duration" where
  "secs n = n * 1000000000"

text \<open>\<open>Duration::as_millis\<close> on a span, and \<open>as u64\<close> of the result.\<close>

definition as_millis_u64 :: "duration \<Rightarrow> u64" where
  "as_millis_u64 d = of_nat (d div 1000000)"

text \<open>\<open>Instant::checked_duration_since\<close> and \<open>Instant::saturating_duration_since\<close>.\<close>

definition checked_since :: "instant \<Rightarrow> instant \<Rightarrow> duration option" where
  "checked_since now t = (if t \<le> now then Some (now - t) else None)"

definition saturating_since :: "instant \<Rightarrow> instant \<Rightarrow> duration" where
  "saturating_since now t = now - t"

definition usize_max :: nat where
  "usize_max = 2 ^ 64 - 1"

definition usize_saturating_add :: "nat \<Rightarrow> nat \<Rightarrow> nat" where
  "usize_saturating_add a b = min (a + b) usize_max"

definition usize_saturating_mul :: "nat \<Rightarrow> nat \<Rightarrow> nat" where
  "usize_saturating_mul a b = min (a * b) usize_max"

definition usize_checked_add :: "nat \<Rightarrow> nat \<Rightarrow> nat option" where
  "usize_checked_add a b = (if a + b \<le> usize_max then Some (a + b) else None)"

definition u64_saturating_add :: "u64 \<Rightarrow> u64 \<Rightarrow> u64" where
  "u64_saturating_add a b = (if unat a + unat b < 2 ^ 64 then a + b else - 1)"

lemma unat_less_width:
  "unat (a :: u8) < 2 ^ 8" "unat (b :: u16) < 2 ^ 16" "unat (c :: u32) < 2 ^ 32" "unat (d :: u64) < 2 ^ 64"
  using unsigned_less [of a] unsigned_less [of b] unsigned_less [of c] unsigned_less [of d] by simp_all

lemma word_less_plus_one: "(a :: 'a::len word) \<noteq> - 1 \<Longrightarrow> a < a + 1"
proof -
  assume "a \<noteq> - 1"
  then have "1 + a \<noteq> 0" by (metis add.commute add.inverse_unique minus_equation_iff)
  then have "unat (1 + a) = Suc (unat a)" by (rule unatSuc)
  then show ?thesis by (simp add: word_less_nat_alt add.commute)
qed

lemma usize_saturating_add_le: "usize_saturating_add a b \<le> m \<Longrightarrow> m < usize_max \<Longrightarrow> a + b \<le> m"
  by (auto simp: usize_saturating_add_def min_def split: if_splits)

lemma u64_saturating_add_ge: "a \<le> u64_saturating_add a b"
proof (cases "unat a + unat b < 2 ^ 64")
  case True
  then show ?thesis
    by (simp add: u64_saturating_add_def word_le_nat_alt unat_word_ariths)
next
  case False
  then show ?thesis by (simp add: u64_saturating_add_def)
qed

lemma u64_saturating_add_one_gt:
  assumes "a \<noteq> - 1"
  shows "a < u64_saturating_add a 1"
proof -
  have "unat a < 2 ^ 64"
    using unsigned_less [of a] by simp
  moreover have "unat a \<noteq> 2 ^ 64 - 1"
    using assms by (simp add: word_unat_eq_iff unsigned_minus_1_eq_mask mask_eq_exp_minus_1)
  ultimately have "unat a + 1 < 2 ^ 64" by simp
  then show ?thesis
    by (simp add: u64_saturating_add_def word_less_nat_alt unat_word_ariths)
qed

lemma u64_saturating_add_max: "u64_saturating_add (- 1) 1 = - 1"
  by (simp add: u64_saturating_add_def unsigned_minus_1_eq_mask mask_eq_exp_minus_1)

section \<open>Strings and bytes\<close>

text \<open>\<open>str::as_bytes\<close>, and the string with given bytes.\<close>

definition str_bytes :: "string \<Rightarrow> bytes" where
  "str_bytes s = map (\<lambda>c. of_nat (of_char c)) s"

definition bytes_str :: "bytes \<Rightarrow> string" where
  "bytes_str bs = map (\<lambda>b. char_of (unat b)) bs"

lemma u8_of_nat_eq: "(of_nat m :: u8) = of_nat n \<longleftrightarrow> m mod 256 = n mod 256"
  by (simp add: word_of_nat_eq_iff take_bit_eq_mod)

lemma of_char_u8_inj: "(of_nat (of_char c) :: u8) = of_nat (of_char d) \<longleftrightarrow> c = d"
  by (simp add: u8_of_nat_eq)

lemma str_bytes_inj: "str_bytes a = str_bytes b \<longleftrightarrow> a = b"
  by (simp add: str_bytes_def inj_on_def of_char_u8_inj list.inj_map_strong
      inj_map_eq_map [OF injI [where f = "\<lambda>c. of_nat (of_char c) :: u8"]])

lemma length_str_bytes [simp]: "length (str_bytes s) = length s"
  by (simp add: str_bytes_def)

lemma str_bytes_bytes_str [simp]: "str_bytes (bytes_str bs) = bs"
proof -
  have "unat (b :: u8) mod 256 = unat b" for b
  proof -
    have "unat b < 2 ^ 8" using unsigned_less [of b] by simp
    then show ?thesis by simp
  qed
  then show ?thesis by (simp add: str_bytes_def bytes_str_def o_def)
qed

lemma bytes_str_str_bytes [simp]: "bytes_str (str_bytes s) = s"
  using str_bytes_inj [of "bytes_str (str_bytes s)" s] by simp

lemma length_bytes_str [simp]: "length (bytes_str bs) = length bs"
  by (simp add: bytes_str_def)

section \<open>The standard hash map\<close>

text \<open>
  \<open>std::collections::HashMap\<close>: what a client may rely on. Iteration order is unspecified in Rust;
  a client that iterates sees the entries in some order, each key once.
\<close>

locale hash_map =
  fixes get :: "'m \<Rightarrow> 'k \<Rightarrow> 'v option"
    and insert :: "'k \<Rightarrow> 'v \<Rightarrow> 'm \<Rightarrow> 'm"
    and remove :: "'k \<Rightarrow> 'm \<Rightarrow> 'm"
    and update_all :: "('k \<Rightarrow> 'v \<Rightarrow> 'v option) \<Rightarrow> 'm \<Rightarrow> 'm"
    and iter :: "'m \<Rightarrow> ('k \<times> 'v) list"
    and ok :: "'m \<Rightarrow> bool"
  assumes get_insert: "get (insert k v m) = (get m)(k \<mapsto> v)"
    and get_remove: "get (remove k m) = (get m)(k := None)"
    and get_update_all: "ok m \<Longrightarrow> get (update_all f m) k = Option.bind (get m k) (f k)"
    and iter_distinct: "ok m \<Longrightarrow> distinct (map fst (iter m))"
    and iter_get: "ok m \<Longrightarrow> (k, v) \<in> set (iter m) \<longleftrightarrow> get m k = Some v"
    and ok_insert: "ok m \<Longrightarrow> ok (insert k v m)"
    and ok_remove: "ok m \<Longrightarrow> ok (remove k m)"
    and ok_update_all: "ok m \<Longrightarrow> ok (update_all f m)"
begin

lemma insert_shadows: "get (insert k v (insert k w m)) = get (insert k v m)"
  by (simp add: get_insert)

lemma remove_other: "k \<noteq> l \<Longrightarrow> get (remove k m) l = get m l"
  by (simp add: get_remove)

lemma dom_iter:
  assumes ok: "ok m"
  shows "dom (get m) = fst ` set (iter m)"
proof (rule set_eqI)
  fix k
  have "k \<in> dom (get m) \<longleftrightarrow> (\<exists>v. (k, v) \<in> set (iter m))"
    by (simp only: iter_get [OF ok] domIff not_None_eq)
  also have "\<dots> \<longleftrightarrow> k \<in> fst ` set (iter m)"
    by force
  finally show "k \<in> dom (get m) \<longleftrightarrow> k \<in> fst ` set (iter m)" .
qed

lemma iter_length: "ok m \<Longrightarrow> length (iter m) = card (dom (get m))"
  using distinct_card [OF iter_distinct] by (simp add: dom_iter)

lemma iter_length_insert_le:
  assumes ok: "ok m"
  shows "length (iter (insert k v m)) \<le> Suc (length (iter m))"
proof -
  have fin: "finite (dom (get m))"
    by (simp only: dom_iter [OF ok] finite_imageI finite_set)
  have "length (iter (insert k v m)) = card (dom ((get m)(k \<mapsto> v)))"
    by (simp only: iter_length [OF ok_insert [OF ok]] get_insert)
  also have "\<dots> \<le> Suc (card (dom (get m)))"
    using fin by (simp add: card_insert_if)
  finally show ?thesis by (simp only: iter_length [OF ok])
qed

end

text \<open>
  The model's hash map is an association list with distinct keys; the list order stands for the
  iteration order of the run at hand.
\<close>

type_synonym ('k, 'v) hmap = "('k \<times> 'v) list"

abbreviation hm_get :: "('k, 'v) hmap \<Rightarrow> 'k \<Rightarrow> 'v option" where
  "hm_get \<equiv> map_of"

abbreviation hm_insert :: "'k \<Rightarrow> 'v \<Rightarrow> ('k, 'v) hmap \<Rightarrow> ('k, 'v) hmap" where
  "hm_insert \<equiv> AList.update"

abbreviation hm_remove :: "'k \<Rightarrow> ('k, 'v) hmap \<Rightarrow> ('k, 'v) hmap" where
  "hm_remove \<equiv> AList.delete"

abbreviation hm_ok :: "('k, 'v) hmap \<Rightarrow> bool" where
  "hm_ok m \<equiv> distinct (map fst m)"

text \<open>
  \<open>retain\<close> with a closure that may also change the value in place: \<open>None\<close> drops the entry.
  Plain \<open>retain\<close> and \<open>iter_mut\<close> are its two special cases.
\<close>

definition hm_update_all :: "('k \<Rightarrow> 'v \<Rightarrow> 'v option) \<Rightarrow> ('k, 'v) hmap \<Rightarrow> ('k, 'v) hmap" where
  "hm_update_all f m = List.map_filter (\<lambda>(k, v). map_option (Pair k) (f k v)) m"

definition hm_retain :: "('k \<Rightarrow> 'v \<Rightarrow> bool) \<Rightarrow> ('k, 'v) hmap \<Rightarrow> ('k, 'v) hmap" where
  "hm_retain p m = filter (\<lambda>(k, v). p k v) m"

definition hm_iter_mut :: "('k \<Rightarrow> 'v \<Rightarrow> 'v) \<Rightarrow> ('k, 'v) hmap \<Rightarrow> ('k, 'v) hmap" where
  "hm_iter_mut f m = map (\<lambda>(k, v). (k, f k v)) m"

lemma hm_update_all_simps [simp]:
  "hm_update_all f [] = []"
  "hm_update_all f ((k, v) # m) =
     (case f k v of None \<Rightarrow> hm_update_all f m | Some w \<Rightarrow> (k, w) # hm_update_all f m)"
  by (auto simp: hm_update_all_def List.map_filter_def split: option.splits)

lemma fst_set_hm_update_all: "fst ` set (hm_update_all f m) \<subseteq> fst ` set m"
  by (induction m) (auto split: option.splits, force+)

lemma hm_ok_update_all [simp]: "hm_ok m \<Longrightarrow> hm_ok (hm_update_all f m)"
proof (induction m)
  case (Cons e m)
  then show ?case
    using fst_set_hm_update_all [of f m] by (cases e) (auto split: option.splits)
qed simp

lemma hm_get_update_all: "hm_ok m \<Longrightarrow> hm_get (hm_update_all f m) k = Option.bind (hm_get m k) (f k)"
proof (induction m)
  case (Cons e m)
  obtain l w where e: "e = (l, w)" by (cases e)
  have none: "hm_get m l = None" if "l \<notin> fst ` set m"
    using that by (metis map_of_eq_None_iff)
  from Cons e show ?case by (auto simp: none split: option.splits)
qed simp

interpretation hm: hash_map map_of AList.update AList.delete hm_update_all "\<lambda>m. m" hm_ok
  by unfold_locales
    (auto simp: update_conv' delete_conv' hm_get_update_all distinct_update distinct_delete)

lemma hm_retain_update_all: "hm_retain p m = hm_update_all (\<lambda>k v. if p k v then Some v else None) m"
  by (induction m) (auto simp: hm_retain_def)

lemma hm_iter_mut_update_all: "hm_iter_mut f m = hm_update_all (\<lambda>k v. Some (f k v)) m"
  by (induction m) (auto simp: hm_iter_mut_def)

lemma hm_get_retain:
  "hm_ok m \<Longrightarrow> hm_get (hm_retain p m) k =
     (case hm_get m k of Some v \<Rightarrow> if p k v then Some v else None | None \<Rightarrow> None)"
  by (simp add: hm_retain_update_all hm_get_update_all split: option.splits)

lemma hm_ok_retain [simp]: "hm_ok m \<Longrightarrow> hm_ok (hm_retain p m)"
  by (simp add: hm_retain_update_all)

lemma hm_get_iter_mut: "hm_ok m \<Longrightarrow> hm_get (hm_iter_mut f m) k = map_option (f k) (hm_get m k)"
  by (cases "hm_get m k") (simp_all add: hm_iter_mut_update_all hm_get_update_all)

lemma hm_ok_iter_mut [simp]: "hm_ok m \<Longrightarrow> hm_ok (hm_iter_mut f m)"
  by (simp add: hm_iter_mut_update_all)

lemma hm_ok_insert [simp]: "hm_ok m \<Longrightarrow> hm_ok (hm_insert k v m)"
  by (rule hm.ok_insert)

lemma hm_ok_remove [simp]: "hm_ok m \<Longrightarrow> hm_ok (hm_remove k m)"
  by (rule hm.ok_remove)

lemma hm_get_insert [simp]: "hm_get (hm_insert k v m) = (hm_get m)(k \<mapsto> v)"
  by (rule hm.get_insert)

lemma hm_get_remove [simp]: "hm_get (hm_remove k m) = (hm_get m)(k := None)"
  by (rule hm.get_remove)

lemma length_hm_insert: "length (hm_insert k v m) = (if hm_get m k = None then Suc (length m) else length m)"
  by (induction m) auto

lemma length_hm_remove: "hm_get m k \<noteq> None \<Longrightarrow> length (hm_remove k m) < length m"
  by (induction m) (auto simp: less_Suc_eq_le length_delete_le)

lemma hm_insert_nonempty [simp]: "hm_insert k v m \<noteq> []"
  by (induction m) auto

lemma hm_empty_iff: "m = [] \<longleftrightarrow> (\<forall>k. hm_get m k = None)"
  by (cases m) (auto intro: exI [of _ "fst (hd m)"])

text \<open>Lookups stay lookups: the library would turn them into membership of a pair.\<close>

declare map_of_eq_Some_iff [simp del] Some_eq_map_of_iff [simp del]

section \<open>Loops that may return early\<close>

text \<open>\<open>for x in xs { body(x)?; }\<close> on an explicit state.\<close>

fun fold_res :: "('a \<Rightarrow> 's \<Rightarrow> 'e + 's) \<Rightarrow> 'a list \<Rightarrow> 's \<Rightarrow> 'e + 's" where
  "fold_res body [] s = Inr s"
| "fold_res body (x # xs) s = (case body x s of Inl e \<Rightarrow> Inl e | Inr s' \<Rightarrow> fold_res body xs s')"

lemma fold_res_invariant:
  assumes "fold_res body xs s = Inr s'" and "I s"
    and "\<And>x s s'. x \<in> set xs \<Longrightarrow> I s \<Longrightarrow> body x s = Inr s' \<Longrightarrow> I s'"
  shows "I s'"
  using assms
proof (induction xs arbitrary: s)
  case (Cons x xs)
  from Cons.prems(1) obtain t where step: "body x s = Inr t" and rest: "fold_res body xs t = Inr s'"
    by (auto split: sum.splits)
  have "I t" using Cons.prems(2) step by (rule Cons.prems(3) [of x, rotated]) simp
  then show ?case using Cons.prems(3) by (intro Cons.IH [OF rest]) auto
qed simp

end
