(* ===== verification/Timeline.thy ===== *)
theory Timeline
  imports Rtmp_Prelude
begin

text \<open>
  The timestamp remapper of the media plane (\<open>src/src/cluster/media/timeline.rs\<close>). A stream that
  fails over to another node restarts its timestamps; \<open>TimelineRemapper::map\<close> shifts the incoming
  timestamps of each ownership epoch so that the outgoing timeline goes on. All arithmetic is on
  32-bit words and wraps.
\<close>

section \<open>Model\<close>

record timeline_remapper =
  tr_offset :: u32
  tr_last_out :: u32
  tr_current_epoch :: "u64 option"
  tr_prev_epoch_last_in :: u32

definition timeline_new :: timeline_remapper where
  "timeline_new = \<lparr>tr_offset = 0, tr_last_out = 0, tr_current_epoch = None, tr_prev_epoch_last_in = 0\<rparr>"

text \<open>The epoch change at the head of \<open>map\<close>.\<close>

definition timeline_enter_epoch :: "timeline_remapper \<Rightarrow> u64 \<Rightarrow> u32 \<Rightarrow> timeline_remapper" where
  "timeline_enter_epoch t epoch ts_in =
     (if tr_current_epoch t \<noteq> Some epoch then
        t\<lparr>tr_offset := (if tr_current_epoch t \<noteq> None then tr_last_out t + 1 - ts_in else 0),
          tr_current_epoch := Some epoch,
          tr_prev_epoch_last_in := ts_in\<rparr>
      else t\<lparr>tr_prev_epoch_last_in := ts_in\<rparr>)"

definition timeline_map :: "timeline_remapper \<Rightarrow> u64 \<Rightarrow> u32 \<Rightarrow> timeline_remapper \<times> u32" where
  "timeline_map t0 epoch ts_in =
     (let t = timeline_enter_epoch t0 epoch ts_in;
          out = ts_in + tr_offset t
      in if tr_current_epoch t \<noteq> None \<and> out < tr_last_out t then
           let t' = t\<lparr>tr_offset := tr_last_out t + 1 - ts_in\<rparr>;
               out2 = ts_in + tr_offset t'
           in (t'\<lparr>tr_last_out := out2\<rparr>, out2)
         else (t\<lparr>tr_last_out := out\<rparr>, out))"

definition timeline_last_out :: "timeline_remapper \<Rightarrow> u32" where
  "timeline_last_out t = tr_last_out t"

text \<open>The frames of one subscription, in arrival order, each with its epoch.\<close>

fun timeline_run :: "timeline_remapper \<Rightarrow> (u64 \<times> u32) list \<Rightarrow> u32 list" where
  "timeline_run t [] = []"
| "timeline_run t ((epoch, ts) # fs) =
     (let (t', out) = timeline_map t epoch ts in out # timeline_run t' fs)"

section \<open>Library lemmas\<close>

text \<open>
  One step forward on the outgoing timeline: not backwards, except that a timeline standing at the
  last value of the word continues at zero.
\<close>

definition timeline_advances :: "u32 \<Rightarrow> u32 \<Rightarrow> bool" where
  "timeline_advances a b \<longleftrightarrow> a \<le> b \<or> (a = - 1 \<and> b = 0)"

lemma timeline_advances_refl [simp]: "timeline_advances a a"
  by (simp add: timeline_advances_def)

lemma timeline_advances_Suc [simp]: "timeline_advances a (a + 1)"
proof (cases "a = - 1")
  case False
  then show ?thesis by (simp add: timeline_advances_def word_less_plus_one less_imp_le)
qed (simp add: timeline_advances_def)

lemma timeline_enter_epoch_last_out [simp]:
  "tr_last_out (timeline_enter_epoch t epoch ts) = tr_last_out t"
  by (simp add: timeline_enter_epoch_def)

lemma timeline_enter_epoch_current [simp]:
  "tr_current_epoch (timeline_enter_epoch t epoch ts) = Some epoch"
  by (simp add: timeline_enter_epoch_def)

lemma timeline_map_state:
  assumes "timeline_map t epoch ts = (t', out)"
  shows "tr_last_out t' = out" and "tr_current_epoch t' = Some epoch"
    and "out = ts + tr_offset t'"
  using assms by (auto simp: timeline_map_def Let_def split: if_splits)

lemma timeline_map_out:
  "snd (timeline_map t epoch ts) =
     (let o1 = ts + tr_offset (timeline_enter_epoch t epoch ts)
      in if o1 < tr_last_out t then tr_last_out t + 1 else o1)"
  by (simp add: timeline_map_def Let_def)

lemma timeline_map_advances: "timeline_advances (tr_last_out t) (snd (timeline_map t epoch ts))"
  by (simp add: timeline_map_out Let_def timeline_advances_def [of _ "ts + _"] linorder_not_less)

section \<open>Properties\<close>


text \<open>
  A failover is seamless: the first frame of a new epoch leaves the remapper exactly one
  after the last timestamp sent, wherever the new owner's clock stands, and the frames that
  follow in that epoch keep the owner's spacing (the difference of the outputs is the
  difference of the inputs) as long as the owner's timestamps do not run backwards.
\<close>

theorem timeline_handoff:
  assumes "tr_current_epoch t = Some old" and "new \<noteq> old"
    and "timeline_map t new ts1 = (t1, out1)"
    and "timeline_map t1 new ts2 = (t2, out2)"
    and "out1 \<le> out1 + (ts2 - ts1)"
  shows "out1 = timeline_last_out t + 1 \<and> out2 - out1 = ts2 - ts1"
proof -
  have off: "tr_offset (timeline_enter_epoch t new ts1) = tr_last_out t + 1 - ts1"
    using assms(1,2) by (simp add: timeline_enter_epoch_def)
  have out1: "out1 = tr_last_out t + 1"
    using assms(3) timeline_map_out [of t new ts1] off by (simp add: Let_def)
  have o1: "tr_offset t1 = out1 - ts1" and cur: "tr_current_epoch t1 = Some new"
    and last: "tr_last_out t1 = out1"
    using timeline_map_state [OF assms(3)] by simp_all
  have "tr_offset (timeline_enter_epoch t1 new ts2) = out1 - ts1"
    using cur o1 by (simp add: timeline_enter_epoch_def)
  then have "snd (timeline_map t1 new ts2) =
      (if ts2 + (out1 - ts1) < out1 then out1 + 1 else ts2 + (out1 - ts1))"
    by (simp only: timeline_map_out Let_def last)
  moreover have "ts2 + (out1 - ts1) = out1 + (ts2 - ts1)" by simp
  ultimately have "out2 = out1 + (ts2 - ts1)"
    using assms(4) leD [OF assms(5)] by simp
  with out1 show ?thesis by (simp add: timeline_last_out_def)
qed

end
