(* ===== verification/Protocol.thy ===== *)
theory Protocol
  imports Rtmp_Prelude
begin

text \<open>
  The messages of the media plane (\<open>src/src/cluster/media/protocol.rs\<close>).

  \<open>DeliveryHint\<close> and \<open>FrameType\<close> are enums of the \<open>librtmp2\<close> crate; the sources match on them
  exhaustively, which fixes their variants. The byte codes of \<open>DeliveryHint\<close> (\<open>to_u8\<close>,
  \<open>from_u8\<close>) live in that crate and are arguments of the definitions that use them. A
  \<open>serde_json::Value\<close> is a value of an abstract type: the code only passes it on.
\<close>

section \<open>Data\<close>

datatype delivery_hint = Critical | ResyncPoint | Droppable

datatype frame_type = FT_Audio | FT_Video | FT_Script | FT_Metadata

typedecl json_value

type_synonym node_id = u64

datatype media_message =
    Hello (h_version: u16) (h_node_id: node_id)
  | AuthChallenge (nonce: bytes)
  | Auth (auth_node_id: node_id) (auth_resp: string)
  | AuthOk
  | AuthFail
  | Subscribe string string u64 u64
  | Unsubscribe string string
  | StreamStart string string u64 node_id
  | StreamStop string string u64
  | InitCache string string u64 "bytes option" "bytes option" "bytes option" "(u32 \<times> bytes) option"
  | MediaFrame string string u64 u8 u32 u32 delivery_hint bytes
  | ErrorMsg string string u64
  | StatsReq string
  | StatsResp string json_value

definition MEDIA_PROTOCOL_VERSION :: u16 where
  "MEDIA_PROTOCOL_VERSION = 2"

definition MEDIA_PROTOCOL_MIN_VERSION :: u16 where
  "MEDIA_PROTOCOL_MIN_VERSION = 1"

definition SUBSCRIBE_DENIED :: string where
  "SUBSCRIBE_DENIED = ''subscribe_denied''"

definition SUBSCRIBE_UNAVAILABLE :: string where
  "SUBSCRIBE_UNAVAILABLE = ''subscribe_unavailable''"

section \<open>Frame type codes\<close>

fun frame_type_from_librtmp2 :: "frame_type \<Rightarrow> u8" where
  "frame_type_from_librtmp2 FT_Audio = 0"
| "frame_type_from_librtmp2 FT_Video = 1"
| "frame_type_from_librtmp2 FT_Script = 2"
| "frame_type_from_librtmp2 FT_Metadata = 3"

definition frame_type_to_librtmp2 :: "u8 \<Rightarrow> frame_type option" where
  "frame_type_to_librtmp2 v =
     (if v = 0 then Some FT_Audio
      else if v = 1 then Some FT_Video
      else if v = 2 then Some FT_Script
      else if v = 3 then Some FT_Metadata
      else None)"

lemma frame_type_roundtrip [simp]: "frame_type_to_librtmp2 (frame_type_from_librtmp2 ft) = Some ft"
  by (cases ft) (simp_all add: frame_type_to_librtmp2_def)

lemma frame_type_code [simp]:
  "frame_type_to_librtmp2 v = Some ft \<longleftrightarrow> v = frame_type_from_librtmp2 ft"
  by (cases ft) (auto simp: frame_type_to_librtmp2_def)

lemma frame_type_known: "frame_type_to_librtmp2 v \<noteq> None \<longleftrightarrow> v < 4"
proof -
  have "v < 4 \<longleftrightarrow> v = 0 \<or> v = 1 \<or> v = 2 \<or> v = 3"
    by (simp add: word_less_nat_alt word_unat_eq_iff) arith
  then show ?thesis by (auto simp: frame_type_to_librtmp2_def)
qed

section \<open>The stream a message is about\<close>

text \<open>The \<open>(app, stream)\<close> pair of the name-bearing messages.\<close>

fun message_names :: "media_message \<Rightarrow> (string \<times> string) option" where
  "message_names (Subscribe a s _ _) = Some (a, s)"
| "message_names (Unsubscribe a s) = Some (a, s)"
| "message_names (StreamStart a s _ _) = Some (a, s)"
| "message_names (StreamStop a s _) = Some (a, s)"
| "message_names (InitCache a s _ _ _ _ _) = Some (a, s)"
| "message_names (MediaFrame a s _ _ _ _ _ _) = Some (a, s)"
| "message_names _ = None"

end
