(* ===== verification/Sliding_Window.thy ===== *)
theory Sliding_Window
  imports Rtmp_Prelude
begin

text \<open>
  What the two in-process sliding-window trackers share: the HTTP rate limiter
  (\<open>src/src/rate_limit.rs\<close>) and the cluster handshake failure tracker
  (\<open>src/src/cluster/security.rs\<close>). Both keep a list of clock readings per client, drop the
  readings that left the window, bound the number of tracked clients, and make room by removing
  the least recently active client that is not being throttled.
\<close>

section \<open>Window arithmetic\<close>

text \<open>\<open>now.checked_duration_since(t).is_none_or(|age| age < window)\<close>.\<close>

definition in_window :: "duration \<Rightarrow> instant \<Rightarrow> instant \<Rightarrow> bool" where
  "in_window window now t =
     (case checked_since now t of None \<Rightarrow> True | Some age \<Rightarrow> age < window)"

definition active_count :: "duration \<Rightarrow> instant list \<Rightarrow> instant \<Rightarrow> nat" where
  "active_count window entries now = length (filter (in_window window now) entries)"

text \<open>
  \<open>Iterator::min_by_key\<close>: the first element with the least key, \<open>None\<close> for no element.
\<close>

fun min_by_key :: "('a \<Rightarrow> 'k::linorder) \<Rightarrow> 'a list \<Rightarrow> 'a option" where
  "min_by_key f [] = None"
| "min_by_key f (x # xs) =
     (case min_by_key f xs of
        None \<Rightarrow> Some x
      | Some y \<Rightarrow> if f x \<le> f y then Some x else Some y)"

text \<open>\<open>entries.last().copied().unwrap_or(default)\<close>.\<close>

definition last_or :: "'a \<Rightarrow> 'a list \<Rightarrow> 'a" where
  "last_or d xs = (if xs = [] then d else last xs)"

section \<open>Lemmas\<close>

lemma in_window_iff: "in_window w now t \<longleftrightarrow> now < t \<or> now < t + w"
  by (auto simp: in_window_def checked_since_def)

lemma in_window_earlier: "in_window w later t \<Longrightarrow> now \<le> later \<Longrightarrow> in_window w now t"
  by (auto simp: in_window_iff)

lemma filter_in_window_later:
  "now \<le> later \<Longrightarrow>
   filter (in_window w later) (filter (in_window w now) ts) = filter (in_window w later) ts"
  by (auto intro!: filter_cong dest: in_window_earlier)

lemma active_count_purged [simp]:
  "active_count w (filter (in_window w now) ts) now = active_count w ts now"
  by (simp add: active_count_def)

lemma active_count_later_purged:
  "now \<le> later \<Longrightarrow> active_count w (filter (in_window w now) ts) later = active_count w ts later"
  by (simp add: active_count_def filter_in_window_later del: filter_filter)

lemma length_filter_active: "length (filter (in_window w now) ts) = active_count w ts now"
  by (simp add: active_count_def)

lemma active_count_antimono: "now \<le> later \<Longrightarrow> active_count w ts later \<le> active_count w ts now"
  by (induction ts) (auto simp: active_count_def dest: in_window_earlier)

lemma min_by_key_None [simp]: "min_by_key f xs = None \<longleftrightarrow> xs = []"
  by (cases xs) (auto split: option.splits)

lemma min_by_key_mem: "min_by_key f xs = Some x \<Longrightarrow> x \<in> set xs"
  by (induction xs arbitrary: x) (auto split: option.splits if_splits)

lemma min_by_key_least: "min_by_key f xs = Some x \<Longrightarrow> y \<in> set xs \<Longrightarrow> f x \<le> f y"
proof (induction xs arbitrary: x)
  case (Cons z zs)
  show ?case
  proof (cases "min_by_key f zs")
    case None
    with Cons.prems show ?thesis by auto
  next
    case (Some u)
    with Cons.prems Cons.IH [OF Some] show ?thesis
      by (auto split: if_splits)
  qed
qed simp

section \<open>Tracker interface\<close>

text \<open>
  A bounded tracker of client buckets. \<open>throttled s k now\<close>: the client \<open>k\<close> has used up its budget
  at time \<open>now\<close>. \<open>touch\<close> is one request or failure of a client; the law says that no
  request, of the client itself or of another one, ends a client's throttling early.
\<close>

locale window_tracker =
  fixes touch :: "'s \<Rightarrow> 'k \<Rightarrow> instant \<Rightarrow> 's"
    and throttled :: "'s \<Rightarrow> 'k \<Rightarrow> instant \<Rightarrow> bool"
    and ok :: "'s \<Rightarrow> bool"
    and admissible :: "'k \<Rightarrow> bool"
  assumes touch_ok: "ok s \<Longrightarrow> admissible k \<Longrightarrow> ok (touch s k now)"
    and touch_keeps_throttled:
      "ok s \<Longrightarrow> admissible k \<Longrightarrow> now \<le> later \<Longrightarrow> throttled s l later \<Longrightarrow>
       throttled (touch s k now) l later"
begin

fun touch_all :: "'s \<Rightarrow> ('k \<times> instant) list \<Rightarrow> 's" where
  "touch_all s [] = s"
| "touch_all s ((k, now) # ks) = touch_all (touch s k now) ks"

lemma touch_all_keeps_throttled:
  "ok s \<Longrightarrow> (\<forall>(k, now) \<in> set ks. admissible k \<and> now \<le> later) \<Longrightarrow>
   throttled s l later \<Longrightarrow> throttled (touch_all s ks) l later"
proof (induction ks arbitrary: s)
  case (Cons e ks)
  obtain k now where e: "e = (k, now)" by (cases e)
  with Cons.prems show ?case
    by (auto intro!: Cons.IH touch_ok touch_keeps_throttled)
qed simp

lemma touch_all_ok:
  "ok s \<Longrightarrow> (\<forall>(k, now) \<in> set ks. admissible k) \<Longrightarrow> ok (touch_all s ks)"
  by (induction ks arbitrary: s) (auto simp: touch_ok)

end

end
