(* ===== verification/Net_Addr.thy ===== *)
theory Net_Addr
  imports Rtmp_Prelude
begin

unbundle bit_operations_syntax

text \<open>
  \<open>std::net::IpAddr\<close> with the classification methods the sources call. An IPv6 address is its
  eight 16-bit segments, an IPv4 address its four octets.
\<close>

datatype ip_addr = V4 u8 u8 u8 u8 | V6 u16 u16 u16 u16 u16 u16 u16 u16

text \<open>\<open>IpAddr::to_canonical\<close>: an IPv4-mapped IPv6 address becomes the IPv4 address.\<close>

fun to_canonical :: "ip_addr \<Rightarrow> ip_addr" where
  "to_canonical (V4 a b c d) = V4 a b c d"
| "to_canonical (V6 s0 s1 s2 s3 s4 s5 s6 s7) =
     (if s0 = 0 \<and> s1 = 0 \<and> s2 = 0 \<and> s3 = 0 \<and> s4 = 0 \<and> s5 = 0xffff
      then V4 (ucast (drop_bit 8 s6)) (ucast s6) (ucast (drop_bit 8 s7)) (ucast s7)
      else V6 s0 s1 s2 s3 s4 s5 s6 s7)"

fun is_unspecified :: "ip_addr \<Rightarrow> bool" where
  "is_unspecified (V4 a b c d) \<longleftrightarrow> a = 0 \<and> b = 0 \<and> c = 0 \<and> d = 0"
| "is_unspecified (V6 s0 s1 s2 s3 s4 s5 s6 s7) \<longleftrightarrow>
     s0 = 0 \<and> s1 = 0 \<and> s2 = 0 \<and> s3 = 0 \<and> s4 = 0 \<and> s5 = 0 \<and> s6 = 0 \<and> s7 = 0"

fun is_multicast :: "ip_addr \<Rightarrow> bool" where
  "is_multicast (V4 a b c d) \<longleftrightarrow> 224 \<le> a \<and> a \<le> 239"
| "is_multicast (V6 s0 s1 s2 s3 s4 s5 s6 s7) \<longleftrightarrow> s0 AND 0xff00 = 0xff00"

fun is_loopback :: "ip_addr \<Rightarrow> bool" where
  "is_loopback (V4 a b c d) \<longleftrightarrow> a = 127"
| "is_loopback (V6 s0 s1 s2 s3 s4 s5 s6 s7) \<longleftrightarrow>
     s0 = 0 \<and> s1 = 0 \<and> s2 = 0 \<and> s3 = 0 \<and> s4 = 0 \<and> s5 = 0 \<and> s6 = 0 \<and> s7 = 1"

text \<open>\<open>Ipv4Addr::is_link_local\<close> and \<open>Ipv6Addr::is_unicast_link_local\<close>.\<close>

fun is_link_local :: "ip_addr \<Rightarrow> bool" where
  "is_link_local (V4 a b c d) \<longleftrightarrow> a = 169 \<and> b = 254"
| "is_link_local (V6 s0 s1 s2 s3 s4 s5 s6 s7) \<longleftrightarrow> s0 AND 0xffc0 = 0xfe80"

lemma to_canonical_idem [simp]: "to_canonical (to_canonical ip) = to_canonical ip"
  by (cases ip) auto

lemma to_canonical_V6_not_mapped:
  "to_canonical ip = V6 s0 s1 s2 s3 s4 s5 s6 s7 \<Longrightarrow>
   \<not> (s0 = 0 \<and> s1 = 0 \<and> s2 = 0 \<and> s3 = 0 \<and> s4 = 0 \<and> s5 = 0xffff)"
  by (cases ip) (auto split: if_splits)

end
