(* ===== verification/Ct_Compare.thy ===== *)
theory Ct_Compare
  imports Rtmp_Prelude
begin

unbundle bit_operations_syntax

text \<open>
  What the two constant-time string comparisons share (\<open>ct_str_eq\<close> in \<open>src/src/rate_limit.rs\<close>,
  \<open>secrets_equal\<close> in \<open>src/src/cluster/security.rs\<close>): both fold the differences of the bytes, read
  as zero behind the end of the shorter string, into one byte.
\<close>

text \<open>\<open>a.get(i).copied().unwrap_or(0)\<close>.\<close>

definition byte_at :: "bytes \<Rightarrow> nat \<Rightarrow> u8" where
  "byte_at a i = (if i < length a then a ! i else 0)"

lemma foldl_or_zero:
  "foldl (\<lambda>diff i. diff OR f i) (d :: u8) is = 0 \<longleftrightarrow> d = 0 \<and> (\<forall>i\<in>set is. f i = 0)"
  by (induction "is" arbitrary: d) (auto simp: or_eq_0_iff)

lemma xor_zero_iff: "(a :: u8) XOR b = 0 \<longleftrightarrow> a = b"
  by (metis xor.right_neutral xor_self_eq xor.assoc xor.left_neutral)

text \<open>Zero padding to a common length, the reading of \<open>unwrap_or(0)\<close>.\<close>

definition zero_padded :: "nat \<Rightarrow> bytes \<Rightarrow> bytes" where
  "zero_padded n bs = bs @ replicate (n - length bs) 0"

lemma zero_padded_eq_iff:
  "zero_padded (max (length a) (length b)) a = zero_padded (max (length a) (length b)) b \<longleftrightarrow>
   (\<forall>i < max (length a) (length b). byte_at a i = byte_at b i)"
proof -
  have nth: "zero_padded n c ! i = byte_at c i" if "i < n" for n c i
    using that by (auto simp: zero_padded_def byte_at_def nth_append)
  have len: "length (zero_padded n c) = max n (length c)" for n c
    by (auto simp: zero_padded_def)
  show ?thesis by (auto simp: list_eq_iff_nth_eq len nth)
qed

text \<open>The fold over all positions.\<close>

lemma fold_diff_zero:
  "foldl (\<lambda>diff i. diff OR (byte_at a i XOR byte_at b i)) (d :: u8) [0..<max (length a) (length b)] = 0 \<longleftrightarrow>
   d = 0 \<and> zero_padded (max (length a) (length b)) a = zero_padded (max (length a) (length b)) b"
  by (auto simp: foldl_or_zero xor_zero_iff zero_padded_eq_iff)

end
