(* ===== verification/Rate_Limit.thy ===== *)
theory Rate_Limit
  imports Sliding_Window Net_Addr Ct_Compare
begin

unbundle bit_operations_syntax

text \<open>
  The HTTP rate limiter (\<open>src/src/rate_limit.rs\<close>): the bucket map of \<open>RateLimiter\<close>, the
  classification of requests into buckets, the bearer-token preview with its constant-time
  comparison, and the client address resolution behind trusted proxies.

  Clock readings are arguments: \<open>now\<close> is the reading at the head of \<open>check\<close>, \<open>fresh\<close> the one that
  \<open>unwrap_or_else(Instant::now)\<close> would take for a bucket without entries.
\<close>

section \<open>Model\<close>

definition MAX_TRACKED_KEYS :: nat where
  "MAX_TRACKED_KEYS = 10000"

record http_rate_limit_config =
  rl_window :: duration
  rl_api_max :: nat
  rl_stats_max :: nat
  rl_default_max :: nat

definition http_rate_limit_default :: http_rate_limit_config where
  "http_rate_limit_default =
     \<lparr>rl_window = secs 60, rl_api_max = 120, rl_stats_max = 30, rl_default_max = 60\<rparr>"

record bucket =
  bk_entries :: "instant list"
  bk_max_requests :: nat

type_synonym bucket_map = "(string, bucket) hmap"

definition timestamp_in_window :: "http_rate_limit_config \<Rightarrow> instant \<Rightarrow> instant \<Rightarrow> bool" where
  "timestamp_in_window cfg now timestamp = in_window (rl_window cfg) now timestamp"

definition active_request_count :: "http_rate_limit_config \<Rightarrow> instant list \<Rightarrow> instant \<Rightarrow> nat" where
  "active_request_count cfg entries now = length (filter (timestamp_in_window cfg now) entries)"

definition purge_expired :: "http_rate_limit_config \<Rightarrow> bucket_map \<Rightarrow> instant \<Rightarrow> bucket_map" where
  "purge_expired cfg guard now =
     hm_update_all
       (\<lambda>_ b. let b' = b\<lparr>bk_entries := filter (timestamp_in_window cfg now) (bk_entries b)\<rparr>
              in if bk_entries b' \<noteq> [] then Some b' else None) guard"

definition evict_oldest_eligible_client ::
    "http_rate_limit_config \<Rightarrow> bucket_map \<Rightarrow> instant \<Rightarrow> instant \<Rightarrow> bool \<times> bucket_map" where
  "evict_oldest_eligible_client cfg guard now fresh =
     (case min_by_key (\<lambda>(_, b). last_or fresh (bk_entries b))
             (filter (\<lambda>(_, b). active_request_count cfg (bk_entries b) now < bk_max_requests b) guard) of
        None \<Rightarrow> (False, guard)
      | Some (oldest_key, _) \<Rightarrow> (True, hm_remove oldest_key guard))"

text \<open>The part of \<open>check\<close> behind the lookup: make room if the map is full, then insert.\<close>

definition check_insert ::
    "http_rate_limit_config \<Rightarrow> bucket_map \<Rightarrow> string \<Rightarrow> nat \<Rightarrow> instant \<Rightarrow> instant \<Rightarrow> bool \<times> bucket_map" where
  "check_insert cfg guard key max_requests now fresh =
     (let ins = (\<lambda>g. (True, hm_insert key \<lparr>bk_entries = [now], bk_max_requests = max_requests\<rparr> g))
      in if MAX_TRACKED_KEYS \<le> length guard then
           let g1 = purge_expired cfg guard now
           in if MAX_TRACKED_KEYS \<le> length g1 then
                let (evicted, g2) = evict_oldest_eligible_client cfg g1 now fresh
                in if \<not> evicted then (False, g2) else ins g2
              else ins g1
         else ins guard)"

definition check ::
    "http_rate_limit_config \<Rightarrow> bucket_map \<Rightarrow> string \<Rightarrow> nat \<Rightarrow> instant \<Rightarrow> instant \<Rightarrow> bool \<times> bucket_map" where
  "check cfg guard key max_requests now fresh =
     (if max_requests = 0 then (False, guard)
      else case hm_get guard key of
        Some bucket \<Rightarrow>
          (let b1 = bucket\<lparr>bk_entries := filter (timestamp_in_window cfg now) (bk_entries bucket)\<rparr>;
               g1 = hm_insert key b1 guard
           in if max_requests \<le> length (bk_entries b1) then (False, g1)
              else if bk_entries b1 \<noteq> [] then
                (True, hm_insert key (b1\<lparr>bk_entries := bk_entries b1 @ [now]\<rparr>) guard)
              else check_insert cfg (hm_remove key g1) key max_requests now fresh)
      | None \<Rightarrow> check_insert cfg guard key max_requests now fresh)"

subsection \<open>Bucket selection\<close>

definition starts_with :: "string \<Rightarrow> string \<Rightarrow> bool" where
  "starts_with p s = prefix p s"

definition bucket_for :: "http_rate_limit_config \<Rightarrow> string \<Rightarrow> bool \<Rightarrow> nat \<times> string" where
  "bucket_for cfg path authenticated =
     (if starts_with ''/api/'' path then
        (if authenticated then (rl_api_max cfg, ''api'') else (rl_default_max cfg, ''public''))
      else if path = ''/stats'' \<or> path = ''/stats-nginx'' then (rl_stats_max cfg, path)
      else if starts_with ''/hls/'' path then
        ((if rl_default_max cfg = 0 then 0
          else max (usize_saturating_mul (rl_default_max cfg) 10) 600), ''hls'')
      else (rl_default_max cfg, ''default''))"

subsection \<open>Bearer token preview\<close>

definition ct_str_eq :: "string \<Rightarrow> string \<Rightarrow> bool" where
  "ct_str_eq sa sb =
     (let a = str_bytes sa; b = str_bytes sb;
          n = max (length a) (length b);
          diff0 = (of_nat (length a XOR length b) :: u8)
      in foldl (\<lambda>diff i. diff OR (byte_at a i XOR byte_at b i)) diff0 [0..<n] = 0)"

text \<open>
  \<open>str::trim\<close> on header text: \<open>HeaderValue::to_str\<close> only yields visible ASCII, space and tab, so
  the white space that can occur is the space and the tab.
\<close>

definition is_header_space :: "char \<Rightarrow> bool" where
  "is_header_space c \<longleftrightarrow> c = CHR '' '' \<or> c = CHR 0x09"

definition trim :: "string \<Rightarrow> string" where
  "trim s = rev (dropWhile is_header_space (rev (dropWhile is_header_space s)))"

definition strip_prefix :: "string \<Rightarrow> string \<Rightarrow> string option" where
  "strip_prefix p s = (if prefix p s then Some (drop (length p) s) else None)"

text \<open>The \<open>Authorization\<close> header, \<open>None\<close> when it is absent or not text.\<close>

definition bearer_authenticated :: "string option \<Rightarrow> string \<Rightarrow> bool" where
  "bearer_authenticated authorization token =
     (if token = [] then False
      else case authorization of
        None \<Rightarrow> False
      | Some hdr \<Rightarrow> (case strip_prefix ''Bearer '' hdr of
            None \<Rightarrow> False
          | Some tok \<Rightarrow> ct_str_eq (trim tok) token))"

subsection \<open>Client address\<close>

text \<open>\<open>str::split(',')\<close>.\<close>

fun split_comma :: "string \<Rightarrow> string list" where
  "split_comma [] = [[]]"
| "split_comma (c # cs) =
     (if c = CHR '','' then [] # split_comma cs
      else case split_comma cs of
          [] \<Rightarrow> [[c]]
        | w # ws \<Rightarrow> (c # w) # ws)"

text \<open>\<open>xff.split(',').map(str::trim).rfind(|part| !part.is_empty())\<close>.\<close>

definition rightmost_hop :: "string \<Rightarrow> string option" where
  "rightmost_hop xff = List.find (\<lambda>part. part \<noteq> []) (rev (map trim (split_comma xff)))"

text \<open>\<open>parse_ip\<close> stands for \<open>str::parse::<IpAddr>\<close>.\<close>

definition resolve_client_ip ::
    "(string \<Rightarrow> ip_addr option) \<Rightarrow> ip_addr \<Rightarrow> string option \<Rightarrow> ip_addr list \<Rightarrow> ip_addr" where
  "resolve_client_ip parse_ip peer0 x_forwarded_for trusted_proxies =
     (let peer = to_canonical peer0
      in if list_ex (\<lambda>proxy. to_canonical proxy = peer) trusted_proxies then
           (case x_forwarded_for of
              None \<Rightarrow> peer
            | Some xff \<Rightarrow> (case rightmost_hop xff of
                 None \<Rightarrow> peer
               | Some rightmost \<Rightarrow> (case parse_ip rightmost of
                    Some client \<Rightarrow> to_canonical client
                  | None \<Rightarrow> peer)))
         else peer)"

definition client_ip ::
    "(string \<Rightarrow> ip_addr option) \<Rightarrow> ip_addr option \<Rightarrow> string option \<Rightarrow> ip_addr list \<Rightarrow> ip_addr" where
  "client_ip parse_ip connect_info x_forwarded_for trusted_proxies =
     (case connect_info of
        None \<Rightarrow> V4 127 0 0 1
      | Some peer \<Rightarrow> resolve_client_ip parse_ip peer x_forwarded_for trusted_proxies)"

subsection \<open>Middleware\<close>

record http_request =
  rq_path :: string
  rq_connect_info :: "ip_addr option"
  rq_authorization :: "string option"
  rq_x_forwarded_for :: "string option"

record rate_limiter =
  rlm_inner :: bucket_map
  rlm_config :: http_rate_limit_config
  rlm_trusted_proxies :: "ip_addr list"
  rlm_api_token :: string

definition rate_limiter_new ::
    "http_rate_limit_config \<Rightarrow> ip_addr list \<Rightarrow> string \<Rightarrow> rate_limiter" where
  "rate_limiter_new config trusted_proxies api_token =
     \<lparr>rlm_inner = [], rlm_config = config, rlm_trusted_proxies = trusted_proxies,
      rlm_api_token = api_token\<rparr>"

datatype middleware_result = TooManyRequests | RunNext

text \<open>\<open>format!("{peer}:{bucket}")\<close>; \<open>show_ip\<close> stands for the \<open>Display\<close> of an address.\<close>

definition bucket_key :: "(ip_addr \<Rightarrow> string) \<Rightarrow> ip_addr \<Rightarrow> string \<Rightarrow> string" where
  "bucket_key show_ip peer bucket = show_ip peer @ '':'' @ bucket"

definition middleware ::
    "(string \<Rightarrow> ip_addr option) \<Rightarrow> (ip_addr \<Rightarrow> string) \<Rightarrow> rate_limiter \<Rightarrow> http_request \<Rightarrow>
     instant \<Rightarrow> instant \<Rightarrow> middleware_result \<times> rate_limiter" where
  "middleware parse_ip show_ip limiter request now fresh =
     (let path = rq_path request;
          peer = client_ip parse_ip (rq_connect_info request) (rq_x_forwarded_for request)
                   (rlm_trusted_proxies limiter);
          authenticated = bearer_authenticated (rq_authorization request) (rlm_api_token limiter);
          (mx, bucket) = bucket_for (rlm_config limiter) path authenticated;
          key = bucket_key show_ip peer bucket;
          (admitted, inner) = check (rlm_config limiter) (rlm_inner limiter) key mx now fresh
      in (if \<not> admitted then TooManyRequests else RunNext, limiter\<lparr>rlm_inner := inner\<rparr>))"

end
