(* ===== verification/Rate_Limit_Props.thy ===== *)
theory Rate_Limit_Props
  imports Rate_Limit
begin

unbundle bit_operations_syntax

text \<open>
  Correctness of the HTTP rate limiter: the size bound of the bucket map, the sliding-window
  guarantee, the protection of throttled clients against eviction, the separation of budgets,
  and the constant-time comparison against plain equality.
\<close>

section \<open>Well-formed bucket maps\<close>

text \<open>
  Every bucket is used with one cap (\<open>cap\<close>): the key contains the bucket name, and the cap is a
  function of the bucket name under a fixed configuration.
\<close>

definition rl_ok :: "(string \<Rightarrow> nat) \<Rightarrow> bucket_map \<Rightarrow> bool" where
  "rl_ok cap g \<longleftrightarrow> hm_ok g \<and> length g \<le> MAX_TRACKED_KEYS \<and>
     (\<forall>k b. hm_get g k = Some b \<longrightarrow>
        0 < cap k \<and> bk_max_requests b = cap k \<and> bk_entries b \<noteq> [] \<and> length (bk_entries b) \<le> cap k)"

definition entries_of :: "bucket_map \<Rightarrow> string \<Rightarrow> instant list" where
  "entries_of g k = (case hm_get g k of None \<Rightarrow> [] | Some b \<Rightarrow> bk_entries b)"

lemma rl_okD:
  assumes "rl_ok cap g"
  shows "hm_ok g" and "length g \<le> MAX_TRACKED_KEYS"
    and "hm_get g k = Some b \<Longrightarrow> bk_max_requests b = cap k"
    and "hm_get g k = Some b \<Longrightarrow> bk_entries b \<noteq> []"
    and "hm_get g k = Some b \<Longrightarrow> length (bk_entries b) \<le> cap k"
    and "hm_get g k = Some b \<Longrightarrow> 0 < cap k"
  using assms by (auto simp: rl_ok_def)

lemma timestamp_in_window_eq [simp]: "timestamp_in_window cfg = in_window (rl_window cfg)"
  by (simp add: timestamp_in_window_def fun_eq_iff)

lemma active_request_count_eq [simp]:
  "active_request_count cfg ts now = active_count (rl_window cfg) ts now"
  by (simp add: active_request_count_def active_count_def)

section \<open>Eviction\<close>

lemma purge_expired_get:
  "hm_ok g \<Longrightarrow> hm_get (purge_expired cfg g now) k =
     (case hm_get g k of None \<Rightarrow> None
      | Some b \<Rightarrow> if filter (in_window (rl_window cfg) now) (bk_entries b) = [] then None
                 else Some (b\<lparr>bk_entries := filter (in_window (rl_window cfg) now) (bk_entries b)\<rparr>))"
  by (simp add: purge_expired_def hm_get_update_all Let_def split: option.splits)

lemma purge_expired_length: "length (purge_expired cfg g now) \<le> length g"
  by (induction g) (auto simp: purge_expired_def Let_def split: option.splits)

lemma hm_ok_purge: "hm_ok g \<Longrightarrow> hm_ok (purge_expired cfg g now)"
  by (simp add: purge_expired_def Let_def)

lemma purge_expired_ok: "rl_ok cap g \<Longrightarrow> rl_ok cap (purge_expired cfg g now)"
  using purge_expired_length [of cfg g now]
  by (auto simp: rl_ok_def purge_expired_get hm_ok_purge intro: le_trans [OF length_filter_le]
      split: option.splits if_splits)

lemma evictD:
  assumes "evict_oldest_eligible_client cfg g now fresh = (ev, g')" and "hm_ok g"
  shows "ev \<Longrightarrow> \<exists>k b. hm_get g k = Some b \<and> g' = hm_remove k g \<and>
           active_count (rl_window cfg) (bk_entries b) now < bk_max_requests b"
    and "\<not> ev \<Longrightarrow> g' = g \<and>
           (\<forall>k b. hm_get g k = Some b \<longrightarrow> bk_max_requests b \<le> active_count (rl_window cfg) (bk_entries b) now)"
proof -
  let ?elig = "filter (\<lambda>(_, b). active_count (rl_window cfg) (bk_entries b) now < bk_max_requests b) g"
  let ?key = "\<lambda>(_, b). last_or fresh (bk_entries b)"
  assume ev
  then obtain k b where "min_by_key ?key ?elig = Some (k, b)" and g': "g' = hm_remove k g"
    using assms(1) by (auto simp: evict_oldest_eligible_client_def split: option.splits prod.splits)
  then have "(k, b) \<in> set ?elig" by (intro min_by_key_mem)
  with assms(2) g' show "\<exists>k b. hm_get g k = Some b \<and> g' = hm_remove k g \<and>
      active_count (rl_window cfg) (bk_entries b) now < bk_max_requests b"
    by (intro exI [of _ k] exI [of _ b]) simp
next
  let ?elig = "filter (\<lambda>(_, b). active_count (rl_window cfg) (bk_entries b) now < bk_max_requests b) g"
  assume "\<not> ev"
  then have g': "g' = g" and none: "?elig = []"
    using assms(1) by (auto simp: evict_oldest_eligible_client_def split: option.splits prod.splits)
  have "bk_max_requests b \<le> active_count (rl_window cfg) (bk_entries b) now"
    if "hm_get g k = Some b" for k b
  proof -
    have "(k, b) \<in> set g" using that by (rule map_of_SomeD)
    with none show ?thesis by (auto simp: filter_empty_conv not_less)
  qed
  with g' show "g' = g \<and> (\<forall>k b. hm_get g k = Some b \<longrightarrow>
      bk_max_requests b \<le> active_count (rl_window cfg) (bk_entries b) now)"
    by blast
qed

section \<open>Throttled clients\<close>

text \<open>The client \<open>l\<close> has used up its budget, as seen at the time \<open>later\<close>.\<close>

definition rl_throttled :: "http_rate_limit_config \<Rightarrow> bucket_map \<Rightarrow> string \<Rightarrow> instant \<Rightarrow> bool" where
  "rl_throttled cfg g l later =
     (case hm_get g l of
        None \<Rightarrow> False
      | Some b \<Rightarrow> bk_max_requests b \<le> active_count (rl_window cfg) (bk_entries b) later)"

lemma throttledE:
  assumes "rl_throttled cfg g l later"
  obtains b where "hm_get g l = Some b"
    and "bk_max_requests b \<le> active_count (rl_window cfg) (bk_entries b) later"
  using assms by (auto simp: rl_throttled_def split: option.splits)

lemma active_count_pos: "0 < active_count w ts now \<longleftrightarrow> filter (in_window w now) ts \<noteq> []"
  by (simp add: active_count_def)

lemma purge_keeps_throttled:
  assumes ok: "rl_ok cap g" and t: "now \<le> later" and thr: "rl_throttled cfg g l later"
  shows "rl_throttled cfg (purge_expired cfg g now) l later"
proof -
  from thr obtain b where b: "hm_get g l = Some b"
    and full: "bk_max_requests b \<le> active_count (rl_window cfg) (bk_entries b) later"
    by (rule throttledE)
  have "0 < active_count (rl_window cfg) (bk_entries b) now"
    using full rl_okD(3,6) [OF ok b] active_count_antimono [OF t] by (metis leD le_less_trans not_gr_zero)
  then show ?thesis
    using b full t rl_okD(1) [OF ok]
    by (simp add: rl_throttled_def purge_expired_get active_count_pos active_count_later_purged)
qed

lemma evict_keeps_throttled:
  assumes ev: "evict_oldest_eligible_client cfg g now fresh = (ev, g')"
    and ok: "hm_ok g" and t: "now \<le> later" and thr: "rl_throttled cfg g l later"
  shows "rl_throttled cfg g' l later"
proof (cases ev)
  case True
  with evictD(1) [OF ev ok] obtain k b where k: "hm_get g k = Some b" and g': "g' = hm_remove k g"
    and free: "active_count (rl_window cfg) (bk_entries b) now < bk_max_requests b"
    by blast
  have "l \<noteq> k"
    using thr k free active_count_antimono [OF t, of "rl_window cfg" "bk_entries b"]
    by (auto simp: rl_throttled_def)
  with g' thr show ?thesis by (simp add: rl_throttled_def)
next
  case False
  with evictD(2) [OF ev ok] thr show ?thesis by simp
qed

lemma evict_ok:
  assumes ev: "evict_oldest_eligible_client cfg g now fresh = (ev, g')" and ok: "rl_ok cap g"
  shows "rl_ok cap g' \<and> (ev \<longrightarrow> length g' < MAX_TRACKED_KEYS) \<and> dom (hm_get g') \<subseteq> dom (hm_get g)"
proof (cases ev)
  case True
  with evictD(1) [OF ev rl_okD(1) [OF ok]] obtain k b where k: "hm_get g k = Some b"
    and g': "g' = hm_remove k g" by blast
  have "length g' < length g"
    using length_hm_remove [of g k] k g' by simp
  with ok g' show ?thesis by (auto simp: rl_ok_def split: if_splits)
next
  case False
  with evictD(2) [OF ev rl_okD(1) [OF ok]] ok show ?thesis by simp
qed

lemma insert_fresh_ok:
  assumes "rl_ok cap g" "length g < MAX_TRACKED_KEYS" "0 < cap k"
  shows "rl_ok cap (hm_insert k \<lparr>bk_entries = [now], bk_max_requests = cap k\<rparr> g)"
  using assms by (auto simp: rl_ok_def length_hm_insert split: if_splits)

lemma purge_dom: "hm_ok g \<Longrightarrow> dom (hm_get (purge_expired cfg g now)) \<subseteq> dom (hm_get g)"
  by (auto simp: purge_expired_get split: option.splits)

lemma check_insert_ok:
  assumes ok: "rl_ok cap g" and "0 < cap k"
  shows "rl_ok cap (snd (check_insert cfg g k (cap k) now fresh))"
proof -
  obtain ev g2 where ev: "evict_oldest_eligible_client cfg (purge_expired cfg g now) now fresh = (ev, g2)"
    by fastforce
  show ?thesis
    using evict_ok [OF ev purge_expired_ok [OF ok]] purge_expired_ok [OF ok] assms
    by (auto simp: check_insert_def ev Let_def not_le intro: insert_fresh_ok)
qed

lemma check_insert_keeps_throttled:
  assumes ok: "rl_ok cap g" and t: "now \<le> later" and thr: "rl_throttled cfg g l later"
    and k: "hm_get g k = None"
  shows "rl_throttled cfg (snd (check_insert cfg g k mx now fresh)) l later"
proof -
  obtain ev g2 where ev: "evict_oldest_eligible_client cfg (purge_expired cfg g now) now fresh = (ev, g2)"
    by fastforce
  note purged = purge_keeps_throttled [OF ok t thr]
  note evicted = evict_keeps_throttled [OF ev hm_ok_purge [OF rl_okD(1) [OF ok]] t purged]
  have "l \<noteq> k" using thr k by (auto simp: rl_throttled_def)
  then have ins: "rl_throttled cfg (hm_insert k b g') l later" if "rl_throttled cfg g' l later" for g' b
    using that by (simp add: rl_throttled_def)
  show ?thesis
    using ins [OF thr] ins [OF purged] ins [OF evicted] evicted
    by (simp add: check_insert_def ev Let_def)
qed

section \<open>One admission check\<close>

lemma rl_ok_update:
  assumes "rl_ok cap g" "hm_get g k = Some b" "ts \<noteq> []" "length ts \<le> cap k"
  shows "rl_ok cap (hm_insert k (b\<lparr>bk_entries := ts\<rparr>) g)"
  using assms by (auto simp: rl_ok_def length_hm_insert)

lemma rl_ok_remove: "rl_ok cap g \<Longrightarrow> rl_ok cap (hm_remove k g)"
  using length_delete_le [of k g] by (auto simp: rl_ok_def split: if_splits)

lemma delete_update_same [simp]: "hm_remove k (hm_insert k v g) = hm_remove k g"
  by (induction g) auto

lemma check_ok:
  assumes ok: "rl_ok cap g" and k: "0 < cap k"
  shows "rl_ok cap (snd (check cfg g k (cap k) now fresh))"
proof (cases "hm_get g k")
  case None
  with assms show ?thesis by (simp add: check_def check_insert_ok)
next
  case (Some b)
  let ?act = "filter (in_window (rl_window cfg) now) (bk_entries b)"
  have "length ?act \<le> cap k"
    using rl_okD(5) [OF ok Some] by (meson le_trans length_filter_le)
  moreover have "?act \<noteq> []" if "cap k \<le> length ?act" using that k by auto
  ultimately show ?thesis
    using Some assms
    by (auto simp: check_def Let_def intro!: rl_ok_update check_insert_ok rl_ok_remove)
qed

lemma check_keeps_throttled:
  assumes ok: "rl_ok cap g" and t: "now \<le> later" and thr: "rl_throttled cfg g l later"
  shows "rl_throttled cfg (snd (check cfg g k (cap k) now fresh)) l later"
proof (cases "hm_get g k")
  case None
  with assms show ?thesis by (simp add: check_def check_insert_keeps_throttled)
next
  case (Some b)
  let ?act = "filter (in_window (rl_window cfg) now) (bk_entries b)"
  show ?thesis
  proof (cases "l = k")
    case True
    have "cap k \<le> length ?act"
      using thr Some True rl_okD(3) [OF ok Some] active_count_antimono [OF t, of "rl_window cfg" "bk_entries b"]
      by (simp add: rl_throttled_def length_filter_active)
    with thr Some True t show ?thesis
      by (simp add: check_def Let_def rl_throttled_def active_count_later_purged)
  next
    case False
    then have rem: "rl_throttled cfg (hm_remove k g) l later" using thr by (simp add: rl_throttled_def)
    have "rl_throttled cfg (hm_insert k b' g) l later" for b'
      using thr False by (simp add: rl_throttled_def)
    with Some thr check_insert_keeps_throttled [OF rl_ok_remove [OF ok] t rem, of k] show ?thesis
      by (simp add: check_def Let_def)
  qed
qed

interpretation rl: window_tracker
  "\<lambda>g k now. snd (check cfg g k (cap k) now (fresh now))" "rl_throttled cfg" "rl_ok cap" "\<lambda>k. 0 < cap k"
  for cfg cap fresh
  by unfold_locales (auto intro: check_ok check_keeps_throttled)

section \<open>Traffic\<close>

text \<open>
  A run of the limiter over the requests \<open>(key, now)\<close>; the result pairs the admitted requests, in
  order, with the final map.
\<close>

fun rl_run ::
    "http_rate_limit_config \<Rightarrow> (string \<Rightarrow> nat) \<Rightarrow> (instant \<Rightarrow> instant) \<Rightarrow> bucket_map \<Rightarrow>
     (string \<times> instant) list \<Rightarrow> (string \<times> instant) list \<times> bucket_map" where
  "rl_run cfg cap fresh g [] = ([], g)"
| "rl_run cfg cap fresh g ((k, now) # rs) =
     (let (admitted, g') = check cfg g k (cap k) now (fresh now);
          (log, g'') = rl_run cfg cap fresh g' rs
      in (if admitted then (k, now) # log else log, g''))"

lemma rl_run_touch_all: "snd (rl_run cfg cap fresh g rs) = rl.touch_all cfg cap fresh g rs"
  by (induction rs arbitrary: g) (auto simp: Let_def case_prod_unfold)

definition times_of :: "string \<Rightarrow> (string \<times> instant) list \<Rightarrow> instant list" where
  "times_of k rs = map snd (filter (\<lambda>r. fst r = k) rs)"

text \<open>While the map has room the check is exactly the sliding window.\<close>

lemma check_roomy:
  fixes cfg :: http_rate_limit_config and now :: instant
  assumes ok: "rl_ok cap g" and k: "0 < cap k" and room: "hm_get g k = None \<Longrightarrow> length g < MAX_TRACKED_KEYS"
  defines "act \<equiv> filter (in_window (rl_window cfg) now) (entries_of g k)"
  shows "fst (check cfg g k (cap k) now fresh) = (length act < cap k)"
    and "entries_of (snd (check cfg g k (cap k) now fresh)) =
           (entries_of g)(k := act @ (if length act < cap k then [now] else []))"
    and "dom (hm_get (snd (check cfg g k (cap k) now fresh))) = insert k (dom (hm_get g))"
proof -
  let ?ins = "\<lambda>g. hm_insert k \<lparr>bk_entries = [now], bk_max_requests = cap k\<rparr> g"
  have none: "check_insert cfg g k (cap k) now fresh = (True, ?ins g)"
    if "hm_get g k = None" using room [OF that] by (simp add: check_insert_def)
  have some: "check_insert cfg (hm_remove k g) k (cap k) now fresh = (True, ?ins (hm_remove k g))"
    if "hm_get g k = Some b" for b
    using length_hm_remove [of g k] that rl_okD(1,2) [OF ok] by (simp add: check_insert_def)
  show "fst (check cfg g k (cap k) now fresh) = (length act < cap k)"
    using k none some by (auto simp: check_def entries_of_def act_def Let_def split: option.splits)
  show "entries_of (snd (check cfg g k (cap k) now fresh)) =
      (entries_of g)(k := act @ (if length act < cap k then [now] else []))"
    using k none some
    by (auto simp: check_def entries_of_def act_def Let_def fun_eq_iff split: option.splits)
  show "dom (hm_get (snd (check cfg g k (cap k) now fresh))) = insert k (dom (hm_get g))"
    using k none some by (auto simp: check_def Let_def split: option.splits if_splits)
qed

text \<open>\<open>tracks\<close>: from the time \<open>T\<close> on, the map holds every admission (\<open>h\<close>) a window can still see.\<close>

definition tracks ::
    "duration \<Rightarrow> instant \<Rightarrow> (string \<Rightarrow> instant list) \<Rightarrow> bucket_map \<Rightarrow> bool" where
  "tracks w T h g \<longleftrightarrow> (\<forall>k t. T \<le> t \<longrightarrow>
     filter (in_window w t) (h k) = filter (in_window w t) (entries_of g k))"

definition in_span :: "duration \<Rightarrow> instant \<Rightarrow> instant \<Rightarrow> bool" where
  "in_span w a t \<longleftrightarrow> a \<le> t \<and> t < a + w"

lemma tracks_step:
  assumes tr: "tracks w T h g" and T: "T \<le> now"
    and ent: "entries_of g' = (entries_of g)(k := filter (in_window w now) (entries_of g k) @ new)"
  shows "tracks w now (h(k := h k @ new)) g'"
  using tr T filter_in_window_later [of now _ w "entries_of g k"]
  by (auto simp: tracks_def ent simp del: filter_filter)

lemma span_step:
  assumes tr: "tracks w T h g" and T: "T \<le> now"
    and old: "\<And>a. length (filter (in_span w a) (h k)) \<le> c"
    and free: "length (filter (in_window w now) (entries_of g k)) < c"
  shows "length (filter (in_span w a) (h k @ [now])) \<le> c"
proof (cases "in_span w a now")
  case True
  then have "filter (in_span w a) (h k) = filter (in_span w a) (filter (in_window w now) (h k))"
    by (auto simp: in_span_def in_window_iff intro!: filter_cong)
  then have "length (filter (in_span w a) (h k)) \<le> length (filter (in_window w now) (h k))"
    by (metis length_filter_le)
  with tr T free have "length (filter (in_span w a) (h k)) < c" by (simp add: tracks_def)
  with True show ?thesis by simp
qed (use old in simp)

lemma length_less_card:
  assumes "hm_ok g" "dom (hm_get g) \<subseteq> K" "finite K" "k \<in> K" "hm_get g k = None"
  shows "length g < card K"
proof -
  have "dom (hm_get g) \<subset> K" using assms by auto
  then have "card (dom (hm_get g)) < card K" by (simp add: assms psubset_card_mono)
  moreover have "card (dom (hm_get g)) = length g"
    using assms(1) by (simp add: dom_map_of_conv_image_fst distinct_card [of "map fst g", simplified])
  ultimately show ?thesis by simp
qed

lemma rl_run_window:
  assumes "rl_ok cap g" "tracks (rl_window cfg) T h g" "sorted (T # map snd rs)"
    and "\<And>k a. length (filter (in_span (rl_window cfg) a) (h k)) \<le> cap k"
    and "finite K" "card K \<le> MAX_TRACKED_KEYS" "dom (hm_get g) \<subseteq> K" "fst ` set rs \<subseteq> K"
    and "\<forall>k\<in>K. 0 < cap k"
  shows "length (filter (in_span (rl_window cfg) a)
           (h k @ times_of k (fst (rl_run cfg cap fresh g rs)))) \<le> cap k"
  using assms
proof (induction rs arbitrary: T h g)
  case (Cons r rs)
  obtain key now where r: "r = (key, now)" by (cases r)
  let ?w = "rl_window cfg"
  let ?act = "filter (in_window ?w now) (entries_of g key)"
  let ?new = "if length ?act < cap key then [now] else []"
  let ?h = "h(key := h key @ ?new)"
  obtain adm g' where chk: "check cfg g key (cap key) now (fresh now) = (adm, g')" by fastforce
  have key: "key \<in> K" "0 < cap key" "T \<le> now" "sorted (now # map snd rs)" "fst ` set rs \<subseteq> K"
    using Cons.prems r by auto
  have "hm_get g key = None \<Longrightarrow> length g < MAX_TRACKED_KEYS"
    using length_less_card [of g K key] Cons.prems key rl_okD(1) by fastforce
  note roomy = check_roomy [OF Cons.prems(1) key(2) this, of cfg now "fresh now", unfolded chk, simplified]
  have "length (filter (in_span ?w a) (?h k @ times_of k (fst (rl_run cfg cap fresh g' rs)))) \<le> cap k"
  proof (rule Cons.IH)
    show "rl_ok cap g'" using check_ok [OF Cons.prems(1) key(2)] chk by (metis snd_conv)
    show "tracks ?w now ?h g'" by (rule tracks_step [OF Cons.prems(2) key(3) roomy(2)])
    show "length (filter (in_span ?w a) (?h k)) \<le> cap k" for k a
      using span_step [OF Cons.prems(2) key(3) Cons.prems(4), of key] Cons.prems(4) by auto
    show "dom (hm_get g') \<subseteq> K" using roomy(3) Cons.prems(7) key(1) by simp
  qed (use Cons.prems key in auto)
  then show ?case
    using roomy(1) by (auto simp: r chk times_of_def Let_def split: prod.splits if_splits)
qed (simp add: times_of_def)

section \<open>Constant-time comparison\<close>

lemma ct_str_eq_iff:
  "ct_str_eq a b \<longleftrightarrow> length a mod 256 = length b mod 256 \<and>
     (let n = max (length a) (length b)
      in zero_padded n (str_bytes a) = zero_padded n (str_bytes b))"
  using zero_padded_eq_iff [of "str_bytes a" "str_bytes b"]
  by (auto simp: ct_str_eq_def Let_def foldl_or_zero xor_zero_iff of_nat_xor_eq u8_of_nat_eq)

lemma last_zero_byte:
  assumes "str_bytes a = c @ replicate n 0" "0 < n"
  shows "last a = CHR 0x00" and "a \<noteq> []"
proof -
  have "last (str_bytes a) = 0" using assms by (cases n) (auto simp: replicate_append_same [symmetric])
  moreover show "a \<noteq> []" using assms by (auto simp: str_bytes_def)
  ultimately have "(of_nat (of_char (last a)) :: u8) = of_nat (of_char (CHR 0x00))"
    by (simp add: str_bytes_def last_map)
  then show "last a = CHR 0x00" by (simp only: of_char_u8_inj)
qed

lemma ct_str_eq_sound:
  assumes "ct_str_eq a b" "CHR 0x00 \<notin> set a" "b = [] \<or> last b \<noteq> CHR 0x00"
  shows "a = b"
proof -
  have eq: "str_bytes a @ replicate (length b - length a) 0 = str_bytes b @ replicate (length a - length b) 0"
    using assms(1) by (auto simp: ct_str_eq_iff zero_padded_def Let_def max_def split: if_splits)
  have "\<not> 0 < length a - length b"
    using last_zero_byte [of a "str_bytes b" "length a - length b"] eq assms(2)
    by (metis append.right_neutral diff_is_0_eq last_in_set nat_le_linear not_less replicate_0 diff_diff_cancel zero_less_diff less_imp_le)
  moreover have "\<not> 0 < length b - length a"
    using last_zero_byte [of b "str_bytes a" "length b - length a"] eq assms(3) by auto
  ultimately show ?thesis using eq by (simp add: str_bytes_inj)
qed

lemma ct_str_eq_refl: "ct_str_eq a a"
  by (simp add: ct_str_eq_iff)

lemma set_trim_subset: "set (trim s) \<subseteq> set s"
  by (auto simp: trim_def dest!: set_dropWhileD)

section \<open>Client address\<close>

lemma split_comma_nonempty [simp]: "split_comma s \<noteq> []"
  by (cases s) (auto split: list.splits)

lemma split_comma_append:
  "CHR '','' \<notin> set hop \<Longrightarrow> split_comma (pre @ '','' @ hop) = split_comma pre @ split_comma hop"
proof (induction pre)
  case (Cons c pre)
  then show ?case by (cases "split_comma pre") auto
qed simp

lemma find_append: "List.find p (xs @ ys) = (case List.find p xs of None \<Rightarrow> List.find p ys | Some x \<Rightarrow> Some x)"
  by (induction xs) auto

lemma split_comma_single: "CHR '','' \<notin> set hop \<Longrightarrow> split_comma hop = [hop]"
  by (induction hop) auto

lemma rightmost_hop_append:
  "CHR '','' \<notin> set hop \<Longrightarrow> trim hop \<noteq> [] \<Longrightarrow>
   rightmost_hop (pre @ '','' @ hop) = Some (trim hop)"
  by (subst rightmost_hop_def, subst split_comma_append) (simp_all add: split_comma_single)

section \<open>Properties\<close>



text \<open>
  C9. Throttling cannot be lifted by traffic. Once a client has used up its budget as seen at
  the time \<open>later\<close>, no sequence of requests up to \<open>later\<close>, from any number of other clients (a
  flood of new addresses included) or from the client itself, removes its bucket or frees a
  slot; and the bucket map never grows beyond 10,000 buckets.
\<close>

theorem rl_throttled_stays:
  assumes "rl_ok cap g" and "\<forall>(k, now) \<in> set rs. 0 < cap k \<and> now \<le> later"
    and "rl_throttled cfg g l later"
  shows "rl_throttled cfg (snd (rl_run cfg cap fresh g rs)) l later \<and>
         length (snd (rl_run cfg cap fresh g rs)) \<le> MAX_TRACKED_KEYS"
  using rl.touch_all_keeps_throttled [OF assms(1,2,3)]
    rl_okD(2) [OF rl.touch_all_ok [OF assms(1), of rs cfg fresh]] assms(2)
  by (auto simp: rl_run_touch_all)

theorem rl_throttled_stays_witness:
  "rl_throttled http_rate_limit_default
     (snd (rl_run http_rate_limit_default (\<lambda>_. 1) id
        [(''a'', \<lparr>bk_entries = [secs 3], bk_max_requests = 1\<rparr>)] [(''b'', secs 4), (''a'', secs 5)]))
     ''a'' (secs 9)"
  using rl_throttled_stays [of "\<lambda>_. 1" "[(''a'', \<lparr>bk_entries = [secs 3], bk_max_requests = 1\<rparr>)]"
      "[(''b'', secs 4), (''a'', secs 5)]" "secs 9" http_rate_limit_default "''a''" id]
  by (simp add: rl_ok_def MAX_TRACKED_KEYS_def rl_throttled_def active_count_def in_window_def
      checked_since_def secs_def http_rate_limit_default_def)

text \<open>
  C10. What the constant-time comparison decides. \<open>ct_str_eq\<close> compares the two strings padded with
  zero bytes, and the lengths only modulo 256: the length difference is folded into one byte. It
  is therefore not string equality (see the counterexample below the theorem).
\<close>

theorem ct_str_eq_decides:
  "ct_str_eq a b \<longleftrightarrow> length a mod 256 = length b mod 256 \<and>
     (let n = max (length a) (length b)
      in zero_padded n (str_bytes a) = zero_padded n (str_bytes b))"
  by (rule ct_str_eq_iff)

lemma ct_str_eq_confuses: "ct_str_eq [] (replicate 256 (CHR 0x00))"
  by (simp add: ct_str_eq_iff zero_padded_def str_bytes_def)

text \<open>
  C11. Sound authentication preview. With a configured token that does not end in a zero byte, a
  request counts as authenticated exactly when a token is configured and the header is
  \<open>Bearer\<close> followed by that token up to surrounding white space, provided the header text itself
  has no zero byte (header text is visible ASCII).
\<close>

theorem bearer_authenticated_iff:
  assumes "token \<noteq> []" "last token \<noteq> CHR 0x00" "CHR 0x00 \<notin> set hdr"
  shows "bearer_authenticated (Some hdr) token \<longleftrightarrow> (\<exists>tok. hdr = ''Bearer '' @ tok \<and> trim tok = token)"
proof -
  have "ct_str_eq (trim tok) token \<longleftrightarrow> trim tok = token" if "hdr = ''Bearer '' @ tok" for tok
    using ct_str_eq_sound [of "trim tok" token] ct_str_eq_refl [of token] set_trim_subset [of tok] assms that
    by auto
  then show ?thesis
    using assms(1) by (auto simp: bearer_authenticated_def strip_prefix_def prefix_def)
qed

theorem bearer_authenticated_iff_witness:
  "bearer_authenticated (Some ''Bearer  s3 '') ''s3''"
  using bearer_authenticated_iff [of "''s3''" "''Bearer  s3 ''"]
  by (simp add: trim_def is_header_space_def)

text \<open>
  C12. Client addresses cannot be forged. Behind no trusted proxy the socket address decides,
  whatever \<open>X-Forwarded-For\<close> says; behind one, only the last hop of the header counts (the entry
  the proxy itself appended), so nothing a client writes in front of it changes the outcome.
\<close>

theorem client_ip_unforgeable:
  assumes "CHR '','' \<notin> set hop" and "trim hop \<noteq> []"
  shows "resolve_client_ip parse_ip peer (Some (forged @ '','' @ hop)) trusted =
         (if \<exists>proxy \<in> set trusted. to_canonical proxy = to_canonical peer
          then case parse_ip (trim hop) of Some ip \<Rightarrow> to_canonical ip | None \<Rightarrow> to_canonical peer
          else to_canonical peer)"
  using rightmost_hop_append [OF assms, of forged]
  by (auto simp: resolve_client_ip_def Let_def list_ex_iff split: option.splits)

theorem client_ip_unforgeable_witness:
  "resolve_client_ip (\<lambda>s. if s = ''9.9.9.9'' then Some (V4 9 9 9 9) else None) (V4 10 0 0 1)
     (Some (''1.1.1.1'' @ '','' @ '' 9.9.9.9'')) [V4 10 0 0 1] = V4 9 9 9 9"
  using client_ip_unforgeable [of "'' 9.9.9.9''"
      "\<lambda>s. if s = ''9.9.9.9'' then Some (V4 9 9 9 9) else None" "V4 10 0 0 1" "''1.1.1.1''" "[V4 10 0 0 1]"]
  by (simp add: trim_def is_header_space_def)

end
