(* ===== verification/Nested_Map.thy ===== *)
theory Nested_Map
  imports Rtmp_Prelude
begin

text \<open>
  Two-level hash maps, \<open>HashMap<String, HashMap<String, V>>\<close>: application name, then stream name.
  The live queue and the hub keep their per-stream state this way so that lookups need no owned
  pair of strings.
\<close>

type_synonym ('a, 'b, 'v) nmap = "('a, ('b, 'v) hmap) hmap"

text \<open>\<open>m.get(a)?.get(b)\<close>.\<close>

definition nm_get :: "('a, 'b, 'v) nmap \<Rightarrow> 'a \<Rightarrow> 'b \<Rightarrow> 'v option" where
  "nm_get m a b = Option.bind (hm_get m a) (\<lambda>inner. hm_get inner b)"

definition nm_inner :: "('a, 'b, 'v) nmap \<Rightarrow> 'a \<Rightarrow> ('b, 'v) hmap" where
  "nm_inner m a = (case hm_get m a of None \<Rightarrow> [] | Some inner \<Rightarrow> inner)"

definition nm_put :: "'a \<Rightarrow> 'b \<Rightarrow> 'v \<Rightarrow> ('a, 'b, 'v) nmap \<Rightarrow> ('a, 'b, 'v) nmap" where
  "nm_put a b v m = hm_insert a (hm_insert b v (nm_inner m a)) m"

text \<open>\<open>m.get_mut(a).and_then(|i| i.get_mut(b))\<close> with an in-place change of the value.\<close>

definition nm_modify :: "'a \<Rightarrow> 'b \<Rightarrow> ('v \<Rightarrow> 'v) \<Rightarrow> ('a, 'b, 'v) nmap \<Rightarrow> ('a, 'b, 'v) nmap" where
  "nm_modify a b f m = (case nm_get m a b of None \<Rightarrow> m | Some v \<Rightarrow> nm_put a b (f v) m)"

text \<open>Remove the value at \<open>(a, b)\<close> if \<open>p\<close> holds of it, then the inner map at \<open>a\<close> if it is empty.\<close>

definition nm_prune :: "('v \<Rightarrow> bool) \<Rightarrow> 'a \<Rightarrow> 'b \<Rightarrow> ('a, 'b, 'v) nmap \<Rightarrow> ('a, 'b, 'v) nmap" where
  "nm_prune p a b m =
     (case hm_get m a of
        None \<Rightarrow> m
      | Some inner \<Rightarrow>
          (let inner' = (case hm_get inner b of
                           Some v \<Rightarrow> if p v then hm_remove b inner else inner
                         | None \<Rightarrow> inner)
           in if inner' = [] then hm_remove a m else hm_insert a inner' m))"

text \<open>All values with their keys, in iteration order.\<close>

definition nm_iter :: "('a, 'b, 'v) nmap \<Rightarrow> ('a \<times> 'b \<times> 'v) list" where
  "nm_iter m = concat (map (\<lambda>(a, inner). map (\<lambda>(b, v). (a, b, v)) inner) m)"

definition nm_ok :: "('a, 'b, 'v) nmap \<Rightarrow> bool" where
  "nm_ok m \<longleftrightarrow> hm_ok m \<and> (\<forall>inner \<in> snd ` set m. hm_ok inner)"

lemma nm_ok_Nil [simp]: "nm_ok []"
  by (simp add: nm_ok_def)

lemma nm_get_Nil [simp]: "nm_get [] a b = None"
  by (simp add: nm_get_def)

lemma nm_okD: "nm_ok m \<Longrightarrow> hm_ok m" "nm_ok m \<Longrightarrow> hm_get m a = Some i \<Longrightarrow> hm_ok i"
  by (auto simp: nm_ok_def dest!: map_of_SomeD)

lemma nm_ok_inner [simp]: "nm_ok m \<Longrightarrow> hm_ok (nm_inner m a)"
  by (auto simp: nm_inner_def dest: nm_okD split: option.splits)

lemma snd_set_update: "snd ` set (hm_insert k v m) \<subseteq> insert v (snd ` set m)"
  by (induction m) auto

lemma nm_ok_insert: "nm_ok m \<Longrightarrow> hm_ok i \<Longrightarrow> nm_ok (hm_insert a i m)"
  using snd_set_update [of a i m] hm_ok_insert [of m a i] unfolding nm_ok_def by blast

lemma set_hm_remove_subset: "set (hm_remove k m) \<subseteq> set m"
  by (simp add: AList.delete_eq)

lemma nm_ok_delete: "nm_ok m \<Longrightarrow> nm_ok (hm_remove a m)"
  using set_hm_remove_subset [of a m] by (auto simp: nm_ok_def)

lemma nm_ok_put [simp]: "nm_ok m \<Longrightarrow> nm_ok (nm_put a b v m)"
  by (simp add: nm_put_def nm_ok_insert)

lemma nm_ok_modify [simp]: "nm_ok m \<Longrightarrow> nm_ok (nm_modify a b f m)"
  by (simp add: nm_modify_def split: option.splits)

lemma nm_ok_prune [simp]: "nm_ok m \<Longrightarrow> nm_ok (nm_prune p a b m)"
  by (auto simp: nm_prune_def Let_def intro!: nm_ok_insert nm_ok_delete dest: nm_okD split: option.splits)

lemma nm_get_put [simp]:
  "nm_get (nm_put a b v m) a' b' = (if a' = a \<and> b' = b then Some v else nm_get m a' b')"
  by (auto simp: nm_get_def nm_put_def nm_inner_def split: option.splits)

lemma nm_get_modify [simp]:
  "nm_get (nm_modify a b f m) a' b' =
     (if a' = a \<and> b' = b then map_option f (nm_get m a b) else nm_get m a' b')"
  by (auto simp: nm_modify_def split: option.splits)

lemma nm_get_prune [simp]:
  "nm_get (nm_prune p a b m) a' b' =
     (if a' = a \<and> b' = b
      then (case nm_get m a b of Some v \<Rightarrow> if p v then None else Some v | None \<Rightarrow> None)
      else nm_get m a' b')"
proof (cases "hm_get m a")
  case None
  then show ?thesis by (simp add: nm_prune_def nm_get_def)
next
  case (Some i)
  let ?i = "case hm_get i b of Some v \<Rightarrow> if p v then hm_remove b i else i | None \<Rightarrow> i"
  have i': "hm_get ?i c = (if c = b then (case hm_get i b of Some v \<Rightarrow> if p v then None else Some v | None \<Rightarrow> None)
      else hm_get i c)" for c
    by (simp split: option.splits)
  have "nm_get (nm_prune p a b m) a' b' = (if a' = a then hm_get ?i b' else nm_get m a' b')"
    using Some by (simp add: nm_prune_def nm_get_def Let_def hm_empty_iff [of ?i])
  then show ?thesis
    unfolding i' by (simp add: nm_get_def Some)
qed

lemma nm_iter_get:
  assumes ok: "nm_ok m"
  shows "(a, b, v) \<in> set (nm_iter m) \<longleftrightarrow> nm_get m a b = Some v"
proof -
  have inner: "(b, v) \<in> set i \<longleftrightarrow> hm_get i b = Some v" if "(a, i) \<in> set m" for i
    using ok that by (intro map_of_eq_Some_iff [symmetric]) (auto simp: nm_ok_def)
  have outer: "(a, i) \<in> set m \<longleftrightarrow> hm_get m a = Some i" for i
    using ok by (intro map_of_eq_Some_iff [symmetric]) (simp add: nm_ok_def)
  have "(a, b, v) \<in> set (nm_iter m) \<longleftrightarrow> (\<exists>i. (a, i) \<in> set m \<and> (b, v) \<in> set i)"
    by (force simp: nm_iter_def)
  also have "\<dots> \<longleftrightarrow> (\<exists>i. hm_get m a = Some i \<and> hm_get i b = Some v)"
    using inner outer by blast
  finally show ?thesis by (simp add: nm_get_def bind_eq_Some_conv)
qed

end
