(* ===== verification/Live_Queue.thy ===== *)
theory Live_Queue
  imports Protocol Nested_Map
begin

text \<open>
  The outbound queue of a cluster media connection (\<open>src/src/cluster/media/live_queue.rs\<close>).

  Every public operation runs under the mutex of the queue, so each is one step on the state
  \<open>live_media_queue\<close>. The clock reading is an argument, as in \<open>push_at\<close> and \<open>pop_at\<close>. Counters
  are 64-bit atomics and wrap; sizes and counts of what is queued are \<^typ>\<open>nat\<close>. The wake-up of a
  waiting writer (\<open>notify\<close>) has no state here: the asynchronous \<open>pop\<close> repeats \<open>pop_at\<close>.
\<close>

section \<open>Configuration\<close>

definition DEFAULT_MAX_MEDIA_AGE :: duration where
  "DEFAULT_MAX_MEDIA_AGE = millis 3000"

definition DEFAULT_RESYNC_WAIT_MAX :: duration where
  "DEFAULT_RESYNC_WAIT_MAX = secs 10"

definition DEFAULT_MAX_MESSAGES :: nat where
  "DEFAULT_MAX_MESSAGES = 1024"

record live_queue_config =
  max_messages :: nat
  max_bytes :: nat
  max_media_age :: duration
  resync_wait_max :: duration

definition live_queue_config_new :: "u32 \<Rightarrow> u32 \<Rightarrow> live_queue_config" where
  "live_queue_config_new max_queue_mb max_media_age_ms =
     \<lparr>max_messages = DEFAULT_MAX_MESSAGES,
      max_bytes = max (usize_saturating_mul (unat max_queue_mb) (1024 * 1024)) (1024 * 1024),
      max_media_age = (if max_media_age_ms = 0 then DEFAULT_MAX_MEDIA_AGE
                       else millis (unat max_media_age_ms)),
      resync_wait_max = DEFAULT_RESYNC_WAIT_MAX\<rparr>"

definition live_queue_config_from :: "u32 \<Rightarrow> live_queue_config" where
  "live_queue_config_from max_queue_mb = live_queue_config_new max_queue_mb 0"

section \<open>Entries and per-stream state\<close>

definition opt_len :: "bytes option \<Rightarrow> nat" where
  "opt_len v = (case v of None \<Rightarrow> 0 | Some b \<Rightarrow> length b)"

fun approx_size :: "media_message \<Rightarrow> nat" where
  "approx_size (MediaFrame _ _ _ _ _ _ _ payload) = length payload + 64"
| "approx_size (InitCache _ _ _ metadata avc_header aac_header keyframe) =
     opt_len metadata + opt_len avc_header + opt_len aac_header + opt_len (map_option snd keyframe) + 64"
| "approx_size _ = 128"

datatype drop_cause = Oversized | AwaitingResync | Full | Closed

datatype push_result = Queued | Dropped drop_cause

fun is_queued :: "push_result \<Rightarrow> bool" where
  "is_queued Queued = True"
| "is_queued (Dropped _) = False"

record live_queue_stats =
  dropped_total :: u64
  dropped_droppable :: u64
  dropped_stale :: u64
  dropped_critical :: u64
  oversized_dropped :: u64
  resync_count :: u64
  resync_timeouts :: u64
  max_bytes_seen :: u64
  max_messages_seen :: u64
  max_age_ms_seen :: u64

datatype kind = Control | Media delivery_hint

fun kind_of :: "media_message \<Rightarrow> kind" where
  "kind_of (MediaFrame _ _ _ _ _ _ hint _) = Media hint"
| "kind_of _ = Control"

fun evictable :: "kind \<Rightarrow> bool" where
  "evictable (Media h) \<longleftrightarrow> h \<noteq> Critical"
| "evictable Control \<longleftrightarrow> False"

record entry =
  e_msg :: media_message
  e_size :: nat
  e_at :: instant
  e_kind :: kind

text \<open>The names of a media frame; control messages are not accounted to a stream.\<close>

fun frame_names :: "media_message \<Rightarrow> (string \<times> string) option" where
  "frame_names (MediaFrame app stream _ _ _ _ _ _) = Some (app, stream)"
| "frame_names _ = None"

definition entry_names :: "entry \<Rightarrow> (string \<times> string) option" where
  "entry_names e = frame_names (e_msg e)"

record stream_state =
  awaiting_since :: "instant option"
  evictable_bytes :: nat
  queued_frames :: nat
  needs_reinit :: bool

definition stream_state_default :: stream_state where
  "stream_state_default =
     \<lparr>awaiting_since = None, evictable_bytes = 0, queued_frames = 0, needs_reinit = False\<rparr>"

definition idle :: "stream_state \<Rightarrow> bool" where
  "idle st \<longleftrightarrow> awaiting_since st = None \<and> queued_frames st = 0 \<and> \<not> needs_reinit st"

datatype reason = Stale | Pressure

record inner =
  entries :: "entry list"
  bytes_queued :: nat
  streams :: "(string, string, stream_state) nmap"
  closed :: bool
  reinit_dirty :: bool

section \<open>Operations under the lock\<close>

text \<open>\<open>state_mut\<close>: the state of the stream, created on demand, changed by \<open>f\<close>.\<close>

definition state_mut :: "string \<Rightarrow> string \<Rightarrow> (stream_state \<Rightarrow> stream_state) \<Rightarrow> inner \<Rightarrow> inner" where
  "state_mut app stream f g =
     (let st = (case nm_get (streams g) app stream of None \<Rightarrow> stream_state_default | Some st \<Rightarrow> st)
      in g\<lparr>streams := nm_put app stream (f st) (streams g)\<rparr>)"

definition state :: "inner \<Rightarrow> string \<Rightarrow> string \<Rightarrow> stream_state option" where
  "state g app stream = nm_get (streams g) app stream"

text \<open>\<open>streams.get_mut(app).and_then(|m| m.get_mut(stream))\<close>: changed by \<open>f\<close> if it exists.\<close>

definition with_state :: "string \<Rightarrow> string \<Rightarrow> (stream_state \<Rightarrow> stream_state) \<Rightarrow> inner \<Rightarrow> inner" where
  "with_state app stream f g = g\<lparr>streams := nm_modify app stream f (streams g)\<rparr>"

definition prune_idle :: "string \<Rightarrow> string \<Rightarrow> inner \<Rightarrow> inner" where
  "prune_idle app stream g = g\<lparr>streams := nm_prune idle app stream (streams g)\<rparr>"

definition is_awaiting :: "inner \<Rightarrow> string \<Rightarrow> string \<Rightarrow> bool" where
  "is_awaiting g app stream =
     (case state g app stream of None \<Rightarrow> False | Some st \<Rightarrow> awaiting_since st \<noteq> None)"

text \<open>\<open>awaiting_since.get_or_insert(now)\<close>.\<close>

definition await_from :: "instant \<Rightarrow> stream_state \<Rightarrow> stream_state" where
  "await_from now st =
     st\<lparr>awaiting_since := (case awaiting_since st of None \<Rightarrow> Some now | Some t \<Rightarrow> Some t)\<rparr>"

definition clear_await :: "stream_state \<Rightarrow> stream_state" where
  "clear_await st = st\<lparr>awaiting_since := None\<rparr>"

definition account_removed :: "entry \<Rightarrow> inner \<Rightarrow> inner" where
  "account_removed e g0 =
     (let g = g0\<lparr>bytes_queued := bytes_queued g0 - e_size e\<rparr>
      in case entry_names e of
           None \<Rightarrow> g
         | Some (app, stream) \<Rightarrow>
             prune_idle app stream
               (with_state app stream
                 (\<lambda>st. let st1 = st\<lparr>queued_frames := queued_frames st - 1\<rparr>
                       in if evictable (e_kind e)
                          then st1\<lparr>evictable_bytes := evictable_bytes st1 - e_size e\<rparr> else st1) g))"

definition count_drop :: "kind \<Rightarrow> reason \<Rightarrow> live_queue_stats \<Rightarrow> live_queue_stats" where
  "count_drop entry_kind rsn s0 =
     (let s = s0\<lparr>dropped_total := dropped_total s0 + 1\<rparr>
      in if entry_kind = Media Critical then s\<lparr>dropped_critical := dropped_critical s + 1\<rparr>
         else (case rsn of
             Stale \<Rightarrow> s\<lparr>dropped_stale := dropped_stale s + 1\<rparr>
           | Pressure \<Rightarrow> s\<lparr>dropped_droppable := dropped_droppable s + 1\<rparr>))"

text \<open>The loop over the entries that were taken out of the queue.\<close>

definition account_dropped :: "reason \<Rightarrow> entry list \<Rightarrow> inner \<times> live_queue_stats \<Rightarrow> inner \<times> live_queue_stats" where
  "account_dropped rsn removed gs =
     foldl (\<lambda>(g, s) e. (account_removed e g, count_drop (e_kind e) rsn s)) gs removed"

definition hits :: "string \<Rightarrow> string \<Rightarrow> entry \<Rightarrow> bool" where
  "hits app stream e \<longleftrightarrow> evictable (e_kind e) \<and> entry_names e = Some (app, stream)"

definition purge_stream ::
    "string \<Rightarrow> string \<Rightarrow> reason \<Rightarrow> inner \<times> live_queue_stats \<Rightarrow> inner \<times> live_queue_stats" where
  "purge_stream app stream rsn gs =
     (let (g, s) = gs;
          removed = filter (hits app stream) (entries g);
          kept = filter (\<lambda>e. \<not> hits app stream e) (entries g)
      in account_dropped rsn removed (g\<lparr>entries := kept\<rparr>, s))"

text \<open>A purge after which the stream waits for its next resync point.\<close>

definition purge_and_await ::
    "string \<Rightarrow> string \<Rightarrow> reason \<Rightarrow> instant \<Rightarrow> inner \<times> live_queue_stats \<Rightarrow> inner \<times> live_queue_stats" where
  "purge_and_await app stream rsn now gs =
     (let (g, s) = purge_stream app stream rsn gs
      in (state_mut app stream (await_from now) g, s))"

text \<open>\<open>Iterator::position\<close>.\<close>

fun position :: "('a \<Rightarrow> bool) \<Rightarrow> 'a list \<Rightarrow> nat option" where
  "position p [] = None"
| "position p (x # xs) = (if p x then Some 0 else map_option Suc (position p xs))"

definition is_fresh_resync :: "string \<Rightarrow> string \<Rightarrow> instant \<Rightarrow> duration \<Rightarrow> entry \<Rightarrow> bool" where
  "is_fresh_resync app stream now max_age e \<longleftrightarrow>
     entry_names e = Some (app, stream) \<and> e_kind e = Media ResyncPoint \<and>
     saturating_since now (e_at e) \<le> max_age"

definition purge_stale_stream ::
    "string \<Rightarrow> string \<Rightarrow> instant \<Rightarrow> duration \<Rightarrow> inner \<times> live_queue_stats \<Rightarrow>
     (bool \<times> bool) \<times> inner \<times> live_queue_stats" where
  "purge_stale_stream app stream now max_age gs =
     (let (g, s) = gs;
          fresh_resync = position (is_fresh_resync app stream now max_age) (entries g);
          hit = (\<lambda>(i, e). (case fresh_resync of None \<Rightarrow> True | Some k \<Rightarrow> i < k) \<and> hits app stream e);
          removed = map snd (filter hit (List.enumerate 0 (entries g)));
          kept = map snd (filter (\<lambda>ie. \<not> hit ie) (List.enumerate 0 (entries g)));
          skipped = list_ex (\<lambda>e. e_kind e = Media Droppable) removed
      in ((fresh_resync \<noteq> None, skipped), account_dropped Stale removed (g\<lparr>entries := kept\<rparr>, s)))"

text \<open>One step of the scan for the heaviest stream.\<close>

definition heavier ::
    "(nat \<times> string \<times> string) option \<Rightarrow> string \<times> string \<times> stream_state \<Rightarrow> (nat \<times> string \<times> string) option" where
  "heavier best = (\<lambda>(app, stream, st).
     if evictable_bytes st = 0 then best
     else if (case best of
                None \<Rightarrow> True
              | Some (b, a, s) \<Rightarrow>
                  b < evictable_bytes st \<or> (evictable_bytes st = b \<and> (app, stream) < (a, s)))
     then Some (evictable_bytes st, app, stream)
     else best)"

definition heaviest_evictable :: "inner \<Rightarrow> (string \<times> string) option" where
  "heaviest_evictable g = map_option snd (foldl heavier None (nm_iter (streams g)))"

text \<open>The streams with a stale evictable frame at the head, each once, in queue order.\<close>

definition stale_streams :: "instant \<Rightarrow> duration \<Rightarrow> entry list \<Rightarrow> (string \<times> string) list" where
  "stale_streams now max_age es =
     foldl (\<lambda>stale e.
         case entry_names e of
           Some names \<Rightarrow>
             if evictable (e_kind e) \<and> names \<notin> set stale then stale @ [names] else stale
         | None \<Rightarrow> stale)
       [] (takeWhile (\<lambda>e. \<not> saturating_since now (e_at e) \<le> max_age) es)"

definition enforce_age_stream ::
    "instant \<Rightarrow> live_queue_config \<Rightarrow> string \<times> string \<Rightarrow> inner \<times> live_queue_stats \<Rightarrow>
     inner \<times> live_queue_stats" where
  "enforce_age_stream now cfg names gs =
     (let (app, stream) = names;
          ((resynced, skipped), g, s) = purge_stale_stream app stream now (max_media_age cfg) gs;
          s' = (if resynced \<and> skipped then s\<lparr>resync_count := resync_count s + 1\<rparr> else s);
          g' = (if resynced then with_state app stream clear_await g
                else state_mut app stream (await_from now) g)
      in (prune_idle app stream g', s'))"

definition enforce_age ::
    "instant \<Rightarrow> live_queue_config \<Rightarrow> inner \<times> live_queue_stats \<Rightarrow> inner \<times> live_queue_stats" where
  "enforce_age now cfg gs =
     (let es = entries (fst gs);
          head_old = (case es of [] \<Rightarrow> False
                      | e # _ \<Rightarrow> max_media_age cfg < saturating_since now (e_at e))
      in if \<not> head_old then gs
         else foldl (\<lambda>gs names. enforce_age_stream now cfg names gs) gs
                (stale_streams now (max_media_age cfg) es))"

definition has_room :: "nat \<Rightarrow> live_queue_config \<Rightarrow> inner \<Rightarrow> bool" where
  "has_room sz cfg g \<longleftrightarrow> length (entries g) < max_messages cfg \<and>
     usize_saturating_add (bytes_queued g) sz \<le> max_bytes cfg"

text \<open>Removal of the entry at \<open>idx\<close>, the oldest critical media frame.\<close>

definition evict_critical :: "nat \<Rightarrow> inner \<times> live_queue_stats \<Rightarrow> inner \<times> live_queue_stats" where
  "evict_critical idx gs =
     (let (g, s) = gs
      in if idx < length (entries g) then
           let e = entries g ! idx;
               g1 = g\<lparr>entries := take idx (entries g) @ drop (Suc idx) (entries g)\<rparr>;
               s1 = count_drop (e_kind e) Pressure s;
               g2 = (case entry_names e of
                       None \<Rightarrow> g1
                     | Some (app, stream) \<Rightarrow>
                         (state_mut app stream (\<lambda>st. st\<lparr>needs_reinit := True\<rparr>) g1)\<lparr>reinit_dirty := True\<rparr>)
           in (account_removed e g2, s1)
         else (g, s))"

text \<open>The loop of \<open>make_room\<close>; \<open>None\<close> stands for a run that does not return.\<close>

partial_function (option) make_room ::
    "nat \<Rightarrow> instant \<Rightarrow> live_queue_config \<Rightarrow> inner \<times> live_queue_stats \<Rightarrow>
     (bool \<times> inner \<times> live_queue_stats) option" where
  "make_room sz now cfg gs =
     (if has_room sz cfg (fst gs) then Some (True, gs)
      else case heaviest_evictable (fst gs) of
        Some (app, stream) \<Rightarrow>
          make_room sz now cfg (purge_and_await app stream Pressure now gs)
      | None \<Rightarrow>
          (case position (\<lambda>e. e_kind e = Media Critical) (entries (fst gs)) of
             None \<Rightarrow> Some (False, gs)
           | Some idx \<Rightarrow> make_room sz now cfg (evict_critical idx gs)))"

definition release_expired_waits ::
    "instant \<Rightarrow> live_queue_config \<Rightarrow> inner \<times> live_queue_stats \<Rightarrow> inner \<times> live_queue_stats" where
  "release_expired_waits now cfg gs =
     (let released =
            filter (\<lambda>(_, _, st). case awaiting_since st of
                       None \<Rightarrow> False
                     | Some t \<Rightarrow> resync_wait_max cfg \<le> saturating_since now t)
              (nm_iter (streams (fst gs)))
      in foldl (\<lambda>(g, s) (app, stream, _).
             (prune_idle app stream (with_state app stream clear_await g),
              s\<lparr>resync_timeouts := resync_timeouts s + 1\<rparr>))
           gs released)"

section \<open>The queue\<close>

record live_media_queue =
  lq_inner :: inner
  lq_cfg :: live_queue_config
  lq_stats :: live_queue_stats
  reinit_pending :: bool

definition live_media_queue_new :: "live_queue_config \<Rightarrow> live_media_queue" where
  "live_media_queue_new cfg =
     \<lparr>lq_inner = \<lparr>entries = [], bytes_queued = 0, streams = [], closed = False, reinit_dirty = False\<rparr>,
      lq_cfg = cfg,
      lq_stats = \<lparr>dropped_total = 0, dropped_droppable = 0, dropped_stale = 0, dropped_critical = 0,
                  oversized_dropped = 0, resync_count = 0, resync_timeouts = 0, max_bytes_seen = 0,
                  max_messages_seen = 0, max_age_ms_seen = 0\<rparr>,
      reinit_pending = False\<rparr>"

definition note_high_water :: "inner \<Rightarrow> instant \<Rightarrow> live_queue_stats \<Rightarrow> live_queue_stats" where
  "note_high_water g now s0 =
     (let s = s0\<lparr>max_bytes_seen := max (max_bytes_seen s0) (of_nat (bytes_queued g)),
                 max_messages_seen := max (max_messages_seen s0) (of_nat (length (entries g)))\<rparr>
      in case entries g of
           [] \<Rightarrow> s
         | e # _ \<Rightarrow> s\<lparr>max_age_ms_seen :=
               max (max_age_ms_seen s) (as_millis_u64 (saturating_since now (e_at e)))\<rparr>)"

text \<open>
  A media frame for a stream that waits for a resync point, before (\<open>early\<close>) and after room was
  made: \<open>None\<close> means that the frame is discarded.
\<close>

definition resync_gate ::
    "bool \<Rightarrow> media_message \<Rightarrow> inner \<times> live_queue_stats \<Rightarrow>
     (inner \<times> live_queue_stats) option \<times> inner \<times> live_queue_stats" where
  "resync_gate early msg gs =
     (case (kind_of msg, frame_names msg) of
        (Media hint, Some (app, stream)) \<Rightarrow>
          if is_awaiting (fst gs) app stream then
            (case hint of
               Droppable \<Rightarrow> (None, fst gs, count_drop (kind_of msg) Pressure (snd gs))
             | ResyncPoint \<Rightarrow>
                 (let (g, s) = (if early then purge_stream app stream Stale gs else gs);
                      gs' = (with_state app stream clear_await g, s\<lparr>resync_count := resync_count s + 1\<rparr>)
                  in (Some gs', gs'))
             | Critical \<Rightarrow> (Some gs, gs))
          else (Some gs, gs)
      | _ \<Rightarrow> (Some gs, gs))"

text \<open>The last part of \<open>push_at\<close>: book the message and append it.\<close>

definition enqueue :: "media_message \<Rightarrow> instant \<Rightarrow> inner \<Rightarrow> inner \<times> bool" where
  "enqueue msg now g =
     (let sz = approx_size msg;
          (g1, reinit) =
            (case frame_names msg of
               None \<Rightarrow> (g, False)
             | Some (app, stream) \<Rightarrow>
                 let g1 = state_mut app stream
                            (\<lambda>st. let st1 = st\<lparr>queued_frames := queued_frames st + 1\<rparr>
                                  in if evictable (kind_of msg)
                                     then st1\<lparr>evictable_bytes := evictable_bytes st1 + sz\<rparr> else st1) g
                 in (g1, case state g1 app stream of None \<Rightarrow> False | Some st \<Rightarrow> needs_reinit st))
      in (g1\<lparr>bytes_queued := bytes_queued g1 + sz,
             entries := entries g1 @ [\<lparr>e_msg = msg, e_size = sz, e_at = now, e_kind = kind_of msg\<rparr>]\<rparr>,
          reinit))"

definition push_limit :: "live_queue_config \<Rightarrow> kind \<Rightarrow> nat" where
  "push_limit cfg k = (case k of Media _ \<Rightarrow> max_bytes cfg div 2 | Control \<Rightarrow> max_bytes cfg)"

definition push_at ::
    "media_message \<Rightarrow> instant \<Rightarrow> live_media_queue \<Rightarrow> (push_result \<times> live_media_queue) option" where
  "push_at msg now q =
     (let cfg = lq_cfg q; knd = kind_of msg; sz = approx_size msg;
          put = (\<lambda>g s rp. q\<lparr>lq_inner := g, lq_stats := s, reinit_pending := rp\<rparr>)
      in if closed (lq_inner q) then Some (Dropped Closed, q)
         else if push_limit cfg knd < sz then
           Some (Dropped Oversized,
             q\<lparr>lq_stats := (lq_stats q)\<lparr>dropped_total := dropped_total (lq_stats q) + 1,
                                      oversized_dropped := oversized_dropped (lq_stats q) + 1\<rparr>\<rparr>)
         else
           let gs0 = release_expired_waits now cfg (enforce_age now cfg (lq_inner q, lq_stats q))
           in case resync_gate True msg gs0 of
                (None, g, s) \<Rightarrow> Some (Dropped AwaitingResync, put g s (reinit_pending q))
              | (Some gs1, _) \<Rightarrow>
                  (case make_room sz now cfg gs1 of
                     None \<Rightarrow> None
                   | Some (fits, g2, s2) \<Rightarrow>
                       (let rp = (reinit_pending q \<or> reinit_dirty g2);
                            g3 = g2\<lparr>reinit_dirty := False\<rparr>
                        in if \<not> fits then
                             Some (Dropped Full,
                               put g3 (case knd of Media _ \<Rightarrow> count_drop knd Pressure s2 | Control \<Rightarrow> s2) rp)
                           else case resync_gate False msg (g3, s2) of
                             (None, g, s) \<Rightarrow> Some (Dropped AwaitingResync, put g s rp)
                           | (Some (g4, s4), _) \<Rightarrow>
                               (let (g5, reinit) = enqueue msg now g4
                                in Some (Queued, put g5 (note_high_water g5 now s4) (rp \<or> reinit))))))"

definition pop_at :: "instant \<Rightarrow> live_media_queue \<Rightarrow> media_message option \<times> live_media_queue" where
  "pop_at now q =
     (if closed (lq_inner q) then (None, q)
      else
        let s0 = note_high_water (lq_inner q) now (lq_stats q);
            (g, s) = release_expired_waits now (lq_cfg q) (enforce_age now (lq_cfg q) (lq_inner q, s0))
        in case entries g of
             [] \<Rightarrow> (None, q\<lparr>lq_inner := g, lq_stats := s\<rparr>)
           | e # es \<Rightarrow>
               (Some (e_msg e), q\<lparr>lq_inner := account_removed e (g\<lparr>entries := es\<rparr>), lq_stats := s\<rparr>))"

definition close :: "live_media_queue \<Rightarrow> live_media_queue" where
  "close q = q\<lparr>lq_inner := (lq_inner q)\<lparr>closed := True, entries := [], bytes_queued := 0, streams := []\<rparr>\<rparr>"

definition on_connection_reset :: "instant \<Rightarrow> live_media_queue \<Rightarrow> live_media_queue" where
  "on_connection_reset now q =
     (let loaded = filter (\<lambda>(_, _, st). 0 < evictable_bytes st) (nm_iter (streams (lq_inner q)));
          (g, s) = foldl (\<lambda>gs (app, stream, _). purge_and_await app stream Stale now gs)
                     (lq_inner q, lq_stats q) loaded
      in q\<lparr>lq_inner := g, lq_stats := s\<rparr>)"

definition take_reinit :: "string \<Rightarrow> string \<Rightarrow> live_media_queue \<Rightarrow> bool \<times> live_media_queue" where
  "take_reinit app stream q =
     (if \<not> reinit_pending q then (False, q)
      else
        let taken = (case state (lq_inner q) app stream of None \<Rightarrow> False | Some st \<Rightarrow> needs_reinit st);
            g = with_state app stream (\<lambda>st. st\<lparr>needs_reinit := False\<rparr>) (lq_inner q);
            any = list_ex (\<lambda>(_, _, st). needs_reinit st) (nm_iter (streams g))
        in (taken, q\<lparr>lq_inner := prune_idle app stream g, reinit_pending := any\<rparr>))"

definition mark_reinit :: "string \<Rightarrow> string \<Rightarrow> live_media_queue \<Rightarrow> live_media_queue" where
  "mark_reinit app stream q =
     q\<lparr>lq_inner := state_mut app stream (\<lambda>st. st\<lparr>needs_reinit := True\<rparr>) (lq_inner q),
       reinit_pending := True\<rparr>"

definition awaiting_resync :: "live_media_queue \<Rightarrow> string \<Rightarrow> string \<Rightarrow> bool" where
  "awaiting_resync q app stream = is_awaiting (lq_inner q) app stream"

section \<open>Snapshots\<close>

record live_queue_snapshot =
  sn_queue_messages :: nat
  sn_queue_bytes :: nat
  sn_oldest_queue_age_ms :: u64
  sn_streams_awaiting_resync :: nat
  sn_dropped_frames_total :: u64
  sn_dropped_droppable_frames :: u64
  sn_dropped_stale_frames :: u64
  sn_dropped_critical_frames :: u64
  sn_oversized_frames_dropped :: u64
  sn_resync_count :: u64
  sn_resync_timeouts :: u64
  sn_max_queue_bytes_seen :: u64
  sn_max_queue_messages_seen :: u64
  sn_max_oldest_queue_age_ms_seen :: u64

definition snapshot_at :: "instant \<Rightarrow> live_media_queue \<Rightarrow> live_queue_snapshot" where
  "snapshot_at now q =
     (let g = lq_inner q; s = lq_stats q
      in \<lparr>sn_queue_messages = length (entries g),
          sn_queue_bytes = bytes_queued g,
          sn_oldest_queue_age_ms =
            (case entries g of [] \<Rightarrow> 0 | e # _ \<Rightarrow> as_millis_u64 (saturating_since now (e_at e))),
          sn_streams_awaiting_resync =
            length (filter (\<lambda>(_, _, st). awaiting_since st \<noteq> None) (nm_iter (streams g))),
          sn_dropped_frames_total = dropped_total s,
          sn_dropped_droppable_frames = dropped_droppable s,
          sn_dropped_stale_frames = dropped_stale s,
          sn_dropped_critical_frames = dropped_critical s,
          sn_oversized_frames_dropped = oversized_dropped s,
          sn_resync_count = resync_count s,
          sn_resync_timeouts = resync_timeouts s,
          sn_max_queue_bytes_seen = max_bytes_seen s,
          sn_max_queue_messages_seen = max_messages_seen s,
          sn_max_oldest_queue_age_ms_seen = max_age_ms_seen s\<rparr>)"

definition snapshot_merge :: "live_queue_snapshot \<Rightarrow> live_queue_snapshot \<Rightarrow> live_queue_snapshot" where
  "snapshot_merge a b =
     \<lparr>sn_queue_messages = sn_queue_messages a + sn_queue_messages b,
      sn_queue_bytes = sn_queue_bytes a + sn_queue_bytes b,
      sn_oldest_queue_age_ms = max (sn_oldest_queue_age_ms a) (sn_oldest_queue_age_ms b),
      sn_streams_awaiting_resync = sn_streams_awaiting_resync a + sn_streams_awaiting_resync b,
      sn_dropped_frames_total = sn_dropped_frames_total a + sn_dropped_frames_total b,
      sn_dropped_droppable_frames = sn_dropped_droppable_frames a + sn_dropped_droppable_frames b,
      sn_dropped_stale_frames = sn_dropped_stale_frames a + sn_dropped_stale_frames b,
      sn_dropped_critical_frames = sn_dropped_critical_frames a + sn_dropped_critical_frames b,
      sn_oversized_frames_dropped = sn_oversized_frames_dropped a + sn_oversized_frames_dropped b,
      sn_resync_count = sn_resync_count a + sn_resync_count b,
      sn_resync_timeouts = sn_resync_timeouts a + sn_resync_timeouts b,
      sn_max_queue_bytes_seen = max (sn_max_queue_bytes_seen a) (sn_max_queue_bytes_seen b),
      sn_max_queue_messages_seen = max (sn_max_queue_messages_seen a) (sn_max_queue_messages_seen b),
      sn_max_oldest_queue_age_ms_seen =
        max (sn_max_oldest_queue_age_ms_seen a) (sn_max_oldest_queue_age_ms_seen b)\<rparr>"

end
