(* ===== verification/Live_Queue_Books.thy ===== *)
theory Live_Queue_Books
  imports Live_Queue "HOL-Library.Multiset"
begin

text \<open>
  Book-keeping of the live queue. The nested map of stream states is read through \<open>st_of\<close>, which
  gives an absent stream the default state; pruning an idle stream is then invisible. \<open>books M g\<close>
  says that the counters of \<open>g\<close> account exactly for the multiset \<open>M\<close> of entries, and \<open>sheds\<close>
  collects what an operation that only discards entries leaves unchanged.
\<close>

named_theorems lq_simps \<open>rewriting of the operations on streams and counters\<close>

section \<open>The state of a stream\<close>

definition st_of :: "inner \<Rightarrow> string \<times> string \<Rightarrow> stream_state" where
  "st_of g = (\<lambda>(app, stream).
     case state g app stream of None \<Rightarrow> stream_state_default | Some st \<Rightarrow> st)"

lemma default_sel [simp]:
  "awaiting_since stream_state_default = None" "evictable_bytes stream_state_default = 0"
  "queued_frames stream_state_default = 0" "needs_reinit stream_state_default = False"
  by (simp_all add: stream_state_default_def)

lemma idle_default: "idle st \<Longrightarrow> evictable_bytes st = 0 \<Longrightarrow> st = stream_state_default"
  by (cases st) (simp add: idle_def stream_state_default_def)

lemma clear_await_default [simp]: "clear_await stream_state_default = stream_state_default"
  by (simp add: clear_await_def stream_state_default_def)

lemma is_awaiting_st_of: "is_awaiting g a s \<longleftrightarrow> awaiting_since (st_of g (a, s)) \<noteq> None"
  by (simp add: is_awaiting_def st_of_def split: option.splits)

lemma st_of_entries [simp]:
  "st_of (g\<lparr>entries := es\<rparr>) = st_of g" "st_of (g\<lparr>bytes_queued := n\<rparr>) = st_of g"
  "st_of (g\<lparr>reinit_dirty := d\<rparr>) = st_of g"
  by (simp_all add: st_of_def state_def)

lemma st_of_state_mut [lq_simps]: "st_of (state_mut a s f g) = (st_of g)((a, s) := f (st_of g (a, s)))"
  by (auto simp: st_of_def state_def state_mut_def Let_def fun_eq_iff)

lemma st_of_with_state [lq_simps]:
  "f stream_state_default = stream_state_default \<Longrightarrow>
   st_of (with_state a s f g) = (st_of g)((a, s) := f (st_of g (a, s)))"
  by (auto simp: st_of_def state_def with_state_def fun_eq_iff split: option.splits)

lemma st_of_prune_idle:
  "(queued_frames (st_of g (a, s)) = 0 \<Longrightarrow> evictable_bytes (st_of g (a, s)) = 0) \<Longrightarrow>
   st_of (prune_idle a s g) = st_of g"
  using idle_default
  by (auto simp: st_of_def state_def prune_idle_def fun_eq_iff idle_def split: option.splits)

declare split_paired_All [simp del] split_paired_Ex [simp del]

lemma frame_fields [simp]:
  "entries (state_mut a s f g) = entries g" "bytes_queued (state_mut a s f g) = bytes_queued g"
  "closed (state_mut a s f g) = closed g" "reinit_dirty (state_mut a s f g) = reinit_dirty g"
  "entries (with_state a s f g) = entries g" "bytes_queued (with_state a s f g) = bytes_queued g"
  "closed (with_state a s f g) = closed g" "reinit_dirty (with_state a s f g) = reinit_dirty g"
  "entries (prune_idle a s g) = entries g" "bytes_queued (prune_idle a s g) = bytes_queued g"
  "closed (prune_idle a s g) = closed g" "reinit_dirty (prune_idle a s g) = reinit_dirty g"
  by (simp_all add: state_mut_def with_state_def prune_idle_def Let_def)

lemma nm_ok_streams [simp]:
  "nm_ok (streams g) \<Longrightarrow> nm_ok (streams (state_mut a s f g))"
  "nm_ok (streams g) \<Longrightarrow> nm_ok (streams (with_state a s f g))"
  "nm_ok (streams g) \<Longrightarrow> nm_ok (streams (prune_idle a s g))"
  by (simp_all add: state_mut_def with_state_def prune_idle_def Let_def)

lemma await_from_sel [simp]:
  "awaiting_since (await_from now st) \<noteq> None" "evictable_bytes (await_from now st) = evictable_bytes st"
  "queued_frames (await_from now st) = queued_frames st"
  "needs_reinit (await_from now st) = needs_reinit st"
  by (simp_all add: await_from_def split: option.splits)

lemma clear_await_sel [simp]:
  "awaiting_since (clear_await st) = None" "evictable_bytes (clear_await st) = evictable_bytes st"
  "queued_frames (clear_await st) = queued_frames st" "needs_reinit (clear_await st) = needs_reinit st"
  by (simp_all add: clear_await_def)

section \<open>Books\<close>

definition frames_in :: "entry multiset \<Rightarrow> string \<times> string \<Rightarrow> nat" where
  "frames_in M n = size {#e \<in># M. entry_names e = Some n#}"

definition evictable_in :: "entry multiset \<Rightarrow> string \<times> string \<Rightarrow> nat" where
  "evictable_in M n = (\<Sum>e\<in>#{#e \<in># M. hits (fst n) (snd n) e#}. e_size e)"

definition books :: "entry multiset \<Rightarrow> inner \<Rightarrow> bool" where
  "books M g \<longleftrightarrow> bytes_queued g = (\<Sum>e\<in>#M. e_size e) \<and>
     (\<forall>n. queued_frames (st_of g n) = frames_in M n \<and> evictable_bytes (st_of g n) = evictable_in M n)"

lemma frames_in_add: "frames_in (add_mset e M) n = (if entry_names e = Some n then Suc (frames_in M n) else frames_in M n)"
  by (simp add: frames_in_def)

lemma evictable_in_add:
  "evictable_in (add_mset e M) n =
     (if evictable (e_kind e) \<and> entry_names e = Some n then e_size e + evictable_in M n else evictable_in M n)"
  by (simp add: evictable_in_def hits_def)

lemma filter_mset_empty: "{#x \<in># M. P x#} = {#} \<longleftrightarrow> (\<forall>x\<in>#M. \<not> P x)"
  by (induction M) auto

lemma frames_in_0: "frames_in M n = 0 \<Longrightarrow> evictable_in M n = 0"
proof -
  assume "frames_in M n = 0"
  then have "\<forall>e\<in>#M. entry_names e \<noteq> Some n" by (simp add: frames_in_def filter_mset_empty)
  then have "{#e \<in># M. hits (fst n) (snd n) e#} = {#}" by (auto simp: hits_def filter_mset_empty)
  then show ?thesis by (simp only: evictable_in_def image_mset_empty sum_mset.empty)
qed

lemma books_prune_idle: "books M g \<Longrightarrow> st_of (prune_idle a s g) = st_of g"
  by (rule st_of_prune_idle) (simp add: books_def frames_in_0)

lemma books_prune [simp]: "books M g \<Longrightarrow> books M (prune_idle a s g)"
  using books_prune_idle [of M g a s] by (simp add: books_def)

lemma books_entries [simp]: "books M (g\<lparr>entries := es\<rparr>) = books M g"
  by (simp add: books_def)

lemma books_reinit_dirty [simp]: "books M (g\<lparr>reinit_dirty := d\<rparr>) = books M g"
  by (simp add: books_def)

text \<open>What the removal of an entry does to the state of its stream.\<close>

definition unbook :: "entry \<Rightarrow> stream_state \<Rightarrow> stream_state" where
  "unbook e st =
     (let st1 = st\<lparr>queued_frames := queued_frames st - 1\<rparr>
      in if evictable (e_kind e) then st1\<lparr>evictable_bytes := evictable_bytes st1 - e_size e\<rparr> else st1)"

lemma unbook_default [simp]: "unbook e stream_state_default = stream_state_default"
  by (simp add: unbook_def stream_state_default_def Let_def)

lemma unbook_sel [simp]:
  "awaiting_since (unbook e st) = awaiting_since st" "needs_reinit (unbook e st) = needs_reinit st"
  "queued_frames (unbook e st) = queued_frames st - 1"
  "evictable_bytes (unbook e st) =
     (if evictable (e_kind e) then evictable_bytes st - e_size e else evictable_bytes st)"
  by (simp_all add: unbook_def Let_def)

lemma account_removed_unbook:
  "account_removed e g =
     (case entry_names e of
        None \<Rightarrow> g\<lparr>bytes_queued := bytes_queued g - e_size e\<rparr>
      | Some (a, s) \<Rightarrow>
          prune_idle a s (with_state a s (unbook e) (g\<lparr>bytes_queued := bytes_queued g - e_size e\<rparr>)))"
proof -
  have "unbook e = (\<lambda>st. let st1 = st\<lparr>queued_frames := queued_frames st - 1\<rparr>
      in if evictable (e_kind e) then st1\<lparr>evictable_bytes := evictable_bytes st1 - e_size e\<rparr> else st1)"
    by (rule ext) (simp add: unbook_def)
  then show ?thesis by (simp only: account_removed_def Let_def)
qed

lemma account_removed_fields [simp]:
  "entries (account_removed e g) = entries g" "closed (account_removed e g) = closed g"
  "reinit_dirty (account_removed e g) = reinit_dirty g"
  "nm_ok (streams g) \<Longrightarrow> nm_ok (streams (account_removed e g))"
  by (auto simp: account_removed_unbook split: option.splits prod.splits)

lemma books_account_removed:
  assumes "books (add_mset e M) g"
  shows "books M (account_removed e g) \<and>
    st_of (account_removed e g) =
      (case entry_names e of None \<Rightarrow> st_of g | Some n \<Rightarrow> (st_of g)(n := unbook e (st_of g n)))"
proof (cases "entry_names e")
  case None
  with assms show ?thesis
    by (simp add: account_removed_unbook books_def frames_in_add evictable_in_add)
next
  case (Some n)
  obtain a s where n: "n = (a, s)" by (cases n)
  let ?g = "with_state a s (unbook e) (g\<lparr>bytes_queued := bytes_queued g - e_size e\<rparr>)"
  have st: "st_of ?g = (st_of g)(n := unbook e (st_of g n))"
    by (simp add: lq_simps n)
  have "books M ?g"
    using assms Some unfolding books_def st by (auto simp: frames_in_add evictable_in_add)
  then show ?thesis
    using st books_prune_idle by (simp add: account_removed_unbook Some n)
qed

lemma books_account_dropped:
  "books (M + mset D) g \<Longrightarrow>
   let g' = fst (account_dropped rsn D (g, s))
   in books M g' \<and> (\<forall>n. awaiting_since (st_of g' n) = awaiting_since (st_of g n) \<and>
                        needs_reinit (st_of g' n) = needs_reinit (st_of g n))"
proof (induction D arbitrary: g s)
  case Nil
  then show ?case by (simp add: account_dropped_def)
next
  case (Cons e D)
  note step = books_account_removed [of e "M + mset D" g]
  from Cons.IH [of "account_removed e g" "count_drop (e_kind e) rsn s"] Cons.prems step
  show ?case by (auto simp: account_dropped_def Let_def split: option.splits)
qed

lemma account_dropped_fields [simp]:
  "entries (fst (account_dropped rsn D gs)) = entries (fst gs)"
  "closed (fst (account_dropped rsn D gs)) = closed (fst gs)"
  "reinit_dirty (fst (account_dropped rsn D gs)) = reinit_dirty (fst gs)"
  "nm_ok (streams (fst gs)) \<Longrightarrow> nm_ok (streams (fst (account_dropped rsn D gs)))"
  by (induction D arbitrary: gs) (auto simp: account_dropped_def case_prod_unfold)

section \<open>Drop counters\<close>

text \<open>The total minus the four categories; zero on a fresh queue.\<close>

definition drop_gap :: "live_queue_stats \<Rightarrow> u64" where
  "drop_gap s = dropped_total s -
     (dropped_droppable s + dropped_stale s + dropped_critical s + oversized_dropped s)"

lemma count_drop_gap [simp]: "drop_gap (count_drop k rsn s) = drop_gap s"
  by (simp add: count_drop_def drop_gap_def Let_def split: reason.splits)

lemma count_drop_total [simp]: "dropped_total (count_drop k rsn s) = dropped_total s + 1"
  by (simp add: count_drop_def Let_def split: reason.splits)

lemma account_dropped_stats [simp]:
  "drop_gap (snd (account_dropped rsn D gs)) = drop_gap (snd gs)"
  "dropped_total (snd (account_dropped rsn D gs)) = dropped_total (snd gs) + of_nat (length D)"
  by (induction D arbitrary: gs) (auto simp: account_dropped_def case_prod_unfold)

section \<open>Invariant\<close>

definition entry_ok :: "entry \<Rightarrow> bool" where
  "entry_ok e \<longleftrightarrow> e_size e = approx_size (e_msg e) \<and> e_kind e = kind_of (e_msg e)"

text \<open>
  The counters agree with the queue, and a stream that waits for a resync point has no evictable
  frame queued.
\<close>

definition lq_wf :: "inner \<Rightarrow> bool" where
  "lq_wf g \<longleftrightarrow> nm_ok (streams g) \<and> books (mset (entries g)) g \<and> (\<forall>e \<in> set (entries g). entry_ok e) \<and>
     (\<forall>n. awaiting_since (st_of g n) \<noteq> None \<longrightarrow> evictable_bytes (st_of g n) = 0)"

text \<open>
  \<open>gs'\<close> arises from \<open>gs\<close> by discarding queued entries that satisfy \<open>p\<close>: order and every other
  entry are kept, each discarded entry is counted once in the total and in one category, and
  no request for an init cache is forgotten.
\<close>

definition sheds ::
    "(entry \<Rightarrow> bool) \<Rightarrow> inner \<times> live_queue_stats \<Rightarrow> inner \<times> live_queue_stats \<Rightarrow> bool" where
  "sheds p gs gs' \<longleftrightarrow> subseq (entries (fst gs')) (entries (fst gs)) \<and>
     filter (\<lambda>e. \<not> p e) (entries (fst gs')) = filter (\<lambda>e. \<not> p e) (entries (fst gs)) \<and>
     closed (fst gs') = closed (fst gs) \<and>
     of_nat (length (entries (fst gs'))) + dropped_total (snd gs') =
       of_nat (length (entries (fst gs))) + dropped_total (snd gs) \<and>
     drop_gap (snd gs') = drop_gap (snd gs) \<and>
     (reinit_dirty (fst gs) \<longrightarrow> reinit_dirty (fst gs')) \<and>
     (reinit_dirty (fst gs') \<longrightarrow> reinit_dirty (fst gs) \<or> (\<exists>e. p e \<and> \<not> evictable (e_kind e))) \<and>
     (\<forall>n. (needs_reinit (st_of (fst gs) n) \<longrightarrow> needs_reinit (st_of (fst gs') n)) \<and>
          (needs_reinit (st_of (fst gs') n) \<longrightarrow> needs_reinit (st_of (fst gs) n) \<or> reinit_dirty (fst gs')))"

lemma sheds_refl [simp]: "sheds p gs gs"
  by (simp add: sheds_def)

lemma sheds_trans: "sheds p a b \<Longrightarrow> sheds p b c \<Longrightarrow> sheds p a c"
  by (auto simp: sheds_def intro: subseq_order.trans)

lemma sheds_mono: "sheds p a b \<Longrightarrow> (\<And>e. p e \<Longrightarrow> q e) \<Longrightarrow> sheds q a b"
proof -
  assume ab: "sheds p a b" and pq: "\<And>e. p e \<Longrightarrow> q e"
  have "filter (\<lambda>e. \<not> q e) es = filter (\<lambda>e. \<not> q e) (filter (\<lambda>e. \<not> p e) es)" for es
    using pq by (auto intro!: filter_cong)
  then have "filter (\<lambda>e. \<not> q e) (entries (fst b)) = filter (\<lambda>e. \<not> q e) (entries (fst a))"
    using ab unfolding sheds_def by metis
  with ab pq show ?thesis unfolding sheds_def by blast
qed

lemma sheds_foldl:
  assumes "\<And>x gs. x \<in> set xs \<Longrightarrow> I (fst gs) \<Longrightarrow> sheds p gs (f gs x) \<and> I (fst (f gs x))" "I (fst gs)"
  shows "sheds p gs (foldl f gs xs) \<and> I (fst (foldl f gs xs))"
  using assms
proof (induction xs arbitrary: gs)
  case (Cons x xs)
  from Cons.prems have x: "sheds p gs (f gs x)" "I (fst (f gs x))" by simp_all
  from Cons.IH [OF Cons.prems(1) x(2)] show ?case
    using sheds_trans [OF x(1)] by simp
qed simp

lemma evictable_in_plus: "evictable_in (A + B) n = evictable_in A n + evictable_in B n"
  by (simp add: evictable_in_def)

lemma account_dropped_wf:
  fixes s :: live_queue_stats and rsn :: reason
  assumes wf: "lq_wf g" and sub: "subseq kept (entries g)"
    and ms: "mset (entries g) = mset kept + mset D" and D: "\<And>e. e \<in> set D \<Longrightarrow> p e"
  defines "gs' \<equiv> account_dropped rsn D (g\<lparr>entries := kept\<rparr>, s)"
  shows "lq_wf (fst gs')" and "sheds p (g, s) gs'"
    and "awaiting_since (st_of (fst gs') n) = awaiting_since (st_of g n)"
    and "needs_reinit (st_of (fst gs') n) = needs_reinit (st_of g n)"
    and "entries (fst gs') = kept"
proof -
  have "books (mset kept + mset D) (g\<lparr>entries := kept\<rparr>)" using wf ms by (simp add: lq_wf_def)
  note b = books_account_dropped [OF this, of rsn s, folded gs'_def, unfolded Let_def]
  then show aw: "awaiting_since (st_of (fst gs') n) = awaiting_since (st_of g n)"
    and nr: "needs_reinit (st_of (fst gs') n) = needs_reinit (st_of g n)" for n by simp_all
  show ent: "entries (fst gs') = kept" by (simp add: gs'_def)
  have "evictable_in (mset kept) m = 0" if "awaiting_since (st_of g m) \<noteq> None" for m
    using wf that ms by (auto simp: lq_wf_def books_def evictable_in_plus)
  moreover have "set kept \<subseteq> set (entries g)" using arg_cong [OF ms, of set_mset] by auto
  moreover have "nm_ok (streams (fst gs'))" using wf by (simp add: gs'_def lq_wf_def)
  ultimately show "lq_wf (fst gs')"
    using wf b aw ent unfolding lq_wf_def books_def by auto
  have len: "length (entries g) = length kept + length D" using ms by (metis size_mset size_union)
  have "filter (\<lambda>e. \<not> p e) kept = filter (\<lambda>e. \<not> p e) (entries g)"
  proof (rule subseq_same_length)
    show "subseq (filter (\<lambda>e. \<not> p e) kept) (filter (\<lambda>e. \<not> p e) (entries g))"
      using sub by (rule subseq_filter)
    have "{#e \<in># mset D. \<not> p e#} = {#}" using D by (simp add: filter_mset_empty)
    then show "length (filter (\<lambda>e. \<not> p e) kept) = length (filter (\<lambda>e. \<not> p e) (entries g))"
      using ms by (metis filter_union_mset mset_filter size_mset add.right_neutral)
  qed
  with sub nr len show "sheds p (g, s) gs'" by (simp add: sheds_def gs'_def)
qed

end
