(* ===== verification/Live_Queue_Ops.thy ===== *)
theory Live_Queue_Ops
  imports Live_Queue_Books
begin

text \<open>
  Every operation of the live queue against the book-keeping invariant: purging a stream, the age
  rule, the choice of the heaviest stream, the \<open>make_room\<close> loop with its termination, and the
  public operations built from them.
\<close>

declare less_prod_simp [simp del] less_eq_prod_simp [simp del]

section \<open>Stream states\<close>

lemma st_evictable: "lq_wf g \<Longrightarrow> evictable_bytes (st_of g n) = evictable_in (mset (entries g)) n"
  by (simp add: lq_wf_def books_def)

lemma lq_wf_state_mut:
  assumes "lq_wf g" "queued_frames (f (st_of g (a, s))) = queued_frames (st_of g (a, s))"
    "evictable_bytes (f (st_of g (a, s))) = evictable_bytes (st_of g (a, s))"
    "awaiting_since (f (st_of g (a, s))) \<noteq> None \<Longrightarrow> evictable_bytes (st_of g (a, s)) = 0"
  shows "lq_wf (state_mut a s f g)"
  using assms by (auto simp: lq_wf_def books_def lq_simps)

lemma lq_wf_clear_await: "lq_wf g \<Longrightarrow> lq_wf (with_state a s clear_await g)"
  by (auto simp: lq_wf_def books_def lq_simps)

lemma lq_wf_prune: "lq_wf g \<Longrightarrow> lq_wf (prune_idle a s g)"
  using books_prune_idle [of "mset (entries g)" g a s] by (simp add: lq_wf_def)

lemma lq_wf_st_of_prune: "lq_wf g \<Longrightarrow> st_of (prune_idle a s g) = st_of g"
  by (auto simp: lq_wf_def intro: books_prune_idle)

lemma lq_wf_reinit_dirty [simp]: "lq_wf (g\<lparr>reinit_dirty := d\<rparr>) = lq_wf g"
  by (simp add: lq_wf_def)

lemma entry_ok_evictable:
  "entry_ok e \<Longrightarrow> evictable (e_kind e) \<Longrightarrow> 0 < e_size e \<and> entry_names e \<noteq> None"
  by (cases "e_msg e") (auto simp: entry_ok_def entry_names_def)

lemma evictable_in_pos:
  assumes "\<forall>e \<in> set es. entry_ok e"
  shows "0 < evictable_in (mset es) (a, s) \<longleftrightarrow> (\<exists>e \<in> set es. hits a s e)"
  using assms by (induction es) (auto simp: evictable_in_def hits_def entry_ok_evictable dest: entry_ok_evictable)

lemma evictable_in_kept [simp]: "evictable_in {#e \<in># M. \<not> hits a s e#} (a, s) = 0"
  by (induction M) (auto simp: evictable_in_def)

text \<open>Changes of a stream's wait keep everything \<open>sheds\<close> talks about.\<close>

lemma sheds_state_mut:
  "sheds p gs (g, s) \<Longrightarrow> (\<And>st. needs_reinit (f st) = needs_reinit st) \<Longrightarrow> sheds p gs (state_mut a b f g, s)"
  by (auto simp: sheds_def lq_simps)

lemma sheds_clear_await: "sheds p gs (g, s) \<Longrightarrow> sheds p gs (with_state a b clear_await g, s)"
  by (auto simp: sheds_def lq_simps)

lemma sheds_prune: "sheds p gs (g, s) \<Longrightarrow> lq_wf g \<Longrightarrow> sheds p gs (prune_idle a b g, s)"
  by (simp add: sheds_def lq_wf_st_of_prune)

lemma sheds_stats:
  "sheds p gs (g, s) \<Longrightarrow> dropped_total s' = dropped_total s \<Longrightarrow> drop_gap s' = drop_gap s \<Longrightarrow> sheds p gs (g, s')"
  by (simp add: sheds_def)

lemma drop_gap_other [simp]:
  "drop_gap (s\<lparr>resync_count := n\<rparr>) = drop_gap s" "drop_gap (s\<lparr>resync_timeouts := n\<rparr>) = drop_gap s"
  "drop_gap (s\<lparr>max_bytes_seen := n\<rparr>) = drop_gap s" "drop_gap (s\<lparr>max_messages_seen := n\<rparr>) = drop_gap s"
  "drop_gap (s\<lparr>max_age_ms_seen := n\<rparr>) = drop_gap s"
  by (simp_all add: drop_gap_def)

section \<open>Purging\<close>

abbreviation is_evictable :: "entry \<Rightarrow> bool" where
  "is_evictable e \<equiv> evictable (e_kind e)"

abbreviation is_media :: "entry \<Rightarrow> bool" where
  "is_media e \<equiv> e_kind e \<noteq> Control"

lemma hits_evictable: "hits a s e \<Longrightarrow> is_evictable e"
  by (simp add: hits_def)

lemma mset_split: "mset es = mset (filter (\<lambda>e. \<not> p e) es) + mset (filter p es)"
  by (induction es) auto

lemma purge_stream_wf:
  assumes "lq_wf g"
  shows "lq_wf (fst (purge_stream a b rsn (g, s)))"
    and "sheds is_evictable (g, s) (purge_stream a b rsn (g, s))"
    and "entries (fst (purge_stream a b rsn (g, s))) = filter (\<lambda>e. \<not> hits a b e) (entries g)"
    and "awaiting_since (st_of (fst (purge_stream a b rsn (g, s))) n) = awaiting_since (st_of g n)"
    and "evictable_bytes (st_of (fst (purge_stream a b rsn (g, s))) (a, b)) = 0"
    and "needs_reinit (st_of (fst (purge_stream a b rsn (g, s))) n) = needs_reinit (st_of g n)"
proof -
  have "is_evictable e" if "e \<in> set (filter (hits a b) (entries g))" for e
    using that by (simp add: hits_def)
  note facts = account_dropped_wf [OF assms subseq_filter_left mset_split this, where rsn = rsn and s = s]
  show wf': "lq_wf (fst (purge_stream a b rsn (g, s)))"
    and "sheds is_evictable (g, s) (purge_stream a b rsn (g, s))"
    and ent: "entries (fst (purge_stream a b rsn (g, s))) = filter (\<lambda>e. \<not> hits a b e) (entries g)"
    and "awaiting_since (st_of (fst (purge_stream a b rsn (g, s))) n) = awaiting_since (st_of g n)"
    and "needs_reinit (st_of (fst (purge_stream a b rsn (g, s))) n) = needs_reinit (st_of g n)"
    using facts by (simp_all add: purge_stream_def Let_def)
  show "evictable_bytes (st_of (fst (purge_stream a b rsn (g, s))) (a, b)) = 0"
    using st_evictable [OF wf'] by (simp add: ent)
qed

lemma mset_map_split:
  "mset (map snd ies) = mset (map snd (filter (\<lambda>ie. \<not> p ie) ies)) + mset (map snd (filter p ies))"
  by (induction ies) auto

lemma purge_stale_stream_wf:
  assumes wf: "lq_wf g" and res: "purge_stale_stream a b now age (g, s) = ((resynced, skipped), g', s')"
  shows "lq_wf g'" and "sheds is_evictable (g, s) (g', s')"
    and "\<not> resynced \<Longrightarrow> entries g' = filter (\<lambda>e. \<not> hits a b e) (entries g)"
    and "\<not> resynced \<Longrightarrow> evictable_bytes (st_of g' (a, b)) = 0"
    and "needs_reinit (st_of g' n) = needs_reinit (st_of g n)"
proof -
  let ?pos = "position (is_fresh_resync a b now age) (entries g)"
  let ?hit = "\<lambda>(i, e). (case ?pos of None \<Rightarrow> True | Some k \<Rightarrow> i < k) \<and> hits a b e"
  let ?E = "List.enumerate 0 (entries g)"
  let ?kept = "map snd (filter (\<lambda>ie. \<not> ?hit ie) ?E)"
  let ?removed = "map snd (filter ?hit ?E)"
  have gs': "(g', s') = account_dropped Stale ?removed (g\<lparr>entries := ?kept\<rparr>, s)"
    and r: "resynced = (?pos \<noteq> None)"
    using res by (auto simp: purge_stale_stream_def Let_def)
  have sub: "subseq ?kept (entries g)"
    using subseq_map [OF subseq_filter_left, of snd _ ?E] by simp
  have ms: "mset (entries g) = mset ?kept + mset ?removed"
    using mset_map_split [of ?E ?hit] by simp
  note facts = account_dropped_wf [OF wf sub ms, where p = is_evictable and rsn = Stale and s = s,
      folded gs', simplified fst_conv]
  show "lq_wf g'" "sheds is_evictable (g, s) (g', s')" "needs_reinit (st_of g' n) = needs_reinit (st_of g n)"
    by (rule facts; auto dest: hits_evictable)+
  have "?kept = filter (\<lambda>e. \<not> hits a b e) (entries g)" if "\<not> resynced"
  proof -
    have "filter (\<lambda>ie. \<not> ?hit ie) ?E = filter ((\<lambda>e. \<not> hits a b e) \<circ> snd) ?E"
      using that r by (auto intro!: filter_cong)
    then show ?thesis by (simp add: filter_map [symmetric])
  qed
  moreover have "entries g' = ?kept" by (rule facts; auto dest: hits_evictable)
  ultimately show ent: "\<not> resynced \<Longrightarrow> entries g' = filter (\<lambda>e. \<not> hits a b e) (entries g)" by simp
  show "\<not> resynced \<Longrightarrow> evictable_bytes (st_of g' (a, b)) = 0"
    using st_evictable [OF \<open>lq_wf g'\<close>] ent by (simp add:)
qed

section \<open>The age rule and expired waits\<close>

lemma enforce_age_stream_wf:
  assumes wf: "lq_wf (fst gs)"
  shows "sheds is_evictable gs (enforce_age_stream now cfg n gs) \<and> lq_wf (fst (enforce_age_stream now cfg n gs))"
proof -
  obtain g s a b where gs: "gs = (g, s)" and n: "n = (a, b)" by (cases gs, cases n)
  obtain resynced skipped g1 s1
    where res: "purge_stale_stream a b now (max_media_age cfg) (g, s) = ((resynced, skipped), g1, s1)"
    by (metis prod.exhaust)
  note facts = purge_stale_stream_wf [OF wf [unfolded gs fst_conv] res]
  let ?g2 = "if resynced then with_state a b clear_await g1 else state_mut a b (await_from now) g1"
  let ?s2 = "if resynced \<and> skipped then s1\<lparr>resync_count := resync_count s1 + 1\<rparr> else s1"
  have wf2: "lq_wf ?g2"
    using facts by (auto intro!: lq_wf_clear_await lq_wf_state_mut)
  moreover have "sheds is_evictable (g, s) (?g2, ?s2)"
    using facts(2) by (auto intro!: sheds_clear_await sheds_state_mut intro: sheds_stats)
  ultimately show ?thesis
    using res by (simp add: enforce_age_stream_def gs n Let_def lq_wf_prune sheds_prune)
qed

lemma enforce_age_wf:
  assumes "lq_wf (fst gs)"
  shows "sheds is_evictable gs (enforce_age now cfg gs) \<and> lq_wf (fst (enforce_age now cfg gs))"
proof (cases "enforce_age now cfg gs = gs")
  case False
  then have eq: "enforce_age now cfg gs = foldl (\<lambda>gs n. enforce_age_stream now cfg n gs) gs
      (stale_streams now (max_media_age cfg) (entries (fst gs)))"
    unfolding enforce_age_def Let_def by (auto split: if_splits)
  show ?thesis
    unfolding eq by (rule sheds_foldl [where I = lq_wf]) (auto simp: enforce_age_stream_wf assms)
qed (use assms in simp)

lemma release_expired_waits_wf:
  assumes "lq_wf (fst gs)"
  shows "sheds (\<lambda>_. False) gs (release_expired_waits now cfg gs) \<and> lq_wf (fst (release_expired_waits now cfg gs))"
  unfolding release_expired_waits_def Let_def
proof (rule sheds_foldl [where I = lq_wf])
  fix x :: "string \<times> string \<times> stream_state" and gs :: "inner \<times> live_queue_stats"
  assume wf: "lq_wf (fst gs)"
  obtain a b st where x: "x = (a, b, st)" by (cases x)
  obtain g s where gs: "gs = (g, s)" by (cases gs)
  have "lq_wf (with_state a b clear_await g)" using wf gs by (simp add: lq_wf_clear_await)
  moreover have "sheds (\<lambda>_. False) (g, s) (with_state a b clear_await g, s\<lparr>resync_timeouts := resync_timeouts s + 1\<rparr>)"
    by (rule sheds_clear_await) (simp add: sheds_def)
  ultimately show "sheds (\<lambda>_. False) gs ((\<lambda>(g, s) (app, stream, _).
        (prune_idle app stream (with_state app stream clear_await g),
         s\<lparr>resync_timeouts := resync_timeouts s + 1\<rparr>)) gs x) \<and>
      lq_wf (fst ((\<lambda>(g, s) (app, stream, _).
        (prune_idle app stream (with_state app stream clear_await g),
         s\<lparr>resync_timeouts := resync_timeouts s + 1\<rparr>)) gs x))"
    by (simp add: x gs lq_wf_prune sheds_prune)
qed (rule assms)

section \<open>The heaviest stream\<close>

lemma heavier_step:
  "heavier None (a, s, st) = (if evictable_bytes st = 0 then None else Some (evictable_bytes st, a, s))"
  "heavier (Some (b, a0, s0)) (a, s, st) =
     (if evictable_bytes st \<noteq> 0 \<and> (b < evictable_bytes st \<or> (evictable_bytes st = b \<and> (a, s) < (a0, s0)))
      then Some (evictable_bytes st, a, s) else Some (b, a0, s0))"
  by (simp_all add: heavier_def)

lemma heavier_scan:
  fixes xs :: "(string \<times> string \<times> stream_state) list"
  shows "case foldl heavier None xs of
     None \<Rightarrow> (\<forall>(a, s, st) \<in> set xs. evictable_bytes st = 0)
   | Some (b, a, s) \<Rightarrow> 0 < b \<and> (\<exists>st. (a, s, st) \<in> set xs \<and> evictable_bytes st = b) \<and>
       (\<forall>(a', s', st) \<in> set xs. evictable_bytes st < b \<or> (evictable_bytes st = b \<and> (a, s) \<le> (a', s')))"
proof (induction xs rule: rev_induct)
  case (snoc x xs)
  obtain a s st where x: "x = (a, s, st)" by (cases x)
  show ?case
  proof (cases "foldl heavier None xs")
    case None
    with snoc.IH show ?thesis by (auto simp: heavier_step x)
  next
    case (Some best)
    obtain b a0 s0 where best: "best = (b, a0, s0)" by (cases best)
    from snoc.IH Some best have ih: "0 < b" "\<exists>st. (a0, s0, st) \<in> set xs \<and> evictable_bytes st = b"
      "\<forall>(a', s', st) \<in> set xs. evictable_bytes st < b \<or> (evictable_bytes st = b \<and> (a0, s0) \<le> (a', s'))"
      by auto
    show ?thesis
    proof (cases "b < evictable_bytes st \<or> (evictable_bytes st = b \<and> (a, s) < (a0, s0))")
      case True
      then have "foldl heavier None (xs @ [x]) = Some (evictable_bytes st, a, s)"
        using ih(1) by (auto simp: heavier_step x Some best)
      moreover have "evictable_bytes st' < evictable_bytes st \<or>
          (evictable_bytes st' = evictable_bytes st \<and> (a, s) \<le> (a', s'))"
        if "(a', s', st') \<in> set xs" for a' s' st'
      proof -
        from ih(3) that have "evictable_bytes st' < b \<or> evictable_bytes st' = b \<and> (a0, s0) \<le> (a', s')"
          by blast
        with True show ?thesis by (meson less_imp_le less_le_trans order.strict_trans)
      qed
      ultimately show ?thesis using True ih(1) by (auto simp: x)
    next
      case False
      then have "foldl heavier None (xs @ [x]) = foldl heavier None xs"
        by (auto simp: heavier_step x Some best)
      with False ih show ?thesis by (auto simp: x Some best not_less)
    qed
  qed
qed simp

lemma heaviest_evictable_Some:
  assumes ok: "nm_ok (streams g)" and h: "heaviest_evictable g = Some n"
  shows "0 < evictable_bytes (st_of g n)"
    and "evictable_bytes (st_of g m) < evictable_bytes (st_of g n) \<or>
         (evictable_bytes (st_of g m) = evictable_bytes (st_of g n) \<and> n \<le> m)"
proof -
  obtain a s where n: "n = (a, s)" by (cases n)
  obtain b where scan: "foldl heavier None (nm_iter (streams g)) = Some (b, a, s)"
    using h n by (auto simp: heaviest_evictable_def)
  note facts = heavier_scan [of "nm_iter (streams g)", unfolded scan, simplified]
  then have b: "0 < b" "evictable_bytes (st_of g n) = b"
    by (auto simp: nm_iter_get [OF ok] n st_of_def state_def)
  then show "0 < evictable_bytes (st_of g n)" by simp
  obtain a' s' where m: "m = (a', s')" by (cases m)
  show "evictable_bytes (st_of g m) < evictable_bytes (st_of g n) \<or>
      (evictable_bytes (st_of g m) = evictable_bytes (st_of g n) \<and> n \<le> m)"
  proof (cases "nm_get (streams g) a' s'")
    case None
    with b show ?thesis by (simp add: m st_of_def state_def)
  next
    case (Some st)
    then have "(a', s', st) \<in> set (nm_iter (streams g))" by (simp add: nm_iter_get [OF ok])
    with facts have "evictable_bytes st < b \<or> evictable_bytes st = b \<and> (a, s) \<le> (a', s')" by blast
    with b Some show ?thesis by (simp add: m n st_of_def state_def)
  qed
qed

lemma heaviest_evictable_None:
  assumes ok: "nm_ok (streams g)" and h: "heaviest_evictable g = None"
  shows "evictable_bytes (st_of g n) = 0"
proof -
  obtain a s where n: "n = (a, s)" by (cases n)
  have "foldl heavier None (nm_iter (streams g)) = None"
    using h by (simp add: heaviest_evictable_def)
  with heavier_scan [of "nm_iter (streams g)"]
  have all: "\<forall>(a, s, st) \<in> set (nm_iter (streams g)). evictable_bytes st = 0" by simp
  show ?thesis
  proof (cases "nm_get (streams g) a s")
    case (Some st)
    then have "(a, s, st) \<in> set (nm_iter (streams g))" by (simp add: nm_iter_get [OF ok])
    with all Some show ?thesis by (auto simp: n st_of_def state_def)
  qed (simp add: n st_of_def state_def)
qed

section \<open>Making room\<close>

lemma position_Some: "position p xs = Some i \<Longrightarrow> i < length xs \<and> p (xs ! i)"
  by (induction xs arbitrary: i) (auto split: if_splits)

lemma position_None: "position p xs = None \<longleftrightarrow> (\<forall>x \<in> set xs. \<not> p x)"
  by (induction xs) auto

text \<open>Removing one entry with the book-keeping of \<open>account_removed\<close>.\<close>

lemma remove_one_wf:
  assumes wf: "lq_wf g" and es: "entries g = xs @ e # ys"
  defines "g' \<equiv> account_removed e (g\<lparr>entries := xs @ ys\<rparr>)"
  shows "lq_wf g'"
    and "\<And>n. awaiting_since (st_of g' n) = awaiting_since (st_of g n) \<and>
             needs_reinit (st_of g' n) = needs_reinit (st_of g n)"
proof -
  have "books (add_mset e (mset (xs @ ys))) (g\<lparr>entries := xs @ ys\<rparr>)"
    using wf es by (simp add: lq_wf_def)
  note b = books_account_removed [OF this, folded g'_def]
  then show obs: "awaiting_since (st_of g' n) = awaiting_since (st_of g n) \<and>
      needs_reinit (st_of g' n) = needs_reinit (st_of g n)" for n
    by (auto split: option.splits)
  have "evictable_bytes (st_of g' n) \<le> evictable_bytes (st_of g n)" for n
    using conjunct2 [OF b] by (auto split: option.splits)
  then have "evictable_bytes (st_of g' n) = 0" if "awaiting_since (st_of g n) \<noteq> None" for n
    using wf that by (metis le_zero_eq lq_wf_def)
  moreover have "nm_ok (streams g')" "entries g' = xs @ ys" using wf by (simp_all add: g'_def lq_wf_def)
  ultimately show "lq_wf g'"
    using wf b obs es by (auto simp: lq_wf_def)
qed

lemma subseq_set: "subseq xs ys \<Longrightarrow> set xs \<subseteq> set ys"
  by (induction rule: list_emb.induct) auto

lemma sheds_set: "sheds p gs gs' \<Longrightarrow> set (entries (fst gs')) \<subseteq> set (entries (fst gs))"
  by (simp add: sheds_def subseq_set)

text \<open>The frames of class \<open>Critical\<close> of one stream.\<close>

definition critical_of :: "string \<times> string \<Rightarrow> entry \<Rightarrow> bool" where
  "critical_of n e \<longleftrightarrow> e_kind e = Media Critical \<and> entry_names e = Some n"

lemma evict_critical_wf:
  fixes s :: live_queue_stats
  assumes wf: "lq_wf g" and pos: "position (\<lambda>e. e_kind e = Media Critical) (entries g) = Some idx"
  defines "gs' \<equiv> evict_critical idx (g, s)"
  shows "lq_wf (fst gs')" and "sheds is_media (g, s) gs'"
    and "length (entries (fst gs')) < length (entries g)"
    and "filter (critical_of n) (entries (fst gs')) \<noteq> filter (critical_of n) (entries g) \<Longrightarrow>
         needs_reinit (st_of (fst gs') n) \<and> reinit_dirty (fst gs')"
    and "set (entries (fst gs')) \<subseteq> set (entries g)"
proof -
  obtain xs e ys where parts: "take idx (entries g) = xs" "entries g ! idx = e" "drop (Suc idx) (entries g) = ys"
    by blast
  from position_Some [OF pos] have idx: "idx < length (entries g)" and crit: "e_kind e = Media Critical"
    by (simp_all add: parts)
  have es: "entries g = xs @ e # ys" using id_take_nth_drop [OF idx] by (simp add: parts)
  have "entry_ok e" using wf by (simp add: lq_wf_def es)
  then obtain m where names: "entry_names e = Some m"
    using crit by (cases "e_msg e") (auto simp: entry_ok_def entry_names_def)
  obtain a b where m: "m = (a, b)" by (cases m)
  let ?g1 = "(state_mut a b (\<lambda>st. st\<lparr>needs_reinit := True\<rparr>) g)\<lparr>reinit_dirty := True\<rparr>"
  have swap: "(state_mut a b f (g\<lparr>entries := zs\<rparr>))\<lparr>reinit_dirty := True\<rparr> =
      ((state_mut a b f g)\<lparr>reinit_dirty := True\<rparr>)\<lparr>entries := zs\<rparr>" for f zs
    by (simp add: state_mut_def Let_def)
  have gs': "gs' = (account_removed e (?g1\<lparr>entries := xs @ ys\<rparr>), count_drop (e_kind e) Pressure s)"
    using idx names by (simp add: gs'_def evict_critical_def parts m swap Let_def)
  have "awaiting_since (st_of g (a, b)) \<noteq> None \<Longrightarrow> evictable_bytes (st_of g (a, b)) = 0"
    using wf by (simp add: lq_wf_def)
  then have wf1: "lq_wf ?g1"
    unfolding lq_wf_reinit_dirty by (intro lq_wf_state_mut wf) simp_all
  have es1: "entries ?g1 = xs @ e # ys" using es by simp
  note one = remove_one_wf [OF wf1 es1]
  show "lq_wf (fst gs')" using one(1) by (simp add: gs')
  have ent: "entries (fst gs') = xs @ ys" by (simp add: gs')
  show "length (entries (fst gs')) < length (entries g)" "set (entries (fst gs')) \<subseteq> set (entries g)"
    by (auto simp: ent es)
  have sub: "subseq (xs @ ys) (xs @ e # ys)" by (intro list_emb_append_mono) auto
  have "\<exists>e. is_media e \<and> \<not> is_evictable e" using crit by (intro exI [of _ e]) simp
  then show "sheds is_media (g, s) gs'"
    using one(2) crit sub by (auto simp: sheds_def gs' lq_simps es)
  have "filter (critical_of n) (xs @ ys) = filter (critical_of n) (xs @ e # ys)" if "n \<noteq> m"
    using that names by (simp add: critical_of_def)
  then show "filter (critical_of n) (entries (fst gs')) \<noteq> filter (critical_of n) (entries g) \<Longrightarrow>
      needs_reinit (st_of (fst gs') n) \<and> reinit_dirty (fst gs')"
    using one(2) ent es by (cases "n = m") (auto simp: gs' lq_simps m)
qed

text \<open>What \<open>make_room\<close> promises about its result.\<close>

definition room_made :: "nat \<Rightarrow> live_queue_config \<Rightarrow> inner \<times> live_queue_stats \<Rightarrow> bool \<times> inner \<times> live_queue_stats \<Rightarrow> bool" where
  "room_made sz cfg gs res \<longleftrightarrow> (case res of (fits, gs') \<Rightarrow>
     lq_wf (fst gs') \<and> sheds is_media gs gs' \<and> fits = has_room sz cfg (fst gs') \<and>
     (\<not> fits \<longrightarrow> (\<forall>e \<in> set (entries (fst gs')). \<not> is_media e)) \<and>
     (filter (\<lambda>e. \<not> is_evictable e) (entries (fst gs')) = filter (\<lambda>e. \<not> is_evictable e) (entries (fst gs)) \<or>
      (\<forall>e \<in> set (entries (fst gs')). \<not> is_evictable e)) \<and>
     (\<forall>n. filter (critical_of n) (entries (fst gs')) \<noteq> filter (critical_of n) (entries (fst gs)) \<longrightarrow>
          needs_reinit (st_of (fst gs') n) \<and> reinit_dirty (fst gs')))"

lemma critical_not_evictable: "critical_of n e \<Longrightarrow> \<not> is_evictable e"
  by (auto simp: critical_of_def)

lemma filter_critical:
  "filter (\<lambda>e. \<not> is_evictable e) xs = filter (\<lambda>e. \<not> is_evictable e) ys \<Longrightarrow>
   filter (critical_of n) xs = filter (critical_of n) ys"
proof -
  have eq: "filter (critical_of n) zs = filter (critical_of n) (filter (\<lambda>e. \<not> is_evictable e) zs)" for zs
    by (auto intro!: filter_cong dest: critical_not_evictable)
  assume "filter (\<lambda>e. \<not> is_evictable e) xs = filter (\<lambda>e. \<not> is_evictable e) ys"
  then show ?thesis by (metis eq)
qed

lemma room_made_purge:
  assumes shed: "sheds is_evictable gs gs1" and made: "room_made sz cfg gs1 res"
  shows "room_made sz cfg gs res"
proof -
  obtain fits gs' where res: "res = (fits, gs')" by (cases res)
  have f: "filter (\<lambda>e. \<not> is_evictable e) (entries (fst gs1)) = filter (\<lambda>e. \<not> is_evictable e) (entries (fst gs))"
    using shed by (simp add: sheds_def)
  have "is_media e" if "is_evictable e" for e using that by auto
  from sheds_mono [OF shed this] have "sheds is_media gs gs1" .
  from sheds_trans [OF this, of gs'] made have "sheds is_media gs gs'"
    unfolding room_made_def res prod.case by blast
  with made show ?thesis
    unfolding room_made_def res prod.case f filter_critical [OF f] by blast
qed

lemma no_evictable_iff:
  assumes wf: "lq_wf g"
  shows "(\<forall>n. evictable_bytes (st_of g n) = 0) \<longleftrightarrow> (\<forall>e \<in> set (entries g). \<not> is_evictable e)"
proof -
  have ok: "\<forall>e \<in> set (entries g). entry_ok e" using wf by (simp add: lq_wf_def)
  have "(\<exists>n. 0 < evictable_bytes (st_of g n)) \<longleftrightarrow> (\<exists>e \<in> set (entries g). is_evictable e)"
    using ok entry_ok_evictable
    by (auto simp: st_evictable [OF wf] evictable_in_pos hits_def split_paired_Ex) blast
  then show ?thesis by auto
qed

lemma room_made_evict:
  assumes wf: "lq_wf g" and none: "\<forall>e \<in> set (entries g). \<not> is_evictable e"
    and pos: "position (\<lambda>e. e_kind e = Media Critical) (entries g) = Some idx"
    and made: "room_made sz cfg (evict_critical idx (g, s)) res"
  shows "room_made sz cfg (g, s) res"
proof -
  obtain fits gs' where res: "res = (fits, gs')" by (cases res)
  note ev = evict_critical_wf [OF wf pos, where s = s]
  have sh: "sheds is_media (evict_critical idx (g, s)) gs'" using made by (simp add: room_made_def res)
  have "set (entries (fst gs')) \<subseteq> set (entries g)"
    using sheds_set [OF sh] ev(5) by simp
  with none have "\<forall>e \<in> set (entries (fst gs')). \<not> is_evictable e" by blast
  moreover have "needs_reinit (st_of (fst gs') n) \<and> reinit_dirty (fst gs')"
    if "filter (critical_of n) (entries (fst gs')) \<noteq> filter (critical_of n) (entries g)" for n
  proof (cases "filter (critical_of n) (entries (fst gs')) = filter (critical_of n) (entries (fst (evict_critical idx (g, s))))")
    case True
    with that ev(4) [of n] sh show ?thesis unfolding sheds_def by simp
  next
    case False
    with made show ?thesis unfolding room_made_def res prod.case by blast
  qed
  ultimately show ?thesis
    using made sheds_trans [OF ev(2) sh] unfolding room_made_def res prod.case fst_conv by blast
qed

theorem make_room_total:
  "lq_wf g \<Longrightarrow> \<exists>res. make_room sz now cfg (g, s) = Some res \<and> room_made sz cfg (g, s) res"
proof (induction "length (entries g)" arbitrary: g s rule: less_induct)
  case less
  have ok: "nm_ok (streams g)" using less.prems by (simp add: lq_wf_def)
  consider (fits) "has_room sz cfg g"
    | (purge) a b where "\<not> has_room sz cfg g" "heaviest_evictable g = Some (a, b)"
    | (evict) idx where "\<not> has_room sz cfg g" "heaviest_evictable g = None"
        "position (\<lambda>e. e_kind e = Media Critical) (entries g) = Some idx"
    | (fail) "\<not> has_room sz cfg g" "heaviest_evictable g = None"
        "position (\<lambda>e. e_kind e = Media Critical) (entries g) = None"
    by (metis not_None_eq surj_pair)
  then show ?case
  proof cases
    case fits
    with less.prems show ?thesis by (subst make_room.simps) (simp add: room_made_def)
  next
    case purge
    obtain g1 s1 where p: "purge_stream a b Pressure (g, s) = (g1, s1)" by fastforce
    note facts = purge_stream_wf [OF less.prems, where a = a and b = b and rsn = Pressure and s = s, unfolded p fst_conv]
    let ?g2 = "state_mut a b (await_from now) g1"
    have wf2: "lq_wf ?g2" using facts by (intro lq_wf_state_mut) simp_all
    have "\<exists>e \<in> set (entries g). hits a b e"
      using heaviest_evictable_Some(1) [OF ok purge(2)] less.prems
      by (simp add: st_evictable [OF less.prems] evictable_in_pos lq_wf_def)
    then have "length (entries ?g2) < length (entries g)"
      by (auto simp: facts(3) intro: length_filter_less)
    from less.hyps [OF this wf2] obtain res
      where r: "make_room sz now cfg (?g2, s1) = Some res" "room_made sz cfg (?g2, s1) res" by blast
    have "sheds is_evictable (g, s) (?g2, s1)" using facts(2) by (auto intro: sheds_state_mut)
    from room_made_purge [OF this r(2)] r(1) purge p show ?thesis
      by (subst make_room.simps) (auto simp: purge_and_await_def)
  next
    case evict
    obtain g1 s1 where p: "evict_critical idx (g, s) = (g1, s1)" by fastforce
    note facts = evict_critical_wf [OF less.prems evict(3), where s = s, unfolded p fst_conv]
    from less.hyps [OF facts(3) facts(1)] obtain res
      where r: "make_room sz now cfg (g1, s1) = Some res" "room_made sz cfg (g1, s1) res" by blast
    have "\<forall>e \<in> set (entries g). \<not> is_evictable e"
      using no_evictable_iff [OF less.prems] heaviest_evictable_None [OF ok evict(2)] by blast
    from room_made_evict [OF less.prems this evict(3)] r p evict show ?thesis
      by (subst make_room.simps) auto
  next
    case fail
    have "\<forall>e \<in> set (entries g). \<not> is_evictable e"
      using no_evictable_iff [OF less.prems] heaviest_evictable_None [OF ok fail(2)] by blast
    moreover have "is_evictable e \<or> e_kind e = Media Critical" if "is_media e" for e
      using that by (cases "e_kind e") auto
    ultimately have "\<forall>e \<in> set (entries g). \<not> is_media e"
      using fail(3) by (auto simp: position_None)
    with fail less.prems show ?thesis by (subst make_room.simps) (simp add: room_made_def)
  qed
qed

end
