(* ===== verification/Live_Queue_Run.thy ===== *)
theory Live_Queue_Run
  imports Live_Queue_Ops
begin

text \<open>
  The public operations of the live queue: the queue invariant with the configured bounds, what a
  push and a pop do to the content and the counters, and the remaining operations.
\<close>

section \<open>The gate for streams that wait for a resync point\<close>

lemma frame_names_media: "frame_names msg = Some n \<longleftrightarrow> (\<exists>h. kind_of msg = Media h) \<and> frame_names msg = Some n"
  by (cases msg) auto

lemma resync_gate_cases:
  assumes wf: "lq_wf g"
  obtains (refused) a b where "resync_gate early msg (g, s) = (None, g, count_drop (kind_of msg) Pressure s)"
      "kind_of msg = Media Droppable" "frame_names msg = Some (a, b)" "is_awaiting g a b"
  | (passed) g' s' where "resync_gate early msg (g, s) = (Some (g', s'), g', s')"
      "lq_wf g'" "sheds is_evictable (g, s) (g', s')"
      "\<And>n. frame_names msg = Some n \<Longrightarrow> evictable (kind_of msg) \<Longrightarrow> awaiting_since (st_of g' n) = None"
      "\<not> early \<Longrightarrow> entries g' = entries g \<and> bytes_queued g' = bytes_queued g \<and> reinit_dirty g' = reinit_dirty g"
proof -
  consider (other) "frame_names msg = None" "kind_of msg = Control"
    | (media) a b h where "frame_names msg = Some (a, b)" "kind_of msg = Media h"
    by (cases msg) auto
  then show ?thesis
  proof cases
    case other
    with wf show ?thesis by (intro passed [of g s]) (simp_all add: resync_gate_def)
  next
    case media
    show ?thesis
    proof (cases "is_awaiting g a b")
      case False
      with wf media show ?thesis
        by (intro passed [of g s]) (auto simp: resync_gate_def is_awaiting_st_of)
    next
      case True
      show ?thesis
      proof (cases h)
        case Droppable
        with True media show ?thesis by (intro refused) (simp_all add: resync_gate_def)
      next
        case Critical
        with wf True media show ?thesis by (intro passed [of g s]) (simp_all add: resync_gate_def)
      next
        case ResyncPoint
        obtain g1 s1 where p: "(if early then purge_stream a b Stale (g, s) else (g, s)) = (g1, s1)"
          by fastforce
        have wf1: "lq_wf g1" and sh: "sheds is_evictable (g, s) (g1, s1)"
          using p wf purge_stream_wf(1,2) [OF wf, where a = a and b = b and rsn = Stale and s = s] by (auto split: if_splits)
        let ?g = "with_state a b clear_await g1" and ?s = "s1\<lparr>resync_count := resync_count s1 + 1\<rparr>"
        show ?thesis
        proof (rule passed [of ?g ?s])
          show "resync_gate early msg (g, s) = (Some (?g, ?s), ?g, ?s)"
            using True media ResyncPoint p by (simp add: resync_gate_def Let_def)
          show "lq_wf ?g" using wf1 by (rule lq_wf_clear_await)
          show "sheds is_evictable (g, s) (?g, ?s)"
            using sh by (auto intro!: sheds_clear_await intro: sheds_stats)
        qed (use media p in \<open>auto simp: lq_simps\<close>)
      qed
    qed
  qed
qed

section \<open>Appending\<close>

lemma st_of_cong: "streams g = streams g' \<Longrightarrow> st_of g = st_of g'"
  by (simp add: st_of_def state_def)

text \<open>What the addition of a message does to the state of its stream.\<close>

lemma books_add:
  assumes "books M g" and n: "entry_names e = Some (a, b)" and sz: "bytes_queued g' = bytes_queued g + e_size e"
    and st: "st_of g' = (st_of g)((a, b) := st')"
    and q: "queued_frames st' = queued_frames (st_of g (a, b)) + 1"
    and ev: "evictable_bytes st' = evictable_bytes (st_of g (a, b)) + (if is_evictable e then e_size e else 0)"
  shows "books (add_mset e M) g'"
  using assms by (auto simp: books_def frames_in_add evictable_in_add)

lemma enqueue_wf:
  assumes wf: "lq_wf g"
    and gate: "\<forall>n. frame_names msg = Some n \<and> evictable (kind_of msg) \<longrightarrow> awaiting_since (st_of g n) = None"
    and res: "enqueue msg now g = (g', reinit)"
  defines "e \<equiv> \<lparr>e_msg = msg, e_size = approx_size msg, e_at = now, e_kind = kind_of msg\<rparr>"
  shows "lq_wf g'" and "entries g' = entries g @ [e]" and "bytes_queued g' = bytes_queued g + approx_size msg"
    and "\<And>n. needs_reinit (st_of g' n) = needs_reinit (st_of g n)"
    and "closed g' = closed g" and "reinit_dirty g' = reinit_dirty g"
proof -
  have ok: "entry_ok e" by (simp add: e_def entry_ok_def)
  have all: "\<forall>e \<in> set (entries g). entry_ok e" "nm_ok (streams g)" "books (mset (entries g)) g"
    using wf by (simp_all add: lq_wf_def)
  show ent: "entries g' = entries g @ [e]" and byt: "bytes_queued g' = bytes_queued g + approx_size msg"
    and cl: "closed g' = closed g" and rd: "reinit_dirty g' = reinit_dirty g"
    using res by (auto simp: enqueue_def Let_def e_def split: option.splits prod.splits)
  have "lq_wf g' \<and> (\<forall>n. needs_reinit (st_of g' n) = needs_reinit (st_of g n))"
  proof (cases "frame_names msg")
    case None
    then have "kind_of msg = Control" by (cases msg) auto
    then have "books (add_mset e (mset (entries g))) g'" "st_of g' = st_of g" "streams g' = streams g"
      using res None all(3)
      by (auto simp: enqueue_def Let_def e_def entry_names_def books_def frames_in_add evictable_in_add)
    with wf ent ok show ?thesis by (auto simp: lq_wf_def)
  next
    case (Some n)
    obtain a b where n: "n = (a, b)" by (cases n)
    let ?f = "\<lambda>st. let st1 = st\<lparr>queued_frames := queued_frames st + 1\<rparr>
        in if evictable (kind_of msg) then st1\<lparr>evictable_bytes := evictable_bytes st1 + approx_size msg\<rparr> else st1"
    have g': "streams g' = streams (state_mut a b ?f g)"
      using res Some by (auto simp: enqueue_def Let_def n)
    have st: "st_of g' = (st_of g)((a, b) := ?f (st_of g (a, b)))"
      unfolding st_of_cong [OF g'] by (rule st_of_state_mut)
    have "books (add_mset e (mset (entries g))) g'"
      by (rule books_add [OF all(3) _ _ st]) (use Some n byt in \<open>simp_all add: e_def entry_names_def Let_def\<close>)
    moreover have "nm_ok (streams g')" using all(2) g' by simp
    moreover have "awaiting_since (st_of g' m) \<noteq> None \<Longrightarrow> evictable_bytes (st_of g' m) = 0" for m
      using wf gate Some unfolding st by (cases "m = n") (auto simp: n lq_wf_def Let_def split: if_splits)
    ultimately show ?thesis
      using ent ok all(1) unfolding lq_wf_def st by (auto simp: Let_def)
  qed
  then show "lq_wf g'" and "\<And>n. needs_reinit (st_of g' n) = needs_reinit (st_of g n)" by auto
qed

section \<open>The invariant of the queue\<close>

definition lq_inv :: "live_media_queue \<Rightarrow> bool" where
  "lq_inv q \<longleftrightarrow> lq_wf (lq_inner q) \<and> \<not> reinit_dirty (lq_inner q) \<and>
     length (entries (lq_inner q)) \<le> max_messages (lq_cfg q) \<and>
     bytes_queued (lq_inner q) \<le> max_bytes (lq_cfg q) \<and>
     (closed (lq_inner q) \<longrightarrow> entries (lq_inner q) = []) \<and>
     (\<forall>n. needs_reinit (st_of (lq_inner q) n) \<longrightarrow> reinit_pending q)"

lemma wf_bytes: "lq_wf g \<Longrightarrow> bytes_queued g = sum_list (map e_size (entries g))"
  by (simp add: lq_wf_def books_def flip: mset_map sum_mset_sum_list)

lemma subseq_sum_list: "subseq xs ys \<Longrightarrow> sum_list (map f xs) \<le> sum_list (map (f :: _ \<Rightarrow> nat) ys)"
  by (induction rule: list_emb.induct) auto

lemma sheds_bounds:
  assumes "sheds p (g, s) (g', s')" "lq_wf g" "lq_wf g'"
  shows "length (entries g') \<le> length (entries g)" "bytes_queued g' \<le> bytes_queued g"
  using assms by (auto simp: sheds_def wf_bytes intro: subseq_sum_list list_emb_length)

text \<open>The bounds after a purely shedding operation.\<close>

lemma lq_inv_sheds:
  assumes inv: "lq_inv q" and sh: "sheds p (lq_inner q, s) (g, s')" and wf: "lq_wf g"
    and rp: "reinit_pending q \<or> reinit_dirty g \<longrightarrow> rp"
  shows "lq_inv (q\<lparr>lq_inner := g\<lparr>reinit_dirty := False\<rparr>, lq_stats := s'', reinit_pending := rp\<rparr>)"
proof -
  have "lq_wf (lq_inner q)" using inv by (simp add: lq_inv_def)
  note le = sheds_bounds [OF sh this wf]
  have "closed g \<longrightarrow> entries g = []" using sh inv by (auto simp: sheds_def lq_inv_def)
  moreover have "needs_reinit (st_of g n) \<longrightarrow> rp" for n
    using sh inv rp by (auto simp: sheds_def lq_inv_def)
  ultimately show ?thesis
    using inv wf le by (auto simp: lq_inv_def)
qed

lemma not_dirty_simp: "\<not> reinit_dirty g \<Longrightarrow> g\<lparr>reinit_dirty := False\<rparr> = g"
  by simp

lemma age_release:
  fixes now :: instant and cfg :: live_queue_config
  assumes "lq_wf (fst gs)"
  defines "gs' \<equiv> release_expired_waits now cfg (enforce_age now cfg gs)"
  shows "lq_wf (fst gs')" "sheds is_evictable gs gs'"
proof -
  from enforce_age_wf [OF assms(1), of now cfg]
  have wf: "lq_wf (fst (enforce_age now cfg gs))" and sh: "sheds is_evictable gs (enforce_age now cfg gs)"
    by simp_all
  note rel = release_expired_waits_wf [OF wf, of now cfg]
  then show "lq_wf (fst gs')" by (simp add: gs'_def)
  show "sheds is_evictable gs gs'"
    unfolding gs'_def using sheds_trans [OF sh sheds_mono [OF conjunct1 [OF rel]]] by simp
qed

section \<open>Push\<close>

abbreviation queued :: "live_media_queue \<Rightarrow> entry list" where
  "queued q \<equiv> entries (lq_inner q)"

definition new_entry :: "media_message \<Rightarrow> instant \<Rightarrow> entry" where
  "new_entry msg now = \<lparr>e_msg = msg, e_size = approx_size msg, e_at = now, e_kind = kind_of msg\<rparr>"

text \<open>The frames a push adds to the queue or to the drop counter.\<close>

definition push_cost :: "media_message \<Rightarrow> push_result \<Rightarrow> u64" where
  "push_cost msg r =
     (if r = Dropped Closed \<or> (r = Dropped Full \<and> kind_of msg = Control) then 0 else 1)"

text \<open>
  What a push does: old entries may be shed (media only, in order, critical frames only once no
  evictable one is left, and then with a request for the init cache), the new one is appended
  when the result is \<open>Queued\<close>, and the counters account for the difference.
\<close>

definition push_effect ::
    "media_message \<Rightarrow> instant \<Rightarrow> push_result \<Rightarrow> live_media_queue \<Rightarrow> live_media_queue \<Rightarrow> bool" where
  "push_effect msg now r q q' \<longleftrightarrow> (\<exists>old.
     queued q' = old @ (if r = Queued then [new_entry msg now] else []) \<and>
     subseq old (queued q) \<and>
     filter (\<lambda>e. \<not> is_media e) old = filter (\<lambda>e. \<not> is_media e) (queued q) \<and>
     (filter (\<lambda>e. \<not> is_evictable e) old = filter (\<lambda>e. \<not> is_evictable e) (queued q) \<or>
      (\<forall>e \<in> set old. \<not> is_evictable e)) \<and>
     (\<forall>n. filter (critical_of n) old \<noteq> filter (critical_of n) (queued q) \<longrightarrow>
          needs_reinit (st_of (lq_inner q') n) \<and> reinit_pending q') \<and>
     (r = Dropped Full \<longrightarrow> (\<forall>e \<in> set old. \<not> is_media e))) \<and>
     of_nat (length (queued q')) + dropped_total (lq_stats q') =
       of_nat (length (queued q)) + dropped_total (lq_stats q) + push_cost msg r \<and>
     drop_gap (lq_stats q') = drop_gap (lq_stats q) \<and>
     closed (lq_inner q') = closed (lq_inner q) \<and> lq_cfg q' = lq_cfg q"

lemma note_high_water_counts [simp]:
  "dropped_total (note_high_water g now s) = dropped_total s" "drop_gap (note_high_water g now s) = drop_gap s"
  by (auto simp: note_high_water_def Let_def split: list.splits)

text \<open>Shedding with nothing but evictable entries, as an effect with no new entry.\<close>

lemma push_effect_shed:
  assumes inv: "lq_inv q" and sh: "sheds is_evictable (lq_inner q, lq_stats q) (g, s)"
    and r: "r = Dropped AwaitingResync"
  shows "push_effect msg now r q (q\<lparr>lq_inner := g, lq_stats := count_drop k rsn s\<rparr>)"
proof -
  have f: "filter (\<lambda>e. \<not> is_evictable e) (entries g) = filter (\<lambda>e. \<not> is_evictable e) (queued q)"
    using sh by (simp add: sheds_def)
  have "sheds is_media (lq_inner q, lq_stats q) (g, s)"
    by (rule sheds_mono [OF sh]) auto
  with sh f filter_critical [OF f] r show ?thesis
    unfolding push_effect_def push_cost_def
    by (intro conjI exI [of _ "entries g"]) (simp_all add: sheds_def)
qed

lemma room_bounds:
  assumes "has_room sz cfg g" "max_bytes cfg < usize_max"
  shows "length (entries g) < max_messages cfg" "bytes_queued g + sz \<le> max_bytes cfg"
  using assms usize_saturating_add_le by (auto simp: has_room_def)

lemma push_effect_room:
  assumes made: "room_made sz cfg (lq_inner q, lq_stats q) (fits, g2, s2)"
    and ent: "entries g' = entries g2 @ (if r = Queued then [new_entry msg now] else [])"
    and nr: "\<And>n. needs_reinit (st_of g2 n) \<Longrightarrow> needs_reinit (st_of g' n)"
    and cl: "closed g' = closed g2" and gap: "drop_gap s' = drop_gap s2"
    and cnt: "of_nat (length (entries g')) + dropped_total s' =
        of_nat (length (entries g2)) + dropped_total s2 + push_cost msg r"
    and rp: "reinit_dirty g2 \<Longrightarrow> rp" and full: "r = Dropped Full \<Longrightarrow> \<not> fits"
  shows "push_effect msg now r q (q\<lparr>lq_inner := g', lq_stats := s', reinit_pending := rp\<rparr>)"
proof -
  have sh: "sheds is_media (lq_inner q, lq_stats q) (g2, s2)"
    and rules: "filter (\<lambda>e. \<not> is_evictable e) (entries g2) = filter (\<lambda>e. \<not> is_evictable e) (queued q) \<or>
        (\<forall>e \<in> set (entries g2). \<not> is_evictable e)"
      "filter (critical_of n) (entries g2) \<noteq> filter (critical_of n) (queued q) \<Longrightarrow>
        needs_reinit (st_of g2 n) \<and> reinit_dirty g2"
      "\<not> fits \<Longrightarrow> \<forall>e \<in> set (entries g2). \<not> is_media e" for n
    using made unfolding room_made_def prod.case fst_conv by blast+
  have cnt': "of_nat (length (entries g2)) + dropped_total s2 =
      of_nat (length (queued q)) + dropped_total (lq_stats q)"
    using sh by (simp add: sheds_def)
  have sub: "subseq (entries g2) (queued q)"
    "filter (\<lambda>e. \<not> is_media e) (entries g2) = filter (\<lambda>e. \<not> is_media e) (queued q)"
    "closed g2 = closed (lq_inner q)" "drop_gap s2 = drop_gap (lq_stats q)"
    using sh unfolding sheds_def fst_conv snd_conv by blast+
  have crit: "needs_reinit (st_of g' n) \<and> rp"
    if "filter (critical_of n) (entries g2) \<noteq> filter (critical_of n) (queued q)" for n
    using rules(2) [OF that] nr rp by blast
  let ?q = "q\<lparr>lq_inner := g', lq_stats := s', reinit_pending := rp\<rparr>"
  have sel: "lq_inner ?q = g'" "lq_stats ?q = s'" "reinit_pending ?q = rp" "lq_cfg ?q = lq_cfg q" by simp_all
  show ?thesis
    unfolding push_effect_def sel cnt cnt' gap cl sub(3,4)
    using ent sub(1,2) rules(1,3) crit full by blast
qed

lemma resync_gate_passed:
  assumes wf: "lq_wf g" and gate: "resync_gate early msg (g, s) = (Some (g', s'), gs)"
  shows "lq_wf g'" "sheds is_evictable (g, s) (g', s')"
    and "frame_names msg = Some n \<Longrightarrow> evictable (kind_of msg) \<Longrightarrow> awaiting_since (st_of g' n) = None"
    and "\<not> early \<Longrightarrow> entries g' = entries g \<and> bytes_queued g' = bytes_queued g \<and> reinit_dirty g' = reinit_dirty g"
  by (rule resync_gate_cases [OF wf, of early msg s]; use gate in simp)+

lemma push_after_room:
  assumes inv: "lq_inv q" and cfg: "max_bytes (lq_cfg q) < usize_max" and opn: "\<not> closed (lq_inner q)"
    and made: "room_made (approx_size msg) (lq_cfg q) (lq_inner q, lq_stats q) (True, g2, s2)"
    and gate: "resync_gate False msg (g2\<lparr>reinit_dirty := False\<rparr>, s2) = (Some (g4, s4), gs)"
    and enq: "enqueue msg now g4 = (g5, reinit)"
    and rp: "rp \<longleftrightarrow> (reinit_pending q \<or> reinit_dirty g2) \<or> reinit"
  shows "lq_inv (q\<lparr>lq_inner := g5, lq_stats := note_high_water g5 now s4, reinit_pending := rp\<rparr>)"
    and "push_effect msg now Queued q
           (q\<lparr>lq_inner := g5, lq_stats := note_high_water g5 now s4, reinit_pending := rp\<rparr>)"
proof -
  let ?g3 = "g2\<lparr>reinit_dirty := False\<rparr>"
  have wf2: "lq_wf g2" and sh: "sheds is_media (lq_inner q, lq_stats q) (g2, s2)"
    and room: "has_room (approx_size msg) (lq_cfg q) g2"
    using made by (simp_all add: room_made_def)
  have wf3: "lq_wf ?g3" using wf2 by simp
  note passed = resync_gate_passed [OF wf3 gate]
  have same: "entries g4 = entries g2" "bytes_queued g4 = bytes_queued g2" "\<not> reinit_dirty g4"
    using passed(4) by simp_all
  have aw: "\<forall>n. frame_names msg = Some n \<and> evictable (kind_of msg) \<longrightarrow> awaiting_since (st_of g4 n) = None"
    using passed(3) by blast
  note e5 = enqueue_wf [OF passed(1) aw enq]
  have nr: "needs_reinit (st_of g5 n) = needs_reinit (st_of g2 n)" for n
    using passed(2) same(3) unfolding sheds_def e5(4) fst_conv st_of_entries by blast
  have cl: "closed g5 = closed g2" "closed g2 = closed (lq_inner q)"
    using passed(2) sh by (simp_all add: sheds_def e5(5))
  have "needs_reinit (st_of g5 n) \<Longrightarrow> rp" for n
    using sh inv unfolding nr sheds_def lq_inv_def rp fst_conv by blast
  with e5 same cl opn room_bounds [OF room cfg]
  show "lq_inv (q\<lparr>lq_inner := g5, lq_stats := note_high_water g5 now s4, reinit_pending := rp\<rparr>)"
    by (simp add: lq_inv_def Suc_le_eq) 
  show "push_effect msg now Queued q
      (q\<lparr>lq_inner := g5, lq_stats := note_high_water g5 now s4, reinit_pending := rp\<rparr>)"
  proof (rule push_effect_room [OF made])
    show "drop_gap (note_high_water g5 now s4) = drop_gap s2" using passed(2) by (simp add: sheds_def)
    show "of_nat (length (entries g5)) + dropped_total (note_high_water g5 now s4) =
        of_nat (length (entries g2)) + dropped_total s2 + push_cost msg Queued"
      using passed(2) by (simp add: sheds_def e5(2) same push_cost_def)
  qed (use e5(2) same cl rp nr in \<open>simp_all add: new_entry_def\<close>)
qed

lemma push_effect_same:
  "queued q' = queued q \<Longrightarrow> lq_cfg q' = lq_cfg q \<Longrightarrow> closed (lq_inner q') = closed (lq_inner q) \<Longrightarrow>
   drop_gap (lq_stats q') = drop_gap (lq_stats q) \<Longrightarrow>
   dropped_total (lq_stats q') = dropped_total (lq_stats q) + push_cost msg r \<Longrightarrow>
   r = Dropped Closed \<or> r = Dropped Oversized \<Longrightarrow> push_effect msg now r q q'"
  unfolding push_effect_def by (intro conjI exI [of _ "queued q"]) auto

lemma room_made_full:
  assumes inv: "lq_inv q" and made: "room_made sz (lq_cfg q) (lq_inner q, lq_stats q) (fits, g2, s2)"
    and r: "r = Dropped Full \<and> \<not> fits \<or> r = Dropped AwaitingResync"
    and s': "drop_gap s' = drop_gap s2" "dropped_total s' = dropped_total s2 + push_cost msg r"
    and rp: "rp \<longleftrightarrow> reinit_pending q \<or> reinit_dirty g2"
  defines "q' \<equiv> q\<lparr>lq_inner := g2\<lparr>reinit_dirty := False\<rparr>, lq_stats := s', reinit_pending := rp\<rparr>"
  shows "lq_inv q'" and "push_effect msg now r q q'"
proof -
  have wf2: "lq_wf g2" and sh: "sheds is_media (lq_inner q, lq_stats q) (g2, s2)"
    using made by (simp_all add: room_made_def)
  show "lq_inv q'" unfolding q'_def by (rule lq_inv_sheds [OF inv sh wf2]) (simp add: rp)
  show "push_effect msg now r q q'"
    unfolding q'_def by (rule push_effect_room [OF made]) (use r s' rp in auto)
qed

text \<open>The part of \<open>push_at\<close> behind the first gate.\<close>

lemma push_gated_ok:
  assumes inv: "lq_inv q" and cfg: "max_bytes (lq_cfg q) < usize_max" and opn: "\<not> closed (lq_inner q)"
    and small: "\<not> push_limit (lq_cfg q) (kind_of msg) < approx_size msg"
    and gs0: "release_expired_waits now (lq_cfg q) (enforce_age now (lq_cfg q) (lq_inner q, lq_stats q)) = gs0"
    and gate: "resync_gate True msg gs0 = (Some (g1, s1), gs1)"
    and wf1: "lq_wf g1" and sh1: "sheds is_evictable (lq_inner q, lq_stats q) (g1, s1)"
  shows "\<exists>r q'. push_at msg now q = Some (r, q') \<and> lq_inv q' \<and> push_effect msg now r q q'"
proof -
  from make_room_total [OF wf1, of "approx_size msg" now "lq_cfg q" s1] obtain fits g2 s2
    where mr: "make_room (approx_size msg) now (lq_cfg q) (g1, s1) = Some (fits, g2, s2)"
      and rm1: "room_made (approx_size msg) (lq_cfg q) (g1, s1) (fits, g2, s2)"
    by (metis prod.exhaust)
  have rm: "room_made (approx_size msg) (lq_cfg q) (lq_inner q, lq_stats q) (fits, g2, s2)"
    by (rule room_made_purge [OF sh1 rm1])
  note push = push_at_def Let_def opn small gs0 gate mr
  let ?rp = "reinit_pending q \<or> reinit_dirty g2"
  show ?thesis
  proof (cases fits)
    case False
    let ?s = "case kind_of msg of Media _ \<Rightarrow> count_drop (kind_of msg) Pressure s2 | Control \<Rightarrow> s2"
    have s: "drop_gap ?s = drop_gap s2" "dropped_total ?s = dropped_total s2 + push_cost msg (Dropped Full)"
      by (auto simp: push_cost_def split: kind.splits)
    have "lq_inv (q\<lparr>lq_inner := g2\<lparr>reinit_dirty := False\<rparr>, lq_stats := ?s, reinit_pending := ?rp\<rparr>)"
      "push_effect msg now (Dropped Full) q
         (q\<lparr>lq_inner := g2\<lparr>reinit_dirty := False\<rparr>, lq_stats := ?s, reinit_pending := ?rp\<rparr>)"
      using False by (auto intro!: room_made_full [OF inv rm _ s])
    with False show ?thesis by (simp add: push)
  next
    case True
    have wf3: "lq_wf (g2\<lparr>reinit_dirty := False\<rparr>)" using rm by (simp add: room_made_def)
    show ?thesis
    proof (rule resync_gate_cases [OF wf3, of False msg s2])
      let ?s = "count_drop (kind_of msg) Pressure s2"
      assume "resync_gate False msg (g2\<lparr>reinit_dirty := False\<rparr>, s2) = (None, g2\<lparr>reinit_dirty := False\<rparr>, ?s)"
      moreover have "lq_inv (q\<lparr>lq_inner := g2\<lparr>reinit_dirty := False\<rparr>, lq_stats := ?s, reinit_pending := ?rp\<rparr>)"
        "push_effect msg now (Dropped AwaitingResync) q
           (q\<lparr>lq_inner := g2\<lparr>reinit_dirty := False\<rparr>, lq_stats := ?s, reinit_pending := ?rp\<rparr>)"
        by (auto intro!: room_made_full [OF inv rm, of "Dropped AwaitingResync" _ msg] simp: push_cost_def)
      ultimately show ?thesis using True by (simp add: push)
    next
      fix g4 s4
      assume gate2: "resync_gate False msg (g2\<lparr>reinit_dirty := False\<rparr>, s2) = (Some (g4, s4), g4, s4)"
      obtain g5 reinit where enq: "enqueue msg now g4 = (g5, reinit)" by fastforce
      from push_after_room [OF inv cfg opn rm [unfolded True [THEN eqTrueI]] gate2 enq refl] True gate2 enq
      show ?thesis by (simp add: push)
    qed
  qed
qed

lemma push_at_ok:
  assumes inv: "lq_inv q" and cfg: "max_bytes (lq_cfg q) < usize_max"
  shows "\<exists>r q'. push_at msg now q = Some (r, q') \<and> lq_inv q' \<and> push_effect msg now r q q'"
proof -
  let ?cfg = "lq_cfg q" and ?sz = "approx_size msg" and ?base = "(lq_inner q, lq_stats q)"
  consider (closed) "closed (lq_inner q)"
    | (oversized) "\<not> closed (lq_inner q)" "push_limit ?cfg (kind_of msg) < ?sz"
    | (admitted) "\<not> closed (lq_inner q)" "\<not> push_limit ?cfg (kind_of msg) < ?sz" by blast
  then show ?thesis
  proof cases
    case closed
    with inv show ?thesis
      by (simp add: push_at_def Let_def) (simp add: push_effect_same push_cost_def)
  next
    case oversized
    let ?q = "q\<lparr>lq_stats := (lq_stats q)\<lparr>dropped_total := dropped_total (lq_stats q) + 1,
        oversized_dropped := oversized_dropped (lq_stats q) + 1\<rparr>\<rparr>"
    have "push_at msg now q = Some (Dropped Oversized, ?q)"
      using oversized by (simp add: push_at_def Let_def)
    moreover have "lq_inv ?q" using inv by (simp add: lq_inv_def)
    moreover have "push_effect msg now (Dropped Oversized) q ?q"
      by (rule push_effect_same) (simp_all add: push_cost_def drop_gap_def)
    ultimately show ?thesis by blast
  next
    case admitted
    have wf: "lq_wf (fst ?base)" using inv by (simp add: lq_inv_def)
    obtain g0 s0 where gs0: "release_expired_waits now ?cfg (enforce_age now ?cfg ?base) = (g0, s0)" by fastforce
    note age = age_release [OF wf, of now ?cfg, unfolded gs0 fst_conv]
    show ?thesis
    proof (rule resync_gate_cases [OF age(1), of True msg s0])
      assume gate: "resync_gate True msg (g0, s0) = (None, g0, count_drop (kind_of msg) Pressure s0)"
      have dirty: "\<not> reinit_dirty g0" using age(2) inv by (auto simp: sheds_def lq_inv_def)
      then have clean: "g0\<lparr>reinit_dirty := False\<rparr> = g0" by (rule not_dirty_simp)
      have "lq_inv (q\<lparr>lq_inner := g0, lq_stats := count_drop (kind_of msg) Pressure s0\<rparr>)"
        using lq_inv_sheds [OF inv age(2) age(1), of "reinit_pending q", unfolded clean] dirty by simp
      with admitted gate gs0 push_effect_shed [OF inv age(2)] show ?thesis
        by (simp add: push_at_def Let_def)
    next
      fix g1 s1
      assume "resync_gate True msg (g0, s0) = (Some (g1, s1), g1, s1)"
        "lq_wf g1" "sheds is_evictable (g0, s0) (g1, s1)"
      then show ?thesis
        using push_gated_ok [OF inv cfg admitted gs0] sheds_trans [OF age(2)] by blast
    qed
  qed
qed

end
