(* ===== verification/Live_Queue_Fresh.thy ===== *)
theory Live_Queue_Fresh
  imports Live_Queue_Run
begin

text \<open>
  The age rule leaves no stale evictable frame, the pop operation, and the remaining public
  operations of the live queue.
\<close>

section \<open>Freshness\<close>

abbreviation in_time_order :: "entry list \<Rightarrow> bool" where
  "in_time_order es \<equiv> sorted (map e_at es)"

definition is_old :: "instant \<Rightarrow> duration \<Rightarrow> entry \<Rightarrow> bool" where
  "is_old now age e \<longleftrightarrow> \<not> saturating_since now (e_at e) \<le> age"

lemma is_old_later: "e_at e \<le> e_at e' \<Longrightarrow> is_old now age e' \<Longrightarrow> is_old now age e"
  by (auto simp: is_old_def saturating_since_def)

lemma stale_streams_set:
  "n \<in> set (stale_streams now age es) \<longleftrightarrow>
   (\<exists>e \<in> set (takeWhile (is_old now age) es). is_evictable e \<and> entry_names e = Some n)"
proof -
  let ?f = "\<lambda>stale e. case entry_names e of
      Some names \<Rightarrow> if is_evictable e \<and> names \<notin> set stale then stale @ [names] else stale
    | None \<Rightarrow> stale"
  have "n \<in> set (foldl ?f acc xs) \<longleftrightarrow> n \<in> set acc \<or> (\<exists>e \<in> set xs. is_evictable e \<and> entry_names e = Some n)"
    for acc xs
    by (induction xs arbitrary: acc) (auto split: option.splits)
  then show ?thesis by (simp add: stale_streams_def is_old_def [abs_def])
qed

lemma takeWhile_old:
  "in_time_order es \<Longrightarrow> e \<in> set es \<Longrightarrow> is_old now age e \<Longrightarrow> e \<in> set (takeWhile (is_old now age) es)"
proof (induction es)
  case (Cons x xs)
  then have "is_old now age x" by (auto intro: is_old_later)
  with Cons show ?case by auto
qed simp

lemma subseq_in_time_order: "subseq xs ys \<Longrightarrow> in_time_order ys \<Longrightarrow> in_time_order xs"
  by (induction rule: list_emb.induct) (auto dest: subseq_set)

lemma purge_stale_fresh:
  assumes wf: "lq_wf g" and ord: "in_time_order (entries g)"
    and res: "purge_stale_stream a b now age (g, s) = ((resynced, skipped), g', s')"
    and e: "e \<in> set (entries g')" "hits a b e"
  shows "\<not> is_old now age e"
proof (cases "position (is_fresh_resync a b now age) (entries g)")
  case None
  then have "\<not> resynced" using res by (auto simp: purge_stale_stream_def Let_def)
  from purge_stale_stream_wf(3) [OF wf res this] e show ?thesis by simp
next
  case (Some k)
  let ?es = "entries g"
  have "entries g' = map snd (filter (\<lambda>ie. \<not> (fst ie < k \<and> hits a b (snd ie))) (List.enumerate 0 ?es))"
    using res Some by (auto simp: purge_stale_stream_def Let_def case_prod_unfold dest!: arg_cong [of _ _ fst])
  with e obtain i where i: "i < length ?es" "e = ?es ! i" "k \<le> i"
    by (auto simp: in_set_enumerate_eq not_less)
  from position_Some [OF Some] have k: "k < length ?es" "\<not> is_old now age (?es ! k)"
    by (simp_all add: is_fresh_resync_def is_old_def)
  have "e_at (?es ! k) \<le> e_at e"
    using sorted_nth_mono [OF ord i(3)] i k by simp
  with k(2) show ?thesis by (blast intro: is_old_later)
qed

lemma enforce_age_stream_fresh:
  assumes wf: "lq_wf (fst gs)" and ord: "in_time_order (entries (fst gs))"
    and e: "e \<in> set (entries (fst (enforce_age_stream now cfg n gs)))" "is_evictable e" "entry_names e = Some n"
  shows "\<not> is_old now (max_media_age cfg) e"
proof -
  obtain g s a b where gs: "gs = (g, s)" and n: "n = (a, b)" by (cases gs, cases n)
  obtain r sk g1 s1 where res: "purge_stale_stream a b now (max_media_age cfg) (g, s) = ((r, sk), g1, s1)"
    by (metis prod.exhaust)
  have "e \<in> set (entries g1)" "hits a b e"
    using e by (auto simp: enforce_age_stream_def gs n res Let_def hits_def split: if_splits)
  with purge_stale_fresh [OF _ _ res] wf ord gs show ?thesis by simp
qed

text \<open>After the age rule no evictable frame older than the bound is left in the queue.\<close>

lemma enforce_age_fresh:
  assumes wf: "lq_wf (fst gs)" and ord: "in_time_order (entries (fst gs))"
    and e: "e \<in> set (entries (fst (enforce_age now cfg gs)))" "is_evictable e"
  shows "\<not> is_old now (max_media_age cfg) e"
proof -
  let ?old = "is_old now (max_media_age cfg)" and ?es = "entries (fst gs)"
  have fold: "\<not> ?old e"
    if "lq_wf (fst gs)" "in_time_order (entries (fst gs))"
      "\<forall>e \<in> set (entries (fst gs)). is_evictable e \<and> ?old e \<longrightarrow> (\<exists>n \<in> set ns. entry_names e = Some n)"
      "e \<in> set (entries (fst (foldl (\<lambda>gs n. enforce_age_stream now cfg n gs) gs ns)))" for gs ns
    using that
  proof (induction ns arbitrary: gs)
    case Nil
    with e(2) show ?case by auto
  next
    case (Cons n ns)
    let ?gs = "enforce_age_stream now cfg n gs"
    have sh: "sheds is_evictable gs ?gs" and wf1: "lq_wf (fst ?gs)"
      using enforce_age_stream_wf [OF Cons.prems(1), of now cfg n] by simp_all
    have ord1: "in_time_order (entries (fst ?gs))"
      using sh Cons.prems(2) by (auto simp: sheds_def intro: subseq_in_time_order)
    have "\<exists>m \<in> set ns. entry_names x = Some m"
      if x: "x \<in> set (entries (fst ?gs))" "is_evictable x" "?old x" for x
    proof -
      obtain m where m: "m \<in> set (n # ns)" "entry_names x = Some m"
        using Cons.prems(3) sheds_set [OF sh] x by blast
      moreover have "m \<noteq> n" using enforce_age_stream_fresh [OF Cons.prems(1,2) x(1,2)] x(3) m(2) by blast
      ultimately show ?thesis by auto
    qed
    with Cons.IH [OF wf1 ord1] Cons.prems(4) show ?case by simp
  qed
  show ?thesis
  proof (cases "enforce_age now cfg gs = gs \<and> (?es = [] \<or> \<not> ?old (hd ?es))")
    case True
    with e have "e \<in> set ?es" by simp
    moreover from this True have "\<not> ?old (hd ?es)" by auto
    moreover have "e_at (hd ?es) \<le> e_at e" if "e \<in> set ?es"
      using ord that by (cases ?es) auto
    ultimately show ?thesis by (blast intro: is_old_later)
  next
    case False
    then have eq: "enforce_age now cfg gs = foldl (\<lambda>gs n. enforce_age_stream now cfg n gs) gs
        (stale_streams now (max_media_age cfg) ?es)"
      unfolding enforce_age_def Let_def by (auto simp: is_old_def split: list.splits if_splits)
    have "\<exists>n \<in> set (stale_streams now (max_media_age cfg) ?es). entry_names x = Some n"
      if x: "x \<in> set ?es" "is_evictable x" "?old x" for x
    proof -
      have "entry_ok x" using wf x(1) by (simp add: lq_wf_def)
      then obtain n where n: "entry_names x = Some n" using entry_ok_evictable x(2) by blast
      with takeWhile_old [OF ord x(1,3)] x(2) show ?thesis
        using stale_streams_set by blast
    qed
    then have "\<forall>x \<in> set ?es. is_evictable x \<and> ?old x \<longrightarrow>
        (\<exists>n \<in> set (stale_streams now (max_media_age cfg) ?es). entry_names x = Some n)" by blast
    from fold [OF wf ord this] e(1) eq show ?thesis by simp
  qed
qed

section \<open>Pop\<close>

lemma release_keeps_entries:
  assumes "lq_wf (fst gs)"
  shows "entries (fst (release_expired_waits now cfg gs)) = entries (fst gs)"
  using release_expired_waits_wf [OF assms, of now cfg] by (simp add: sheds_def)

text \<open>
  What a pop does: stale frames are shed (never critical frames or control messages), every
  evictable frame that is left is fresh, and the head, if any, goes to the writer.
\<close>

definition pop_effect ::
    "instant \<Rightarrow> media_message option \<Rightarrow> live_media_queue \<Rightarrow> live_media_queue \<Rightarrow> bool" where
  "pop_effect now m q q' \<longleftrightarrow> (\<exists>old.
     (case m of None \<Rightarrow> old = [] \<and> queued q' = []
      | Some msg \<Rightarrow> \<exists>e. old = e # queued q' \<and> e_msg e = msg \<and> entry_ok e) \<and>
     subseq old (queued q) \<and>
     filter (\<lambda>e. \<not> is_evictable e) old = filter (\<lambda>e. \<not> is_evictable e) (queued q) \<and>
     (in_time_order (queued q) \<longrightarrow>
        (\<forall>e \<in> set old. is_evictable e \<longrightarrow> \<not> is_old now (max_media_age (lq_cfg q)) e)) \<and>
     of_nat (length old) + dropped_total (lq_stats q') = of_nat (length (queued q)) + dropped_total (lq_stats q)) \<and>
     drop_gap (lq_stats q') = drop_gap (lq_stats q) \<and>
     closed (lq_inner q') = closed (lq_inner q) \<and> lq_cfg q' = lq_cfg q"

lemma lq_inv_pop_head:
  assumes inv: "lq_inv (q\<lparr>lq_inner := g, lq_stats := s\<rparr>)" and es: "entries g = e # es"
  shows "lq_inv (q\<lparr>lq_inner := account_removed e (g\<lparr>entries := es\<rparr>), lq_stats := s\<rparr>)"
proof -
  have wf: "lq_wf g" using inv by (simp add: lq_inv_def)
  note one = remove_one_wf [OF wf, of "[]", simplified, OF es]
  let ?g = "account_removed e (g\<lparr>entries := es\<rparr>)"
  have ent: "entries ?g = es" by simp
  have "bytes_queued ?g \<le> bytes_queued g"
    using wf_bytes [OF one(1)] wf_bytes [OF wf] by (simp add: es)
  with inv one ent show ?thesis by (auto simp: lq_inv_def es)
qed

lemma pop_at_ok:
  assumes inv: "lq_inv q" and pop: "pop_at now q = (m, q')"
  shows "lq_inv q' \<and> pop_effect now m q q'"
proof (cases "closed (lq_inner q)")
  case True
  with inv pop show ?thesis by (auto simp: pop_at_def pop_effect_def lq_inv_def)
next
  case False
  let ?s0 = "note_high_water (lq_inner q) now (lq_stats q)"
  let ?base = "(lq_inner q, ?s0)"
  have wf: "lq_wf (fst ?base)" using inv by (simp add: lq_inv_def)
  obtain g s where gs: "release_expired_waits now (lq_cfg q) (enforce_age now (lq_cfg q) ?base) = (g, s)"
    by fastforce
  note age = age_release [OF wf, of now "lq_cfg q", unfolded gs fst_conv]
  have dirty: "\<not> reinit_dirty g" using age(2) inv by (auto simp: sheds_def lq_inv_def)
  have inv': "lq_inv (q\<lparr>lq_inner := g, lq_stats := s\<rparr>)"
    using lq_inv_sheds [OF inv age(2,1), of "reinit_pending q", unfolded not_dirty_simp [OF dirty]] dirty by simp
  have "entries g = entries (fst (enforce_age now (lq_cfg q) ?base))"
    using release_keeps_entries [of "enforce_age now (lq_cfg q) ?base" now "lq_cfg q"] enforce_age_wf [OF wf] gs
    by simp
  then have fresh: "\<forall>e \<in> set (entries g). is_evictable e \<longrightarrow> \<not> is_old now (max_media_age (lq_cfg q)) e"
    if "in_time_order (queued q)" using enforce_age_fresh [OF wf] that by simp
  have q': "(m, q') = (case entries g of [] \<Rightarrow> (None, q\<lparr>lq_inner := g, lq_stats := s\<rparr>)
      | e # es \<Rightarrow> (Some (e_msg e), q\<lparr>lq_inner := account_removed e (g\<lparr>entries := es\<rparr>), lq_stats := s\<rparr>))"
    using pop False gs by (simp add: pop_at_def Let_def)
  have shape: "case m of None \<Rightarrow> entries g = [] \<and> queued q' = []
      | Some msg \<Rightarrow> \<exists>e. entries g = e # queued q' \<and> e_msg e = msg \<and> entry_ok e"
    using q' age(1) by (auto simp: lq_wf_def split: list.splits)
  have rest: "lq_stats q' = s" "closed (lq_inner q') = closed g" "lq_cfg q' = lq_cfg q" "lq_inv q'"
    using q' inv' lq_inv_pop_head [OF inv'] by (auto split: list.splits)
  have "pop_effect now m q q'"
    unfolding pop_effect_def rest
    using age(2) fresh shape by (intro conjI exI [of _ "entries g"]) (simp_all add: sheds_def)
  with rest show ?thesis by simp
qed

end
