(* ===== verification/Lossy_Queue.thy ===== *)
theory Lossy_Queue
  imports Rtmp_Prelude
begin

text \<open>
  The contract of a bounded queue that may shed messages: a first-in first-out queue that keeps
  its order, never invents or repeats a message, and never sheds a protected one.
\<close>

datatype 'm queue_op = Put 'm instant | Take instant

text \<open>The accepted and the delivered messages of a run, and the final state.\<close>

fun queue_run ::
    "('m \<Rightarrow> instant \<Rightarrow> 's \<Rightarrow> bool \<times> 's) \<Rightarrow> (instant \<Rightarrow> 's \<Rightarrow> 'm option \<times> 's) \<Rightarrow> 's \<Rightarrow> 'm queue_op list \<Rightarrow>
     'm list \<times> 'm list \<times> 's" where
  "queue_run put tk s [] = ([], [], s)"
| "queue_run put tk s (Put m t # ops) =
     (let (acc, s') = put m t s; (accepted, delivered, s'') = queue_run put tk s' ops
      in (if acc then m # accepted else accepted, delivered, s''))"
| "queue_run put tk s (Take t # ops) =
     (let (r, s') = tk t s; (accepted, delivered, s'') = queue_run put tk s' ops
      in (accepted, (case r of None \<Rightarrow> delivered | Some m \<Rightarrow> m # delivered), s''))"

locale lossy_queue =
  fixes content :: "'s \<Rightarrow> 'm list"
    and put :: "'m \<Rightarrow> instant \<Rightarrow> 's \<Rightarrow> bool \<times> 's"
    and tk :: "instant \<Rightarrow> 's \<Rightarrow> 'm option \<times> 's"
    and protected :: "'m \<Rightarrow> bool"
    and ok :: "'s \<Rightarrow> bool"
  assumes put_ok: "ok s \<Longrightarrow> ok (snd (put m t s))"
    and take_ok: "ok s \<Longrightarrow> ok (snd (tk t s))"
    and put_content: "ok s \<Longrightarrow> put m t s = (acc, s') \<Longrightarrow>
      \<exists>old. content s' = old @ (if acc then [m] else []) \<and> subseq old (content s) \<and>
            filter protected old = filter protected (content s)"
    and take_content: "ok s \<Longrightarrow> tk t s = (r, s') \<Longrightarrow>
      \<exists>old. old = (case r of None \<Rightarrow> [] | Some m \<Rightarrow> [m]) @ content s' \<and> subseq old (content s) \<and>
            filter protected old = filter protected (content s)"
begin

lemma run_fifo:
  assumes "ok s" "queue_run put tk s ops = (accepted, delivered, s')"
  shows "ok s' \<and> subseq (delivered @ content s') (content s @ accepted) \<and>
    filter protected (delivered @ content s') = filter protected (content s @ accepted)"
  using assms
proof (induction ops arbitrary: s accepted delivered)
  case (Cons op ops)
  show ?case
  proof (cases op)
    case (Put m t)
    obtain acc s1 where put: "put m t s = (acc, s1)" by fastforce
    obtain accepted1 where run: "queue_run put tk s1 ops = (accepted1, delivered, s')"
      and acc: "accepted = (if acc then [m] else []) @ accepted1"
      using Cons.prems(2) put Put by (auto split: prod.splits)
    obtain old where old: "content s1 = old @ (if acc then [m] else [])" "subseq old (content s)"
        "filter protected old = filter protected (content s)"
      using put_content [OF Cons.prems(1) put] by blast
    have ok1: "ok s1" using put_ok [OF Cons.prems(1), of m t] put by simp
    from Cons.IH [OF ok1 run]
    have ih: "ok s'" "subseq (delivered @ content s') (content s1 @ accepted1)"
      "filter protected (delivered @ content s') = filter protected (content s1 @ accepted1)" by simp_all
    have "subseq (content s1 @ accepted1) (content s @ accepted)"
      unfolding acc old(1) using old(2) by (simp add: list_emb_append_mono)
    with ih(2) have "subseq (delivered @ content s') (content s @ accepted)"
      by (rule subseq_order.trans)
    with ih old acc show ?thesis by simp
  next
    case (Take t)
    obtain r s1 where tk: "tk t s = (r, s1)" by fastforce
    obtain delivered1 where run: "queue_run put tk s1 ops = (accepted, delivered1, s')"
      and del: "delivered = (case r of None \<Rightarrow> [] | Some m \<Rightarrow> [m]) @ delivered1"
      using Cons.prems(2) tk Take by (auto split: prod.splits option.splits)
    obtain old where old: "old = (case r of None \<Rightarrow> [] | Some m \<Rightarrow> [m]) @ content s1"
        "subseq old (content s)" "filter protected old = filter protected (content s)"
      using take_content [OF Cons.prems(1) tk] by blast
    have ok1: "ok s1" using take_ok [OF Cons.prems(1), of t] tk by simp
    from Cons.IH [OF ok1 run]
    have ih: "ok s'" "subseq (delivered1 @ content s') (content s1 @ accepted)"
      "filter protected (delivered1 @ content s') = filter protected (content s1 @ accepted)" by simp_all
    have "subseq (delivered @ content s') (old @ accepted)"
      using ih(2) by (simp add: del old(1) list_emb_append_mono)
    moreover have "subseq (old @ accepted) (content s @ accepted)" using old(2) by (simp add: list_emb_append_mono)
    ultimately have "subseq (delivered @ content s') (content s @ accepted)"
      by (rule subseq_order.trans)
    moreover have "filter protected (delivered @ content s') = filter protected (old @ accepted)"
      using ih(3) by (simp add: del old(1))
    ultimately show ?thesis using ih old(3) by simp
  qed
qed simp

end

end
