(* ===== verification/Live_Queue_Props.thy ===== *)
theory Live_Queue_Props
  imports Live_Queue_Fresh Lossy_Queue
begin

text \<open>
  The life of a live queue as a state machine, and the properties of the queue: bounds,
  book-keeping and termination, order and delivery, drop accounting, protection of critical
  frames, freshness, and the resync discipline.
\<close>

section \<open>The remaining operations\<close>

lemma lq_inv_new: "lq_inv (live_media_queue_new cfg)"
  by (simp add: lq_inv_def live_media_queue_new_def lq_wf_def books_def frames_in_def evictable_in_def
      st_of_def state_def case_prod_unfold)

lemma lq_inv_close: "lq_inv q \<Longrightarrow> lq_inv (close q)"
  by (simp add: lq_inv_def close_def lq_wf_def books_def frames_in_def evictable_in_def
      st_of_def state_def case_prod_unfold)

text \<open>Discarding the evictable frames of a stream and making it wait.\<close>

lemma purge_await:
  fixes a b :: string and now :: instant and rsn :: reason
  assumes wf: "lq_wf (fst gs)"
  defines "gs' \<equiv> purge_and_await a b rsn now gs"
  shows "sheds is_evictable gs gs' \<and> lq_wf (fst gs')"
    and "entries (fst gs') = filter (\<lambda>e. \<not> hits a b e) (entries (fst gs))"
proof -
  obtain g s where gs: "gs = (g, s)" by (cases gs)
  obtain g1 s1 where p: "purge_stream a b rsn (g, s) = (g1, s1)" by fastforce
  note facts = purge_stream_wf [OF wf [unfolded gs fst_conv], where a = a and b = b and rsn = rsn and s = s,
      unfolded p fst_conv]
  have "lq_wf (state_mut a b (await_from now) g1)" using facts by (intro lq_wf_state_mut) simp_all
  with facts show "sheds is_evictable gs gs' \<and> lq_wf (fst gs')"
    by (simp add: gs'_def purge_and_await_def gs p sheds_state_mut)
  show "entries (fst gs') = filter (\<lambda>e. \<not> hits a b e) (entries (fst gs))"
    using facts(3) by (simp add: gs'_def purge_and_await_def gs p)
qed

lemma purge_await_all:
  fixes xs :: "(string \<times> string \<times> stream_state) list" and rsn :: reason and now :: instant
  assumes "lq_wf (fst gs)"
  defines "gs' \<equiv> \<lambda>gs. foldl (\<lambda>gs (a, b, _). purge_and_await a b rsn now gs) gs xs"
  shows "sheds is_evictable gs (gs' gs) \<and> lq_wf (fst (gs' gs)) \<and>
    entries (fst (gs' gs)) = filter (\<lambda>e. \<forall>(a, b, st) \<in> set xs. \<not> hits a b e) (entries (fst gs))"
  unfolding gs'_def using assms(1)
proof (induction xs arbitrary: gs)
  case (Cons x xs)
  obtain a b st where x: "x = (a, b, st)" by (cases x)
  note step = purge_await [OF Cons.prems, of a b rsn now]
  from Cons.IH [OF conjunct2 [OF step(1)]] sheds_trans [OF conjunct1 [OF step(1)]] step(2)
  show ?case by (simp add: x)
qed simp

lemma on_connection_reset_ok:
  assumes inv: "lq_inv q"
  shows "lq_inv (on_connection_reset now q)"
    and "queued (on_connection_reset now q) = filter (\<lambda>e. \<not> is_evictable e) (queued q)"
    and "drop_gap (lq_stats (on_connection_reset now q)) = drop_gap (lq_stats q)"
proof -
  let ?loaded = "filter (\<lambda>(_, _, st). 0 < evictable_bytes st) (nm_iter (streams (lq_inner q)))"
  have wf: "lq_wf (lq_inner q)" using inv by (simp add: lq_inv_def)
  obtain g s where gs: "foldl (\<lambda>gs (app, stream, _). purge_and_await app stream Stale now gs)
      (lq_inner q, lq_stats q) ?loaded = (g, s)" by fastforce
  note all = purge_await_all [of "(lq_inner q, lq_stats q)" Stale now ?loaded, unfolded gs fst_conv, OF wf]
  have q': "on_connection_reset now q = q\<lparr>lq_inner := g, lq_stats := s\<rparr>"
    using gs by (simp add: on_connection_reset_def)
  have dirty: "\<not> reinit_dirty g" using all inv by (auto simp: sheds_def lq_inv_def)
  show "lq_inv (on_connection_reset now q)"
    using lq_inv_sheds [OF inv conjunct1 [OF all], of "reinit_pending q", unfolded not_dirty_simp [OF dirty]] all dirty
    by (simp add: q')
  show "drop_gap (lq_stats (on_connection_reset now q)) = drop_gap (lq_stats q)"
    using all by (simp add: q' sheds_def)
  have ok: "nm_ok (streams (lq_inner q))" and eok: "\<forall>e \<in> set (queued q). entry_ok e"
    using wf by (simp_all add: lq_wf_def)
  have "(\<forall>(a, b, st) \<in> set ?loaded. \<not> hits a b e) \<longleftrightarrow> \<not> is_evictable e" if e: "e \<in> set (queued q)" for e
  proof
    assume none: "\<forall>(a, b, st) \<in> set ?loaded. \<not> hits a b e"
    show "\<not> is_evictable e"
    proof
      assume ev: "is_evictable e"
      then obtain a b where n: "entry_names e = Some (a, b)" using eok e entry_ok_evictable by fastforce
      then have h: "hits a b e" using ev by (simp add: hits_def)
      then have pos: "0 < evictable_bytes (st_of (lq_inner q) (a, b))"
        using evictable_in_pos [OF eok] e st_evictable [OF wf] by auto
      then obtain st where "nm_get (streams (lq_inner q)) a b = Some st" "0 < evictable_bytes st"
        by (auto simp: st_of_def state_def split: option.splits)
      with none h show False by (auto simp: nm_iter_get [OF ok])
    qed
  qed (auto simp: hits_def)
  then show "queued (on_connection_reset now q) = filter (\<lambda>e. \<not> is_evictable e) (queued q)"
    using all by (auto simp: q' intro!: filter_cong)
qed

lemma lq_wf_reinit_flag:
  assumes "lq_wf g"
  shows "lq_wf (state_mut a b (\<lambda>st. st\<lparr>needs_reinit := v\<rparr>) g)"
    and "lq_wf (with_state a b (\<lambda>st. st\<lparr>needs_reinit := False\<rparr>) g)"
proof -
  have d: "stream_state_default\<lparr>needs_reinit := False\<rparr> = stream_state_default"
    by (simp add: stream_state_default_def)
  show "lq_wf (state_mut a b (\<lambda>st. st\<lparr>needs_reinit := v\<rparr>) g)"
    "lq_wf (with_state a b (\<lambda>st. st\<lparr>needs_reinit := False\<rparr>) g)"
    using assms by (auto simp: lq_wf_def books_def lq_simps d)
qed

lemma lq_inv_mark_reinit: "lq_inv q \<Longrightarrow> lq_inv (mark_reinit a b q)"
  by (simp add: lq_inv_def mark_reinit_def lq_wf_reinit_flag)

lemma take_reinit_ok:
  assumes inv: "lq_inv q" and res: "take_reinit a b q = (taken, q')"
  shows "lq_inv q'" and "taken = needs_reinit (st_of (lq_inner q) (a, b))"
    and "\<not> needs_reinit (st_of (lq_inner q') (a, b))" and "queued q' = queued q"
    and "drop_gap (lq_stats q') = drop_gap (lq_stats q)"
proof -
  have d: "stream_state_default\<lparr>needs_reinit := False\<rparr> = stream_state_default"
    by (simp add: stream_state_default_def)
  let ?g = "with_state a b (\<lambda>st. st\<lparr>needs_reinit := False\<rparr>) (lq_inner q)"
  have wf: "lq_wf ?g" and ok: "nm_ok (streams ?g)"
    using inv lq_wf_reinit_flag(2) by (simp_all add: lq_inv_def lq_wf_def)
  note st = lq_wf_st_of_prune [OF wf, of a b]
  have any: "list_ex (\<lambda>(_, _, st). needs_reinit st) (nm_iter (streams ?g))" if n: "needs_reinit (st_of ?g n)" for n
  proof -
    obtain a' b' where n': "n = (a', b')" by (cases n)
    with n obtain x where "nm_get (streams ?g) a' b' = Some x" "needs_reinit x"
      by (auto simp: st_of_def state_def split: option.splits)
    then have "(a', b', x) \<in> set (nm_iter (streams ?g))" "needs_reinit x" by (simp_all add: nm_iter_get [OF ok])
    then show ?thesis by (auto simp: list_ex_iff)
  qed
  have old: "(case state (lq_inner q) a b of None \<Rightarrow> False | Some st \<Rightarrow> needs_reinit st) =
      needs_reinit (st_of (lq_inner q) (a, b))" by (simp add: st_of_def split: option.splits)
  show "lq_inv q'" "taken = needs_reinit (st_of (lq_inner q) (a, b))"
    "\<not> needs_reinit (st_of (lq_inner q') (a, b))" "queued q' = queued q"
    "drop_gap (lq_stats q') = drop_gap (lq_stats q)"
    using res inv any wf st old
    by (auto simp: take_reinit_def Let_def lq_inv_def lq_wf_prune lq_simps d split: if_splits)
qed

section \<open>The life of a queue\<close>

text \<open>One call of a public operation; clock readings are arbitrary.\<close>

inductive lq_step :: "live_media_queue \<Rightarrow> live_media_queue \<Rightarrow> bool" where
  push: "push_at msg now q = Some (r, q') \<Longrightarrow> lq_step q q'"
| pop: "pop_at now q = (m, q') \<Longrightarrow> lq_step q q'"
| close: "lq_step q (close q)"
| reset: "lq_step q (on_connection_reset now q)"
| take_reinit: "take_reinit a b q = (t, q') \<Longrightarrow> lq_step q q'"
| mark_reinit: "lq_step q (mark_reinit a b q)"

inductive lq_reach :: "live_queue_config \<Rightarrow> live_media_queue \<Rightarrow> bool" for cfg where
  new: "lq_reach cfg (live_media_queue_new cfg)"
| step: "lq_reach cfg q \<Longrightarrow> lq_step q q' \<Longrightarrow> lq_reach cfg q'"

lemma lq_frame:
  "lq_cfg (close q) = lq_cfg q" "lq_stats (close q) = lq_stats q"
  "lq_cfg (mark_reinit a b q) = lq_cfg q" "lq_stats (mark_reinit a b q) = lq_stats q"
  "lq_cfg (on_connection_reset now q) = lq_cfg q"
  "take_reinit a b q = (t, q') \<Longrightarrow> lq_cfg q' = lq_cfg q"
  by (auto simp: close_def mark_reinit_def on_connection_reset_def take_reinit_def Let_def case_prod_unfold
      split: if_splits)

lemma lq_step_ok:
  assumes "lq_step q q'" "lq_inv q" "max_bytes (lq_cfg q) < usize_max"
  shows "lq_inv q' \<and> lq_cfg q' = lq_cfg q \<and> drop_gap (lq_stats q') = drop_gap (lq_stats q)"
  using assms
proof cases
  case (push msg now r)
  with push_at_ok [OF assms(2,3), of msg now] have "lq_inv q'" "push_effect msg now r q q'" by auto
  then show ?thesis unfolding push_effect_def by blast
next
  case (pop now m)
  from pop_at_ok [OF assms(2) pop] show ?thesis unfolding pop_effect_def by blast
next
  case close
  then show ?thesis by (simp add: lq_inv_close assms(2) lq_frame)
next
  case (reset now)
  then show ?thesis by (simp add: on_connection_reset_ok(1,3) assms(2) lq_frame)
next
  case (take_reinit a b t)
  from take_reinit_ok(1,5) [OF assms(2) take_reinit] lq_frame(6) [OF take_reinit] show ?thesis by blast
next
  case (mark_reinit a b)
  then show ?thesis by (simp add: lq_inv_mark_reinit assms(2) lq_frame)
qed

lemma config_new_bounds:
  "max_bytes (live_queue_config_new mb age) < usize_max" "0 < max_messages (live_queue_config_new mb age)"
proof -
  have "unat mb * 1048576 < 2 ^ 32 * 1048576" using unsigned_less [of mb] by simp
  then show "max_bytes (live_queue_config_new mb age) < usize_max"
    by (simp add: live_queue_config_new_def usize_saturating_mul_def usize_max_def)
qed (simp add: live_queue_config_new_def DEFAULT_MAX_MESSAGES_def)

lemma lq_reach_inv:
  assumes "lq_reach cfg q" "max_bytes cfg < usize_max"
  shows "lq_inv q \<and> lq_cfg q = cfg \<and> drop_gap (lq_stats q) = 0"
  using assms
proof induction
  case new
  show ?case by (simp add: lq_inv_new) (simp add: live_media_queue_new_def drop_gap_def)
next
  case (step q q')
  with lq_step_ok [OF step(2)] show ?case by simp
qed

section \<open>The queue as a lossy queue\<close>

definition lq_put :: "media_message \<Rightarrow> instant \<Rightarrow> live_media_queue \<Rightarrow> bool \<times> live_media_queue" where
  "lq_put msg now q = (case push_at msg now q of None \<Rightarrow> (False, q) | Some (r, q') \<Rightarrow> (is_queued r, q'))"

definition lq_ok :: "live_media_queue \<Rightarrow> bool" where
  "lq_ok q \<longleftrightarrow> lq_inv q \<and> max_bytes (lq_cfg q) < usize_max"

abbreviation messages :: "live_media_queue \<Rightarrow> media_message list" where
  "messages q \<equiv> map e_msg (queued q)"

abbreviation is_control :: "media_message \<Rightarrow> bool" where
  "is_control m \<equiv> kind_of m = Control"

lemma filter_control:
  "\<forall>e \<in> set es. entry_ok e \<Longrightarrow> filter is_control (map e_msg es) = map e_msg (filter (\<lambda>e. \<not> is_media e) es)"
  by (induction es) (auto simp: entry_ok_def)

lemma filter_control_cong:
  assumes "\<forall>e \<in> set xs. entry_ok e" "\<forall>e \<in> set ys. entry_ok e"
    "filter (\<lambda>e. \<not> is_media e) xs = filter (\<lambda>e. \<not> is_media e) ys"
  shows "filter is_control (map e_msg xs) = filter is_control (map e_msg ys)"
  using assms by (simp add: filter_control)

lemma is_queued_iff: "is_queued r \<longleftrightarrow> r = Queued"
  by (cases r) auto

lemma queued_entry_ok: "lq_inv q \<Longrightarrow> \<forall>e \<in> set (queued q). entry_ok e"
  by (simp add: lq_inv_def lq_wf_def)

lemma lq_put_content:
  assumes ok: "lq_ok q" and put: "lq_put m t q = (acc, q')"
  shows "lq_ok q' \<and> (\<exists>old. messages q' = old @ (if acc then [m] else []) \<and> subseq old (messages q) \<and>
     filter is_control old = filter is_control (messages q))"
proof -
  have inv: "lq_inv q" "max_bytes (lq_cfg q) < usize_max" using ok by (simp_all add: lq_ok_def)
  from push_at_ok [OF inv, of m t] obtain r where push: "push_at m t q = Some (r, q')"
    and inv': "lq_inv q'" and eff: "push_effect m t r q q'"
    using put by (auto simp: lq_put_def)
  have acc: "acc \<longleftrightarrow> r = Queued" using put push by (simp add: lq_put_def is_queued_iff)
  from eff obtain old where old: "queued q' = old @ (if r = Queued then [new_entry m t] else [])"
      "subseq old (queued q)" "filter (\<lambda>e. \<not> is_media e) old = filter (\<lambda>e. \<not> is_media e) (queued q)"
    and cfg: "lq_cfg q' = lq_cfg q"
    unfolding push_effect_def by blast
  have "messages q' = map e_msg old @ (if acc then [m] else [])"
    using old(1) acc by (simp add: new_entry_def)
  moreover have "subseq (map e_msg old) (messages q)" using old(2) by (rule subseq_map)
  moreover have "filter is_control (map e_msg old) = filter is_control (messages q)"
    using filter_control_cong [OF _ queued_entry_ok [OF inv(1)] old(3)] subseq_set [OF old(2)]
      queued_entry_ok [OF inv(1)] by blast
  ultimately show ?thesis using inv' inv(2) cfg by (auto simp: lq_ok_def)
qed

lemma lq_take_content:
  assumes ok: "lq_ok q" and tk: "pop_at t q = (r, q')"
  shows "lq_ok q' \<and> (\<exists>old. old = (case r of None \<Rightarrow> [] | Some m \<Rightarrow> [m]) @ messages q' \<and>
     subseq old (messages q) \<and> filter is_control old = filter is_control (messages q))"
proof -
  have inv: "lq_inv q" using ok by (simp add: lq_ok_def)
  from pop_at_ok [OF inv tk] obtain old where inv': "lq_inv q'" and cfg: "lq_cfg q' = lq_cfg q"
    and shape: "case r of None \<Rightarrow> old = [] \<and> queued q' = []
        | Some msg \<Rightarrow> \<exists>e. old = e # queued q' \<and> e_msg e = msg \<and> entry_ok e"
    and old: "subseq old (queued q)"
      "filter (\<lambda>e. \<not> is_evictable e) old = filter (\<lambda>e. \<not> is_evictable e) (queued q)"
    unfolding pop_effect_def by blast
  have "filter (\<lambda>e. \<not> is_media e) es = filter (\<lambda>e. \<not> is_media e) (filter (\<lambda>e. \<not> is_evictable e) es)" for es
    by (auto intro!: filter_cong)
  then have "filter (\<lambda>e. \<not> is_media e) old = filter (\<lambda>e. \<not> is_media e) (queued q)" using old(2) by metis
  then have "filter is_control (map e_msg old) = filter is_control (messages q)"
    using filter_control_cong [of old "queued q"] queued_entry_ok [OF inv] subseq_set [OF old(1)] by blast
  moreover have "map e_msg old = (case r of None \<Rightarrow> [] | Some m \<Rightarrow> [m]) @ messages q'"
    using shape by (auto split: option.splits)
  moreover have "subseq (map e_msg old) (messages q)" using old(1) by (rule subseq_map)
  ultimately show ?thesis using inv' ok cfg unfolding lq_ok_def by metis
qed

interpretation lq: lossy_queue messages lq_put pop_at is_control lq_ok
proof
  fix q m t acc q'
  show "lq_ok q \<Longrightarrow> lq_ok (snd (lq_put m t q))" by (metis lq_put_content prod.collapse)
  show "lq_ok q \<Longrightarrow> lq_put m t q = (acc, q') \<Longrightarrow> \<exists>old. messages q' = old @ (if acc then [m] else []) \<and>
      subseq old (messages q) \<and> filter is_control old = filter is_control (messages q)"
    using lq_put_content by blast
next
  fix q t r q'
  show "lq_ok q \<Longrightarrow> lq_ok (snd (pop_at t q))" by (metis lq_take_content prod.collapse)
  show "lq_ok q \<Longrightarrow> pop_at t q = (r, q') \<Longrightarrow> \<exists>old. old = (case r of None \<Rightarrow> [] | Some m \<Rightarrow> [m]) @ messages q' \<and>
      subseq old (messages q) \<and> filter is_control old = filter is_control (messages q)"
    using lq_take_content by blast
qed

end
