(* ===== verification/Live_Queue_Correct.thy ===== *)
theory Live_Queue_Correct
  imports Live_Queue_Props
begin

text \<open>The properties of the live queue, with their witnesses.\<close>

section \<open>Queues for the witnesses\<close>

definition small_cfg :: live_queue_config where
  "small_cfg = \<lparr>max_messages = 1, max_bytes = 4096, max_media_age = 100, resync_wait_max = 500\<rparr>"

definition frame :: "delivery_hint \<Rightarrow> media_message" where
  "frame h = MediaFrame ''live'' ''s'' 1 1 0 0 h [0x17]"

text \<open>The results of the pushes of a script.\<close>

fun lq_results :: "live_media_queue \<Rightarrow> media_message queue_op list \<Rightarrow> push_result option list" where
  "lq_results q [] = []"
| "lq_results q (Put m t # ops) =
     (case push_at m t q of None \<Rightarrow> [None] | Some (r, q') \<Rightarrow> Some r # lq_results q' ops)"
| "lq_results q (Take t # ops) = lq_results (snd (pop_at t q)) ops"

lemmas lq_eval = push_at_def pop_at_def live_media_queue_new_def small_cfg_def frame_def Let_def push_limit_def
  enforce_age_def release_expired_waits_def resync_gate_def make_room.simps has_room_def
  usize_saturating_add_def usize_max_def heaviest_evictable_def heavier_step nm_iter_def nm_put_def nm_get_def
  nm_inner_def nm_modify_def nm_prune_def state_mut_def with_state_def prune_idle_def is_awaiting_def state_def
  idle_def stream_state_default_def await_from_def clear_await_def account_removed_def count_drop_def
  account_dropped_def hits_def purge_stream_def purge_and_await_def entry_names_def enqueue_def
  note_high_water_def saturating_since_def evict_critical_def opt_len_def

lemmas cfg_eval = live_queue_config_new_def DEFAULT_MAX_MESSAGES_def usize_saturating_mul_def
  DEFAULT_MAX_MEDIA_AGE_def DEFAULT_RESYNC_WAIT_MAX_def millis_def secs_def

lemma reach_facts:
  assumes "lq_reach cfg q" "max_bytes cfg < usize_max"
  shows "lq_inv q" "max_bytes (lq_cfg q) < usize_max" "lq_cfg q = cfg"
    "drop_gap (lq_stats q) = 0" "lq_wf (lq_inner q)" "\<forall>e \<in> set (queued q). entry_ok e"
  using lq_reach_inv [OF assms] assms(2) by (auto simp: lq_inv_def lq_wf_def)

text \<open>The queue after some pushes.\<close>

definition lq_after :: "live_queue_config \<Rightarrow> (media_message \<times> instant) list \<Rightarrow> live_media_queue" where
  "lq_after cfg ms = foldl (\<lambda>q (m, t). snd (lq_put m t q)) (live_media_queue_new cfg) ms"

lemma lq_after_reach:
  assumes cfg: "max_bytes cfg < usize_max"
  shows "lq_reach cfg (lq_after cfg ms)"
proof (induction ms rule: rev_induct)
  case Nil
  show ?case by (simp add: lq_after_def lq_reach.new)
next
  case (snoc mt ms)
  obtain m t where mt: "mt = (m, t)" by (cases mt)
  let ?q = "lq_after cfg ms"
  from push_at_ok [OF reach_facts(1,2) [OF snoc.IH cfg], of m t]
  obtain r q' where push: "push_at m t ?q = Some (r, q')" by blast
  then have "lq_after cfg (ms @ [mt]) = q'" by (simp add: lq_after_def mt lq_put_def)
  with push snoc.IH show ?case by (auto intro: lq_reach.step lq_step.push)
qed

lemma small_cfg_bound: "max_bytes small_cfg < usize_max"
  by (simp add: small_cfg_def usize_max_def)

lemmas small_reach = lq_after_reach [OF small_cfg_bound]

lemmas default_reach = lq_after_reach [OF config_new_bounds(1)]

lemmas after_eval = lq_after_def lq_put_def lq_eval cfg_eval

section \<open>Bounds and book-keeping\<close>

text \<open>
  C13. Bounds and book-keeping of every reachable queue. Whatever sequence of operations ran, the
  queue holds at most 1024 messages and at most the configured number of bytes (at least one
  MiB), its byte counter is the sum of the sizes of what is queued, and the per-stream frame
  counters count exactly the queued frames of their stream.
\<close>

theorem lq_bounds:
  assumes "lq_reach (live_queue_config_new mb age) q"
  shows "length (queued q) \<le> DEFAULT_MAX_MESSAGES \<and>
    bytes_queued (lq_inner q) = sum_list (map (approx_size \<circ> e_msg) (queued q)) \<and>
    bytes_queued (lq_inner q) \<le> max (unat mb * 1048576) 1048576 \<and>
    (\<forall>a s. (case state (lq_inner q) a s of None \<Rightarrow> 0 | Some st \<Rightarrow> queued_frames st) =
       length (filter (\<lambda>e. frame_names (e_msg e) = Some (a, s)) (queued q)))"
proof -
  note r = reach_facts [OF assms config_new_bounds(1)]
  have "map e_size (queued q) = map (approx_size \<circ> e_msg) (queued q)"
    using r(6) by (simp add: entry_ok_def)
  then have "bytes_queued (lq_inner q) = sum_list (map (approx_size \<circ> e_msg) (queued q))"
    using wf_bytes [OF r(5)] by (simp only:)
  moreover have "(case state (lq_inner q) a s of None \<Rightarrow> 0 | Some st \<Rightarrow> queued_frames st) =
      length (filter (\<lambda>e. frame_names (e_msg e) = Some (a, s)) (queued q))" for a s
  proof -
    have "queued_frames (st_of (lq_inner q) (a, s)) = frames_in (mset (queued q)) (a, s)"
      using r(5) by (simp add: lq_wf_def books_def)
    then show ?thesis
      by (simp add: st_of_def frames_in_def entry_names_def flip: size_mset mset_filter split: option.splits)
  qed
  ultimately show ?thesis
    using r(1,3) by (auto simp: lq_inv_def live_queue_config_new_def usize_saturating_mul_def)
qed

theorem lq_bounds_witness:
  "bytes_queued (lq_inner (lq_after (live_queue_config_new 1 0) [(frame ResyncPoint, 5), (AuthOk, 6)])) \<le> 1048576"
  using lq_bounds [OF default_reach, of 1 0 "[(frame ResyncPoint, 5), (AuthOk, 6)]"] by simp

text \<open>
  C14. Pushing always returns. On every reachable queue a push ends (its eviction loop
  terminates), the queue stays within its bounds, and a message is refused as \<open>Full\<close> only when
  nothing but control messages is left in the queue.
\<close>

theorem lq_push_returns:
  assumes "lq_reach cfg q" "max_bytes cfg < usize_max"
  shows "\<exists>r q'. push_at msg now q = Some (r, q') \<and> length (queued q') \<le> max_messages (lq_cfg q) \<and>
    bytes_queued (lq_inner q') \<le> max_bytes (lq_cfg q) \<and>
    (r = Dropped Full \<longrightarrow> (\<forall>e \<in> set (queued q'). kind_of (e_msg e) = Control))"
proof -
  note r = reach_facts [OF assms]
  from push_at_ok [OF r(1,2), of msg now] obtain res q'
    where q': "push_at msg now q = Some (res, q')" "lq_inv q'" "push_effect msg now res q q'" by blast
  from q'(3) have cfg: "lq_cfg q' = lq_cfg q" unfolding push_effect_def by blast
  have "\<forall>e \<in> set (queued q'). e_kind e = Control" if "res = Dropped Full"
    using q'(3) that unfolding push_effect_def by auto
  moreover have "\<forall>e \<in> set (queued q'). entry_ok e" using q'(2) by (rule queued_entry_ok)
  ultimately show ?thesis using q'(1,2) cfg by (auto simp: lq_inv_def entry_ok_def)
qed

theorem lq_push_returns_witness:
  "\<exists>r q'. push_at AuthOk 9 (lq_after small_cfg [(frame Critical, 0)]) = Some (r, q')"
  using lq_push_returns [OF small_reach small_cfg_bound, of AuthOk 9] by blast

section \<open>Delivery\<close>

text \<open>
  C15. First in, first out, and control messages exactly once. Over any run of pushes and pops on
  a new queue, what was delivered followed by what is still queued is a subsequence of what was
  accepted (nothing is reordered, repeated or invented), and restricted to control messages it
  is exactly what was accepted: an accepted control message is never lost.
\<close>

theorem lq_fifo:
  assumes "queue_run lq_put pop_at (live_media_queue_new (live_queue_config_new mb age)) ops =
    (accepted, delivered, q)"
  shows "subseq (delivered @ messages q) accepted \<and>
    filter is_control (delivered @ messages q) = filter is_control accepted"
proof -
  have "lq_ok (live_media_queue_new (live_queue_config_new mb age))"
    using config_new_bounds(1) lq_inv_new by (simp add: lq_ok_def live_media_queue_new_def)
  from lq.run_fifo [OF this assms] show ?thesis by (simp add: live_media_queue_new_def)
qed

theorem lq_fifo_witness:
  "\<exists>q. queue_run lq_put pop_at (live_media_queue_new (live_queue_config_new 1 0))
         [Put AuthOk 1, Put (frame ResyncPoint) 1, Take 2] = ([AuthOk, frame ResyncPoint], [AuthOk], q) \<and>
       subseq ([AuthOk] @ messages q) [AuthOk, frame ResyncPoint]"
proof -
  obtain q where run: "queue_run lq_put pop_at (live_media_queue_new (live_queue_config_new 1 0))
      [Put AuthOk 1, Put (frame ResyncPoint) 1, Take 2] = ([AuthOk, frame ResyncPoint], [AuthOk], q)"
    by (simp add: lq_put_def lq_eval cfg_eval)
  with lq_fifo [OF run] show ?thesis by blast
qed



section \<open>Protection, freshness and resynchronisation\<close>





text \<open>
  A waiting stream sends nothing it would have to skip. While a stream waits for its resync
  point, no droppable frame and no earlier resync point of it is queued.
\<close>

theorem lq_awaiting_empty:
  assumes "lq_reach cfg q" and "max_bytes cfg < usize_max" and "awaiting_resync q a s"
  shows "\<forall>e \<in> set (queued q). frame_names (e_msg e) = Some (a, s) \<longrightarrow> kind_of (e_msg e) = Media Critical"
proof -
  note f = reach_facts [OF assms(1,2)]
  have "awaiting_since (st_of (lq_inner q) (a, s)) \<noteq> None"
    using assms(3) by (simp add: awaiting_resync_def is_awaiting_st_of)
  then have "evictable_bytes (st_of (lq_inner q) (a, s)) = 0" using f(5) by (simp add: lq_wf_def)
  then have none: "\<not> hits a s e" if "e \<in> set (queued q)" for e
    using evictable_in_pos [OF f(6), of a s] st_evictable [OF f(5)] that by auto
  show ?thesis
  proof (intro ballI impI)
    fix e assume e: "e \<in> set (queued q)" "frame_names (e_msg e) = Some (a, s)"
    then obtain h where "kind_of (e_msg e) = Media h" using frame_names_media by blast
    with none [OF e(1)] e f(6) show "kind_of (e_msg e) = Media Critical"
      by (auto simp: hits_def entry_names_def entry_ok_def)
  qed
qed

text \<open>
  C21. A lost connection discards exactly the non-critical media. After \<open>on_connection_reset\<close> the
  queue holds the control messages and critical frames it held before, in the same order, and
  nothing else.
\<close>

theorem lq_reset_keeps:
  assumes "lq_reach cfg q" and "max_bytes cfg < usize_max"
  shows "messages (on_connection_reset now q) = filter (\<lambda>m. \<not> evictable (kind_of m)) (messages q)"
proof -
  note f = reach_facts [OF assms]
  have "filter (\<lambda>m. \<not> evictable (kind_of m)) (map e_msg es) = map e_msg (filter (\<lambda>e. \<not> is_evictable e) es)"
    if "\<forall>e \<in> set es. entry_ok e" for es
    using that by (induction es) (auto simp: entry_ok_def)
  with on_connection_reset_ok(2) [OF f(1), of now] f(6) show ?thesis by simp
qed

text \<open>
  C21. A request for an init cache is taken exactly once. \<open>take_reinit\<close> answers whether the stream
  is flagged, even though it looks at the streams only when the shared hint is set, and clears
  the flag; the queue itself is untouched.
\<close>

theorem lq_take_reinit_exact:
  assumes "lq_reach cfg q" and "max_bytes cfg < usize_max" and "take_reinit a s q = (taken, q')"
  shows "taken = needs_reinit (st_of (lq_inner q) (a, s)) \<and> \<not> fst (take_reinit a s q') \<and>
    queued q' = queued q"
proof -
  note t = take_reinit_ok [OF reach_facts(1) [OF assms(1,2)] assms(3)]
  obtain taken2 q2 where again: "take_reinit a s q' = (taken2, q2)" by fastforce
  with t take_reinit_ok(2) [OF t(1) again] show ?thesis by simp
qed

definition evictable_load :: "live_media_queue \<Rightarrow> string \<times> string \<Rightarrow> nat" where
  "evictable_load q n =
     sum_list (map e_size (filter (\<lambda>e. is_evictable e \<and> frame_names (e_msg e) = Some n) (queued q)))"

lemma evictable_load_eq:
  assumes "lq_wf (lq_inner q)"
  shows "evictable_load q n = evictable_bytes (st_of (lq_inner q) n)"
proof -
  have "hits (fst n) (snd n) = (\<lambda>e. is_evictable e \<and> frame_names (e_msg e) = Some n)"
    by (simp add: fun_eq_iff hits_def entry_names_def)
  then show ?thesis
    unfolding evictable_load_def st_evictable [OF assms] evictable_in_def
    by (simp add: sum_mset_sum_list [symmetric])
qed

text \<open>
  Eviction hits the heaviest stream. The stream chosen for eviction has the most queued
  evictable bytes of all streams, counted over the queue itself, and among equals the smallest
  name; no stream is chosen only if no evictable frame is queued.
\<close>

theorem lq_heaviest:
  assumes "lq_reach cfg q" and "max_bytes cfg < usize_max"
  shows "case heaviest_evictable (lq_inner q) of
     None \<Rightarrow> \<forall>e \<in> set (queued q). \<not> is_evictable e
   | Some n \<Rightarrow> 0 < evictable_load q n \<and> (\<forall>m. evictable_load q m < evictable_load q n \<or>
       (evictable_load q m = evictable_load q n \<and> n \<le> m))"
proof -
  note f = reach_facts [OF assms]
  have ok: "nm_ok (streams (lq_inner q))" using f(5) by (simp add: lq_wf_def)
  show ?thesis
  proof (cases "heaviest_evictable (lq_inner q)")
    case None
    with no_evictable_iff [OF f(5)] heaviest_evictable_None [OF ok None] show ?thesis by simp
  next
    case (Some n)
    with heaviest_evictable_Some [OF ok Some] show ?thesis by (simp add: evictable_load_eq [OF f(5)])
  qed
qed


end
