(* ===== verification/Byte_Budget.thy ===== *)
theory Byte_Budget
  imports Rtmp_Prelude
begin

text \<open>
  The process-wide in-flight byte budget (\<open>InflightByteBudgetGuard\<close> of
  \<open>src/src/cluster/security.rs\<close>): a shared atomic counter and guards that hold reserved slices
  of it. \<open>try_reserve_inflight_bytes\<close>, \<open>grow\<close> and \<open>drop\<close> are given as the atomic operations they
  implement, and the compare-exchange loop itself as a step relation over interleaved threads.
\<close>

section \<open>Operations\<close>

record inflight_guard =
  ig_max :: nat
  ig_bytes :: nat

text \<open>One successful or refused pass of the loop in \<open>grow\<close>, on the counter and the guard.\<close>

definition grow :: "nat \<times> inflight_guard \<Rightarrow> nat \<Rightarrow> (nat \<times> inflight_guard) option" where
  "grow cg additional =
     (let (counter, guard) = cg
      in if additional = 0 then Some (counter, guard)
         else if ig_max guard < usize_saturating_add counter additional then None
         else Some (counter + additional, guard\<lparr>ig_bytes := ig_bytes guard + additional\<rparr>))"

definition guard_drop :: "nat \<times> inflight_guard \<Rightarrow> nat" where
  "guard_drop cg =
     (let (counter, guard) = cg in if 0 < ig_bytes guard then counter - ig_bytes guard else counter)"

definition try_reserve_inflight_bytes :: "nat \<Rightarrow> nat \<Rightarrow> nat \<Rightarrow> (nat \<times> inflight_guard) option" where
  "try_reserve_inflight_bytes counter mx len =
     (if len = 0 then Some (counter, \<lparr>ig_max = mx, ig_bytes = 0\<rparr>)
      else if mx < usize_saturating_add counter len then None
      else Some (counter + len, \<lparr>ig_max = mx, ig_bytes = len\<rparr>))"

lemma try_reserve_is_grow:
  "try_reserve_inflight_bytes counter mx len = grow (counter, \<lparr>ig_max = mx, ig_bytes = 0\<rparr>) len"
  by (simp add: try_reserve_inflight_bytes_def grow_def)

lemma grow_charges:
  "grow (counter, guard) n = Some (counter', guard') \<Longrightarrow>
   counter' = counter + n \<and> ig_bytes guard' = ig_bytes guard + n \<and> ig_max guard' = ig_max guard"
  by (auto simp: grow_def Let_def split: if_splits)

lemma grow_bounded:
  "grow (counter, guard) n = Some (counter', guard') \<Longrightarrow> counter \<le> ig_max guard \<Longrightarrow>
   ig_max guard < usize_max \<Longrightarrow> counter' \<le> ig_max guard"
  using usize_saturating_add_le by (auto simp: grow_def Let_def not_less split: if_splits)

section \<open>Interleaved threads\<close>

text \<open>
  A thread owns at most one guard with \<open>held\<close> bytes; \<open>loaded\<close> is the value \<open>cur\<close> it read and the
  bytes it wants, between the load and the compare-exchange.
\<close>

record budget_thread =
  held :: nat
  loaded :: "(nat \<times> nat) option"

record budget_state =
  counter :: nat
  threads :: "budget_thread list"

abbreviation set_thread :: "nat \<Rightarrow> budget_thread \<Rightarrow> budget_state \<Rightarrow> budget_state" where
  "set_thread i t s \<equiv> s\<lparr>threads := (threads s)[i := t]\<rparr>"

inductive budget_step :: "nat \<Rightarrow> budget_state \<Rightarrow> budget_state \<Rightarrow> bool" for mx where
  load: "i < length (threads s) \<Longrightarrow> threads s ! i = t \<Longrightarrow> loaded t = None \<Longrightarrow> n \<noteq> 0 \<Longrightarrow>
    budget_step mx s (set_thread i (t\<lparr>loaded := Some (counter s, n)\<rparr>) s)"
| refuse: "i < length (threads s) \<Longrightarrow> threads s ! i = t \<Longrightarrow> loaded t = Some (cur, n) \<Longrightarrow>
    mx < usize_saturating_add cur n \<Longrightarrow>
    budget_step mx s (set_thread i (t\<lparr>loaded := None\<rparr>) s)"
| exchange: "i < length (threads s) \<Longrightarrow> threads s ! i = t \<Longrightarrow> loaded t = Some (cur, n) \<Longrightarrow>
    \<not> mx < usize_saturating_add cur n \<Longrightarrow> counter s = cur \<Longrightarrow>
    budget_step mx s (set_thread i (t\<lparr>held := held t + n, loaded := None\<rparr>) (s\<lparr>counter := cur + n\<rparr>))"
| retry: "i < length (threads s) \<Longrightarrow> threads s ! i = t \<Longrightarrow> loaded t = Some (cur, n) \<Longrightarrow>
    \<not> mx < usize_saturating_add cur n \<Longrightarrow> counter s \<noteq> cur \<Longrightarrow>
    budget_step mx s (set_thread i (t\<lparr>loaded := Some (counter s, n)\<rparr>) s)"
| release: "i < length (threads s) \<Longrightarrow> threads s ! i = t \<Longrightarrow> loaded t = None \<Longrightarrow> 0 < held t \<Longrightarrow>
    budget_step mx s (set_thread i (t\<lparr>held := 0\<rparr>) (s\<lparr>counter := counter s - held t\<rparr>))"

inductive budget_reach :: "nat \<Rightarrow> budget_state \<Rightarrow> bool" for mx where
  start: "budget_reach mx \<lparr>counter = 0, threads = replicate n \<lparr>held = 0, loaded = None\<rparr>\<rparr>"
| step: "budget_reach mx s \<Longrightarrow> budget_step mx s s' \<Longrightarrow> budget_reach mx s'"

definition budget_inv :: "nat \<Rightarrow> budget_state \<Rightarrow> bool" where
  "budget_inv mx s \<longleftrightarrow> counter s = sum_list (map held (threads s)) \<and> counter s \<le> mx"

lemma sum_list_set_thread:
  "i < length ts \<Longrightarrow> sum_list (map held (ts[i := t])) + held (ts ! i) = sum_list (map held ts) + held t"
  by (induction ts arbitrary: i) (auto split: nat.splits)

lemma held_le: "i < length ts \<Longrightarrow> held (ts ! i) \<le> sum_list (map held ts)"
  by (simp add: elem_le_sum_list [of i "map held ts", simplified])

lemma budget_step_inv:
  assumes "budget_step mx s s'" "mx < usize_max" "budget_inv mx s"
  shows "budget_inv mx s'"
  using assms
proof cases
  case (exchange i t cur n)
  with assms(2,3) sum_list_set_thread [of i "threads s" "t\<lparr>held := held t + n, loaded := None\<rparr>"]
    usize_saturating_add_le [of cur n mx]
  show ?thesis by (auto simp: budget_inv_def)
next
  case (release i t)
  with assms(3) sum_list_set_thread [of i "threads s" "t\<lparr>held := 0\<rparr>"] held_le [of i "threads s"]
  show ?thesis by (auto simp: budget_inv_def)
next
  case (load i t n)
  with assms(3) sum_list_set_thread [of i "threads s" "t\<lparr>loaded := Some (counter s, n)\<rparr>"]
  show ?thesis by (auto simp: budget_inv_def)
next
  case (refuse i t cur n)
  with assms(3) sum_list_set_thread [of i "threads s" "t\<lparr>loaded := None\<rparr>"]
  show ?thesis by (auto simp: budget_inv_def)
next
  case (retry i t cur n)
  with assms(3) sum_list_set_thread [of i "threads s" "t\<lparr>loaded := Some (counter s, n)\<rparr>"]
  show ?thesis by (auto simp: budget_inv_def)
qed



end
