(* ===== verification/Wire.thy ===== *)
theory Wire
  imports Protocol
begin

unbundle bit_operations_syntax

text \<open>
  Framing of the media plane (\<open>src/src/cluster/media/wire.rs\<close>), protocol versions 1 and 2.

  A writer is the list of bytes it sends. A reader consumes a list of bytes, the bytes the peer
  will have sent before the connection ends, and threads the budget guard through. Arguments of
  the definitions stand for code of other crates: \<open>to_json\<close> and \<open>from_json\<close> for \<open>serde_json\<close> on
  \<open>MediaMessage\<close>, \<open>hint_to_u8\<close> and \<open>hint_from_u8\<close> for \<open>DeliveryHint\<close> of \<open>librtmp2\<close>; \<open>reserve\<close> is the
  method of the \<open>FrameBudget\<close> trait. The body timeout has no counterpart: it only turns a read
  that does not finish into an error.
\<close>

section \<open>Constants\<close>

definition MAX_FRAME :: nat where "MAX_FRAME = 32 * 1024 * 1024"
definition MAX_CONTROL_FRAME :: nat where "MAX_CONTROL_FRAME = 256 * 1024"
definition READ_BUDGET_CHUNK :: nat where "READ_BUDGET_CHUNK = 256 * 1024"
definition MAX_APP_LEN :: nat where "MAX_APP_LEN = 255"
definition MAX_STREAM_LEN :: nat where "MAX_STREAM_LEN = 1024"
definition KIND_CONTROL :: u8 where "KIND_CONTROL = 0"
definition KIND_MEDIA_FRAME :: u8 where "KIND_MEDIA_FRAME = 1"
definition KIND_INIT_CACHE :: u8 where "KIND_INIT_CACHE = 2"
definition MEDIA_FIXED_LEN :: nat where "MEDIA_FIXED_LEN = 1 + 1 + 1 + 8 + 4 + 4 + 1 + 2 + 4"
definition INIT_FIXED_LEN :: nat where "INIT_FIXED_LEN = 1 + 8 + 4 + 1 + 2"
definition COALESCE_PAYLOAD_MAX :: nat where "COALESCE_PAYLOAD_MAX = 16 * 1024"

definition is_supported_version :: "u16 \<Rightarrow> bool" where
  "is_supported_version version \<longleftrightarrow> MEDIA_PROTOCOL_MIN_VERSION \<le> version \<and> version \<le> MEDIA_PROTOCOL_VERSION"

datatype wire_error =
    InvalidData string
  | OtherError string
  | Unsupported
  | UnexpectedEof
  | JsonError
  | BudgetExceeded

section \<open>Big-endian integers and UTF-8\<close>

text \<open>\<open>to_be_bytes\<close> at a width of \<open>n\<close> bytes and \<open>from_be_bytes\<close>, on the value.\<close>

primrec be_bytes :: "nat \<Rightarrow> nat \<Rightarrow> bytes" where
  "be_bytes 0 x = []"
| "be_bytes (Suc n) x = be_bytes n (x div 256) @ [of_nat (x mod 256)]"

definition from_be :: "bytes \<Rightarrow> nat" where
  "from_be bs = foldl (\<lambda>a b. a * 256 + unat b) 0 bs"

definition in_range :: "u8 \<Rightarrow> u8 \<Rightarrow> u8 \<Rightarrow> bool" where
  "in_range lo hi b \<longleftrightarrow> lo \<le> b \<and> b \<le> hi"

abbreviation is_cont :: "u8 \<Rightarrow> bool" where
  "is_cont \<equiv> in_range 0x80 0xBF"

text \<open>The well-formed byte sequences that \<open>String::from_utf8\<close> accepts.\<close>

fun utf8_valid :: "bytes \<Rightarrow> bool" where
  "utf8_valid [] = True"
| "utf8_valid (b # bs) =
     (if b < 0x80 then utf8_valid bs
      else if in_range 0xC2 0xDF b then
        (case bs of c # cs \<Rightarrow> is_cont c \<and> utf8_valid cs | _ \<Rightarrow> False)
      else if in_range 0xE0 0xEF b then
        (case bs of
           c # d # ds \<Rightarrow>
             (if b = 0xE0 then in_range 0xA0 0xBF c
              else if b = 0xED then in_range 0x80 0x9F c else is_cont c) \<and>
             is_cont d \<and> utf8_valid ds
         | _ \<Rightarrow> False)
      else if in_range 0xF0 0xF4 b then
        (case bs of
           c # d # e # es \<Rightarrow>
             (if b = 0xF0 then in_range 0x90 0xBF c
              else if b = 0xF4 then in_range 0x80 0x8F c else is_cont c) \<and>
             is_cont d \<and> is_cont e \<and> utf8_valid es
         | _ \<Rightarrow> False)
      else False)"

definition string_from_utf8 :: "bytes \<Rightarrow> string option" where
  "string_from_utf8 buf = (if utf8_valid buf then Some (bytes_str buf) else None)"

section \<open>Writing\<close>

definition check_names :: "string \<Rightarrow> string \<Rightarrow> wire_error + unit" where
  "check_names app stream =
     (if MAX_APP_LEN < length app \<or> MAX_STREAM_LEN < length stream
      then Inl (OtherError ''media name too long'') else Inr ())"

definition check_message_names :: "media_message \<Rightarrow> wire_error + unit" where
  "check_message_names msg =
     (case message_names msg of Some (app, stream) \<Rightarrow> check_names app stream | None \<Rightarrow> Inr ())"

definition frame_len :: "nat \<Rightarrow> wire_error + nat" where
  "frame_len len = (if MAX_FRAME < len then Inl (OtherError ''media frame too large'') else Inr len)"

text \<open>The \<open>?\<close> operator.\<close>

definition and_then :: "'e + 'a \<Rightarrow> ('a \<Rightarrow> 'e + 'b) \<Rightarrow> 'e + 'b" where
  "and_then r f = (case r of Inl e \<Rightarrow> Inl e | Inr a \<Rightarrow> f a)"

definition write_frame_v1 :: "(media_message \<Rightarrow> bytes option) \<Rightarrow> media_message \<Rightarrow> wire_error + bytes" where
  "write_frame_v1 to_json msg =
     (case to_json msg of
        None \<Rightarrow> Inl JsonError
      | Some bs \<Rightarrow>
          if MAX_FRAME < length bs then Inl (OtherError ''media frame too large'')
          else Inr (be_bytes 4 (length bs) @ bs))"

definition write_media_frame ::
    "(delivery_hint \<Rightarrow> u8) \<Rightarrow> string \<Rightarrow> string \<Rightarrow> u64 \<Rightarrow> u8 \<Rightarrow> u32 \<Rightarrow> u32 \<Rightarrow> delivery_hint \<Rightarrow> bytes \<Rightarrow>
     wire_error + bytes" where
  "write_media_frame hint_to_u8 app stream epoch frame_type timestamp timeline_ts hint payload =
     and_then (check_names app stream) (\<lambda>_.
     and_then (frame_len (1 + MEDIA_FIXED_LEN + length app + length stream + length payload)) (\<lambda>body_len.
       let head = be_bytes 4 body_len @ [KIND_MEDIA_FRAME, hint_to_u8 hint, frame_type, 0] @
                  be_bytes 8 (unat epoch) @ be_bytes 4 (unat timestamp) @ be_bytes 4 (unat timeline_ts) @
                  [of_nat (length app)] @ be_bytes 2 (length stream) @ be_bytes 4 (length payload) @
                  str_bytes app @ str_bytes stream
       in Inr (if length payload \<le> COALESCE_PAYLOAD_MAX
               then head @ payload
               else concat [head, payload])))"

definition init_parts ::
    "bytes option \<Rightarrow> bytes option \<Rightarrow> bytes option \<Rightarrow> (u32 \<times> bytes) option \<Rightarrow> bytes option list" where
  "init_parts metadata avc_header aac_header keyframe =
     [metadata, avc_header, aac_header, map_option snd keyframe]"

text \<open>The loop over the parts: the presence bits and the length of the body.\<close>

definition presence_of :: "bytes option list \<Rightarrow> u8" where
  "presence_of parts =
     foldl (\<lambda>p (i, part). case part of None \<Rightarrow> p | Some _ \<Rightarrow> p OR push_bit i 1) 0 (List.enumerate 0 parts)"

definition parts_len :: "bytes option list \<Rightarrow> nat" where
  "parts_len parts = sum_list (map (\<lambda>part. case part of None \<Rightarrow> 0 | Some p \<Rightarrow> 4 + length p) parts)"

definition write_parts :: "bytes option list \<Rightarrow> bytes" where
  "write_parts parts =
     concat (map (\<lambda>part. case part of None \<Rightarrow> [] | Some p \<Rightarrow> be_bytes 4 (length p) @ p) parts)"

definition write_init_cache ::
    "string \<Rightarrow> string \<Rightarrow> u64 \<Rightarrow> bytes option \<Rightarrow> bytes option \<Rightarrow> bytes option \<Rightarrow> (u32 \<times> bytes) option \<Rightarrow>
     wire_error + bytes" where
  "write_init_cache app stream epoch metadata avc_header aac_header keyframe =
     and_then (check_names app stream) (\<lambda>_.
       let parts = init_parts metadata avc_header aac_header keyframe
       in and_then (frame_len (1 + INIT_FIXED_LEN + length app + length stream + parts_len parts)) (\<lambda>body_len.
            Inr (be_bytes 4 body_len @ [KIND_INIT_CACHE, presence_of parts] @ be_bytes 8 (unat epoch) @
                 be_bytes 4 (case keyframe of None \<Rightarrow> 0 | Some (ts, _) \<Rightarrow> unat ts) @
                 [of_nat (length app)] @ be_bytes 2 (length stream) @
                 str_bytes app @ str_bytes stream @ write_parts parts)))"

definition write_control ::
    "(media_message \<Rightarrow> bytes option) \<Rightarrow> media_message \<Rightarrow> wire_error + bytes" where
  "write_control to_json msg =
     (case to_json msg of
        None \<Rightarrow> Inl JsonError
      | Some json \<Rightarrow>
          if MAX_CONTROL_FRAME < 1 + length json then Inl (OtherError ''media control frame too large'')
          else and_then (frame_len (1 + length json)) (\<lambda>body_len.
                 Inr (be_bytes 4 body_len @ [KIND_CONTROL] @ json)))"

fun write_frame_v2 ::
    "(media_message \<Rightarrow> bytes option) \<Rightarrow> (delivery_hint \<Rightarrow> u8) \<Rightarrow> media_message \<Rightarrow> wire_error + bytes" where
  "write_frame_v2 to_json hint_to_u8 (MediaFrame app stream epoch ft ts tlts hint payload) =
     write_media_frame hint_to_u8 app stream epoch ft ts tlts hint payload"
| "write_frame_v2 to_json hint_to_u8 (InitCache app stream epoch md avc aac kf) =
     write_init_cache app stream epoch md avc aac kf"
| "write_frame_v2 to_json hint_to_u8 other = write_control to_json other"

definition write_frame ::
    "(media_message \<Rightarrow> bytes option) \<Rightarrow> (delivery_hint \<Rightarrow> u8) \<Rightarrow> media_message \<Rightarrow> u16 \<Rightarrow> wire_error + bytes" where
  "write_frame to_json hint_to_u8 msg version =
     (if 2 \<le> version then write_frame_v2 to_json hint_to_u8 msg else write_frame_v1 to_json msg)"

section \<open>Reading\<close>

text \<open>The outcome of a read: an error, or a value with the remaining input; the budget either way.\<close>

type_synonym ('g, 'a) wire_res = "(wire_error \<times> 'g) + ('a \<times> bytes \<times> 'g)"

definition rbind :: "('g, 'a) wire_res \<Rightarrow> ('a \<Rightarrow> bytes \<Rightarrow> 'g \<Rightarrow> ('g, 'b) wire_res) \<Rightarrow> ('g, 'b) wire_res" where
  "rbind r f = (case r of Inl e \<Rightarrow> Inl e | Inr (a, inp, b) \<Rightarrow> f a inp b)"

definition read_exact :: "nat \<Rightarrow> bytes \<Rightarrow> 'g \<Rightarrow> ('g, bytes) wire_res" where
  "read_exact n inp b = (if length inp < n then Inl (UnexpectedEof, b) else Inr (take n inp, drop n inp, b))"

definition reserve_body :: "('g \<Rightarrow> nat \<Rightarrow> 'g option) \<Rightarrow> nat \<Rightarrow> bytes \<Rightarrow> 'g \<Rightarrow> ('g, unit) wire_res" where
  "reserve_body reserve n inp b =
     (case reserve b n of None \<Rightarrow> Inl (BudgetExceeded, b) | Some b' \<Rightarrow> Inr ((), inp, b'))"

definition read_exact_budgeted :: "('g \<Rightarrow> nat \<Rightarrow> 'g option) \<Rightarrow> nat \<Rightarrow> bytes \<Rightarrow> 'g \<Rightarrow> ('g, bytes) wire_res" where
  "read_exact_budgeted reserve n inp b =
     rbind (reserve_body reserve n inp b) (\<lambda>_ inp b. read_exact n inp b)"

text \<open>The loop of \<open>read_vec\<close>: \<open>buf\<close> holds what has been read so far.\<close>

function read_vec_loop ::
    "('g \<Rightarrow> nat \<Rightarrow> 'g option) \<Rightarrow> nat \<Rightarrow> bytes \<Rightarrow> bytes \<Rightarrow> 'g \<Rightarrow> ('g, bytes) wire_res" where
  "read_vec_loop reserve remaining buf inp b =
     (if remaining = 0 then Inr (buf, inp, b)
      else
        let step = min remaining READ_BUDGET_CHUNK
        in rbind (read_exact_budgeted reserve step inp b)
             (\<lambda>chunk inp b. read_vec_loop reserve (remaining - step) (buf @ chunk) inp b))"
  by pat_completeness auto
termination by (relation "measure (\<lambda>(_, remaining, _). remaining)") (auto simp: READ_BUDGET_CHUNK_def)

definition read_vec :: "('g \<Rightarrow> nat \<Rightarrow> 'g option) \<Rightarrow> nat \<Rightarrow> bytes \<Rightarrow> 'g \<Rightarrow> ('g, bytes) wire_res" where
  "read_vec reserve len inp b = read_vec_loop reserve len [] inp b"

definition read_string :: "('g \<Rightarrow> nat \<Rightarrow> 'g option) \<Rightarrow> nat \<Rightarrow> bytes \<Rightarrow> 'g \<Rightarrow> ('g, string) wire_res" where
  "read_string reserve len inp b =
     rbind (read_vec reserve len inp b) (\<lambda>buf inp b.
       case string_from_utf8 buf of
         None \<Rightarrow> Inl (InvalidData ''name is not UTF-8'', b)
       | Some s \<Rightarrow> Inr (s, inp, b))"

text \<open>\<open>h[i..j]\<close>.\<close>

definition slice :: "nat \<Rightarrow> nat \<Rightarrow> bytes \<Rightarrow> bytes" where
  "slice i j h = take (j - i) (drop i h)"

definition read_media_frame_v2 ::
    "('g \<Rightarrow> nat \<Rightarrow> 'g option) \<Rightarrow> (u8 \<Rightarrow> delivery_hint option) \<Rightarrow> nat \<Rightarrow> bytes \<Rightarrow> 'g \<Rightarrow>
     ('g, media_message) wire_res" where
  "read_media_frame_v2 reserve hint_from_u8 rest inp b =
     (if rest < MEDIA_FIXED_LEN then Inl (InvalidData ''truncated v2 media header'', b)
      else rbind (read_exact_budgeted reserve MEDIA_FIXED_LEN inp b) (\<lambda>h inp b.
        case hint_from_u8 (h ! 0) of
          None \<Rightarrow> Inl (InvalidData ''unknown delivery hint'', b)
        | Some hint \<Rightarrow>
          (let frame_type = h ! 1
           in if frame_type_to_librtmp2 frame_type = None then Inl (InvalidData ''unknown frame type'', b)
              else if h ! 2 \<noteq> 0 then Inl (InvalidData ''unknown v2 media flags'', b)
              else
                let epoch = of_nat (from_be (slice 3 11 h));
                    timestamp = of_nat (from_be (slice 11 15 h));
                    timeline_ts = of_nat (from_be (slice 15 19 h));
                    app_len = unat (h ! 19);
                    stream_len = from_be (slice 20 22 h);
                    payload_len = from_be (slice 22 26 h)
                in if MAX_STREAM_LEN < stream_len then Inl (InvalidData ''stream name too long'', b)
                   else
                     (case Option.bind (usize_checked_add MEDIA_FIXED_LEN app_len) (\<lambda>n.
                             Option.bind (usize_checked_add n stream_len) (\<lambda>n.
                             usize_checked_add n payload_len)) of
                        None \<Rightarrow> Inl (InvalidData ''v2 media length overflow'', b)
                      | Some expected \<Rightarrow>
                          if expected \<noteq> rest then Inl (InvalidData ''v2 media length mismatch'', b)
                          else
                            rbind (read_string reserve app_len inp b) (\<lambda>app inp b.
                            rbind (read_string reserve stream_len inp b) (\<lambda>stream inp b.
                            rbind (read_vec reserve payload_len inp b) (\<lambda>payload inp b.
                              Inr (MediaFrame app stream epoch frame_type timestamp timeline_ts hint payload,
                                   inp, b))))))))"

text \<open>The loop over the four optional parts; \<open>i\<close> is the bit of the part.\<close>

fun read_parts ::
    "('g \<Rightarrow> nat \<Rightarrow> 'g option) \<Rightarrow> u8 \<Rightarrow> nat list \<Rightarrow> nat \<Rightarrow> bytes \<Rightarrow> 'g \<Rightarrow>
     ('g, bytes option list \<times> nat) wire_res" where
  "read_parts reserve presence [] remaining inp b = Inr (([], remaining), inp, b)"
| "read_parts reserve presence (i # is) remaining inp b =
     (if presence AND push_bit i 1 = 0 then
        rbind (read_parts reserve presence is remaining inp b) (\<lambda>(parts, remaining) inp b.
          Inr ((None # parts, remaining), inp, b))
      else if remaining < 4 then Inl (InvalidData ''truncated v2 init-cache part'', b)
      else
        rbind (read_exact_budgeted reserve 4 inp b) (\<lambda>lenb inp b.
          let len = from_be lenb; remaining = remaining - 4
          in if remaining < len then Inl (InvalidData ''v2 init-cache part exceeds frame'', b)
             else
               rbind (read_vec reserve len inp b) (\<lambda>buf inp b.
               rbind (read_parts reserve presence is (remaining - len) inp b) (\<lambda>(parts, remaining) inp b.
                 Inr ((Some buf # parts, remaining), inp, b)))))"

definition read_init_cache_v2 ::
    "('g \<Rightarrow> nat \<Rightarrow> 'g option) \<Rightarrow> nat \<Rightarrow> bytes \<Rightarrow> 'g \<Rightarrow> ('g, media_message) wire_res" where
  "read_init_cache_v2 reserve rest inp b =
     (if rest < INIT_FIXED_LEN then Inl (InvalidData ''truncated v2 init-cache header'', b)
      else rbind (read_exact_budgeted reserve INIT_FIXED_LEN inp b) (\<lambda>h inp b.
        let presence = h ! 0
        in if presence AND NOT 0x0F \<noteq> 0 then Inl (InvalidData ''unknown init-cache parts'', b)
           else
             let epoch = of_nat (from_be (slice 1 9 h));
                 keyframe_ts = of_nat (from_be (slice 9 13 h));
                 app_len = unat (h ! 13);
                 stream_len = from_be (slice 14 16 h)
             in if MAX_STREAM_LEN < stream_len then Inl (InvalidData ''stream name too long'', b)
                else
                  let remaining = rest - INIT_FIXED_LEN
                  in (case usize_checked_add app_len stream_len of
                        None \<Rightarrow> Inl (InvalidData ''truncated v2 init-cache names'', b)
                      | Some names \<Rightarrow>
                          if remaining < names then Inl (InvalidData ''truncated v2 init-cache names'', b)
                          else
                            rbind (read_string reserve app_len inp b) (\<lambda>app inp b.
                            rbind (read_string reserve stream_len inp b) (\<lambda>stream inp b.
                            rbind (read_parts reserve presence [0, 1, 2, 3] (remaining - names) inp b)
                              (\<lambda>(parts, remaining) inp b.
                                if remaining \<noteq> 0 then
                                  Inl (InvalidData ''trailing bytes in v2 init-cache'', b)
                                else
                                  Inr (InitCache app stream epoch (parts ! 0) (parts ! 1) (parts ! 2)
                                         (map_option (Pair keyframe_ts) (parts ! 3)), inp, b)))))))"

definition read_control_v2 ::
    "('g \<Rightarrow> nat \<Rightarrow> 'g option) \<Rightarrow> (bytes \<Rightarrow> media_message option) \<Rightarrow> nat \<Rightarrow> bytes \<Rightarrow> 'g \<Rightarrow>
     ('g, media_message) wire_res" where
  "read_control_v2 reserve from_json rest inp b =
     rbind (read_vec reserve rest inp b) (\<lambda>buf inp b.
       case from_json buf of
         None \<Rightarrow> Inl (JsonError, b)
       | Some msg \<Rightarrow>
           if (case msg of MediaFrame _ _ _ _ _ _ _ _ \<Rightarrow> True | InitCache _ _ _ _ _ _ _ \<Rightarrow> True | _ \<Rightarrow> False)
           then Inl (InvalidData ''media message sent as control in v2'', b)
           else (case check_message_names msg of Inl e \<Rightarrow> Inl (e, b) | Inr _ \<Rightarrow> Inr (msg, inp, b)))"

definition read_body_v2 ::
    "('g \<Rightarrow> nat \<Rightarrow> 'g option) \<Rightarrow> (bytes \<Rightarrow> media_message option) \<Rightarrow> (u8 \<Rightarrow> delivery_hint option) \<Rightarrow>
     u8 \<Rightarrow> nat \<Rightarrow> bytes \<Rightarrow> 'g \<Rightarrow> ('g, media_message) wire_res" where
  "read_body_v2 reserve from_json hint_from_u8 kind rest inp b =
     (if kind = KIND_CONTROL then read_control_v2 reserve from_json rest inp b
      else if kind = KIND_MEDIA_FRAME then read_media_frame_v2 reserve hint_from_u8 rest inp b
      else if kind = KIND_INIT_CACHE then read_init_cache_v2 reserve rest inp b
      else if kind = 0x7B \<or> kind = 0x22 then Inl (Unsupported, b)
      else Inl (InvalidData ''unknown v2 message kind'', b))"

definition read_v1 ::
    "('g \<Rightarrow> nat \<Rightarrow> 'g option) \<Rightarrow> (bytes \<Rightarrow> media_message option) \<Rightarrow> nat \<Rightarrow> bytes \<Rightarrow> 'g \<Rightarrow>
     ('g, media_message) wire_res" where
  "read_v1 reserve from_json len inp b =
     rbind (read_vec reserve len inp b) (\<lambda>buf inp b.
       case from_json buf of
         None \<Rightarrow> Inl (JsonError, b)
       | Some msg \<Rightarrow> (case check_message_names msg of Inl e \<Rightarrow> Inl (e, b) | Inr _ \<Rightarrow> Inr (msg, inp, b)))"

text \<open>The body of a frame whose length prefix said \<open>len\<close>, with the guard of the frame.\<close>

definition read_frame_body ::
    "('g \<Rightarrow> nat \<Rightarrow> 'g option) \<Rightarrow> (bytes \<Rightarrow> media_message option) \<Rightarrow> (u8 \<Rightarrow> delivery_hint option) \<Rightarrow>
     u16 \<Rightarrow> nat \<Rightarrow> bytes \<Rightarrow> 'g \<Rightarrow> ('g, media_message) wire_res" where
  "read_frame_body reserve from_json hint_from_u8 version len inp b0 =
     (if 2 \<le> version then
        (if len = 0 then Inl (InvalidData ''empty v2 frame'', b0)
         else rbind (reserve_body reserve 1 inp b0) (\<lambda>_ inp b.
              rbind (read_exact 1 inp b) (\<lambda>kindb inp b.
                let kind = kindb ! 0
                in if kind = KIND_CONTROL \<and> MAX_CONTROL_FRAME < len
                   then Inl (OtherError ''media control frame too large'', b)
                   else read_body_v2 reserve from_json hint_from_u8 kind (len - 1) inp b)))
      else read_v1 reserve from_json len inp b0)"

text \<open>
  \<open>new_guard\<close> stands for the argument \<open>reserve\<close> of the source, which creates the guard of the
  frame; the guard is released when the frame was read or the read failed.
\<close>

definition read_frame ::
    "('g \<Rightarrow> nat \<Rightarrow> 'g option) \<Rightarrow> (bytes \<Rightarrow> media_message option) \<Rightarrow> (u8 \<Rightarrow> delivery_hint option) \<Rightarrow>
     u16 \<Rightarrow> nat \<Rightarrow> (nat \<Rightarrow> 'g option) \<Rightarrow> bytes \<Rightarrow> wire_error + (media_message \<times> bytes)" where
  "read_frame reserve from_json hint_from_u8 version mx new_guard inp0 =
     (case read_exact 4 inp0 () of
        Inl (e, _) \<Rightarrow> Inl e
      | Inr (lenb, inp, _) \<Rightarrow>
          (let len = from_be lenb
           in if mx < len then Inl (OtherError ''media frame too large'')
              else case new_guard len of
                None \<Rightarrow> Inl BudgetExceeded
              | Some b0 \<Rightarrow>
                  (case read_frame_body reserve from_json hint_from_u8 version len inp b0 of
                     Inl (e, _) \<Rightarrow> Inl e
                   | Inr (msg, inp, _) \<Rightarrow> Inr (msg, inp))))"

end
