(* ===== verification/Wire_Budget.thy ===== *)
theory Wire_Budget
  imports Wire Byte_Budget
begin

unbundle bit_operations_syntax

text \<open>
  Framing discipline and budget of the frame reader. The interface \<open>frame_budget\<close> is the
  \<open>FrameBudget\<close> trait: a reservation that succeeds charges exactly what was asked. The reader is
  shown to consume exactly the declared length of a frame it accepts, to charge exactly that
  much, and never to charge much more than what the peer really sent.
\<close>

declare read_vec_loop.simps [simp del]

locale frame_budget =
  fixes reserve :: "'g \<Rightarrow> nat \<Rightarrow> 'g option"
    and charged :: "'g \<Rightarrow> nat"
  assumes reserve_charges: "reserve b n = Some b' \<Longrightarrow> charged b' = charged b + n"
begin

text \<open>
  \<open>framed n inp b r\<close>: a success consumed and charged exactly \<open>n\<close> bytes; a failure charged at most
  \<open>n\<close>, and at most one chunk more than what the input offered.
\<close>

definition framed :: "nat \<Rightarrow> bytes \<Rightarrow> 'g \<Rightarrow> ('g, 'a) wire_res \<Rightarrow> bool" where
  "framed n inp b r \<longleftrightarrow> (case r of
     Inl (e, b') \<Rightarrow> charged b' \<le> charged b + n \<and> charged b' \<le> charged b + length inp + READ_BUDGET_CHUNK
   | Inr (a, inp', b') \<Rightarrow> n \<le> length inp \<and> inp' = drop n inp \<and> charged b' = charged b + n)"

lemma framed_error [simp]: "framed n inp b (Inl (e, b))"
  by (simp add: framed_def)

lemma framed_return: "framed 0 inp b (Inr (a, inp, b))"
  by (simp add: framed_def)

lemma framed_bind:
  assumes r: "framed n inp b r"
    and f: "\<And>a inp' b'. r = Inr (a, inp', b') \<Longrightarrow> framed m inp' b' (f a inp' b')"
  shows "framed (n + m) inp b (rbind r f)"
proof (cases r)
  case (Inl eb)
  with r show ?thesis by (cases eb) (auto simp: framed_def rbind_def)
next
  case (Inr x)
  obtain a inp' b' where x: "x = (a, inp', b')" by (cases x)
  have first: "n \<le> length inp" "inp' = drop n inp" "charged b' = charged b + n"
    using r Inr x by (simp_all add: framed_def)
  have "framed m inp' b' (f a inp' b')" using f Inr x by simp
  then show ?thesis
    using first unfolding framed_def rbind_def Inr x
    by (auto simp: add.commute split: sum.splits)
qed

lemma framed_if:
  "(c \<Longrightarrow> framed n i b x) \<Longrightarrow> (\<not> c \<Longrightarrow> framed n i b y) \<Longrightarrow> framed n i b (if c then x else y)"
  by simp

lemma framed_option:
  "(v = None \<Longrightarrow> framed n i b x) \<Longrightarrow> (\<And>a. v = Some a \<Longrightarrow> framed n i b (f a)) \<Longrightarrow>
   framed n i b (case v of None \<Rightarrow> x | Some a \<Rightarrow> f a)"
  by (cases v) simp_all

lemma framed_reserve_read:
  "n \<le> READ_BUDGET_CHUNK \<Longrightarrow> framed n inp b (read_exact_budgeted reserve n inp b)"
  using reserve_charges [of b n]
  by (auto simp: framed_def read_exact_budgeted_def reserve_body_def rbind_def read_exact_def split: option.splits)

lemma framed_read_vec_loop: "framed remaining inp b (read_vec_loop reserve remaining buf inp b)"
proof (induction remaining arbitrary: buf inp b rule: less_induct)
  case (less remaining)
  show ?case
  proof (cases "remaining = 0")
    case True
    then show ?thesis by (subst read_vec_loop.simps) (simp add: framed_return)
  next
    case False
    let ?step = "min remaining READ_BUDGET_CHUNK"
    have "0 < ?step" using False by (simp add: READ_BUDGET_CHUNK_def)
    then have dec: "remaining - ?step < remaining" using False by simp
    have "framed (?step + (remaining - ?step)) inp b
        (rbind (read_exact_budgeted reserve ?step inp b)
          (\<lambda>chunk inp b. read_vec_loop reserve (remaining - ?step) (buf @ chunk) inp b))"
      by (rule framed_bind [OF framed_reserve_read less.IH [OF dec]]) simp
    moreover have "?step + (remaining - ?step) = remaining" by simp
    ultimately show ?thesis
      using False by (subst read_vec_loop.simps) (simp add: Let_def)
  qed
qed

lemma framed_read_vec: "framed len inp b (read_vec reserve len inp b)"
  by (simp add: read_vec_def framed_read_vec_loop)

lemma framed_read_string: "framed len inp b (read_string reserve len inp b)"
  unfolding read_string_def
  using framed_bind [OF framed_read_vec, of len inp b 0] by (force simp: framed_return split: option.split)

lemma framed_media: "framed rest inp b (read_media_frame_v2 reserve hint_from_u8 rest inp b)"
proof (cases "rest < MEDIA_FIXED_LEN")
  case True
  then show ?thesis by (simp add: read_media_frame_v2_def)
next
  case False
  have small: "MEDIA_FIXED_LEN \<le> READ_BUDGET_CHUNK" by (simp add: MEDIA_FIXED_LEN_def READ_BUDGET_CHUNK_def)
  have body: "framed m inp b
      (rbind (read_string reserve a inp b) (\<lambda>app inp b.
       rbind (read_string reserve s inp b) (\<lambda>stream inp b.
       rbind (read_vec reserve p inp b) (\<lambda>payload inp b. Inr (f app stream payload, inp, b)))))"
    if "m = a + (s + (p + 0))" for m a s p inp b and f :: "string \<Rightarrow> string \<Rightarrow> bytes \<Rightarrow> media_message"
    unfolding that by (intro framed_bind framed_read_string framed_read_vec framed_return)
  have sum: "rest - MEDIA_FIXED_LEN = n + (s + (p + 0))"
    if "Option.bind (usize_checked_add MEDIA_FIXED_LEN n) (\<lambda>n. Option.bind (usize_checked_add n s) (\<lambda>n.
        usize_checked_add n p)) = Some rest" for n s p
    using that by (auto simp: usize_checked_add_def split: if_splits bind_splits)
  have "framed (MEDIA_FIXED_LEN + (rest - MEDIA_FIXED_LEN)) inp b
      (read_media_frame_v2 reserve hint_from_u8 rest inp b)"
    unfolding read_media_frame_v2_def if_not_P [OF False] Let_def
    by (rule framed_bind [OF framed_reserve_read [OF small]])
      (auto split: option.split intro!: body sum)
  with False show ?thesis by simp
qed

text \<open>The parts of an init cache: what they consumed is what they took off \<open>remaining\<close>.\<close>

lemma framed_parts:
  "case read_parts reserve presence is remaining inp b of
     Inl (e, b') \<Rightarrow> framed remaining inp b (Inl (e, b') :: ('g, unit) wire_res)
   | Inr ((ps, left), inp', b') \<Rightarrow> left \<le> remaining \<and> length ps = length is \<and>
       framed (remaining - left) inp b (Inr ((), inp', b'))"
proof (induction "is" arbitrary: remaining inp b)
  case Nil
  then show ?case by (simp add: framed_return)
next
  case (Cons i "is")
  show ?case
  proof (cases "presence AND push_bit i 1 = 0")
    case True
    with Cons.IH [of remaining inp b] show ?thesis
      by (auto simp: rbind_def split: sum.splits)
  next
    case present: False
    show ?thesis
    proof (cases "remaining < 4")
      case True
      with present show ?thesis by simp
    next
      case False
      have four: "framed 4 inp b (read_exact_budgeted reserve 4 inp b)"
        by (rule framed_reserve_read) (simp add: READ_BUDGET_CHUNK_def)
      show ?thesis
      proof (cases "read_exact_budgeted reserve 4 inp b")
        case (Inl eb)
        with four present False show ?thesis by (cases eb) (auto simp: rbind_def framed_def)
      next
        case (Inr x)
        obtain lenb inp1 b1 where x: "x = (lenb, inp1, b1)" by (cases x)
        have f1: "4 \<le> length inp" "inp1 = drop 4 inp" "charged b1 = charged b + 4"
          using four Inr x by (simp_all add: framed_def)
        let ?len = "from_be lenb"
        show ?thesis
        proof (cases "remaining - 4 < ?len")
          case True
          with present False Inr x f1 show ?thesis by (auto simp: rbind_def Let_def framed_def)
        next
          case fits: False
          note vec = framed_read_vec [of ?len inp1 b1]
          show ?thesis
          proof (cases "read_vec reserve ?len inp1 b1")
            case (Inl eb)
            with vec present False fits Inr x f1 show ?thesis
              by (cases eb) (auto simp: rbind_def Let_def framed_def)
          next
            case (Inr y)
            obtain buf inp2 b2 where y: "y = (buf, inp2, b2)" by (cases y)
            have f2: "?len \<le> length inp1" "inp2 = drop ?len inp1" "charged b2 = charged b1 + ?len"
              using vec Inr y by (simp_all add: framed_def)
            have step: "read_parts reserve presence (i # is) remaining inp b =
                rbind (read_parts reserve presence is (remaining - 4 - ?len) inp2 b2)
                  (\<lambda>(parts, remaining) inp b. Inr ((Some buf # parts, remaining), inp, b))"
              using present False fits \<open>read_exact_budgeted reserve 4 inp b = Inr x\<close> x Inr y
              by (simp add: rbind_def Let_def)
            show ?thesis
              unfolding step using Cons.IH [of "remaining - 4 - ?len" inp2 b2] f1 f2 False fits
              by (auto simp: rbind_def framed_def add.commute split: sum.splits)
          qed
        qed
      qed
    qed
  qed
qed

lemma framed_init: "framed rest inp b (read_init_cache_v2 reserve rest inp b)"
proof (cases "rest < INIT_FIXED_LEN")
  case True
  then show ?thesis by (simp add: read_init_cache_v2_def)
next
  case False
  have small: "INIT_FIXED_LEN \<le> READ_BUDGET_CHUNK" by (simp add: INIT_FIXED_LEN_def READ_BUDGET_CHUNK_def)
  have parts: "framed m inp b (rbind (read_parts reserve p is m inp b) (\<lambda>(parts, remaining) inp b.
      if remaining \<noteq> 0 then Inl (e, b) else Inr (f parts, inp, b)))"
    for m inp b p "is" e and f :: "bytes option list \<Rightarrow> media_message"
    using framed_parts [where presence = p and ?is = "is" and remaining = m and inp = inp and b = b]
    by (auto simp: rbind_def framed_def split: sum.splits prod.splits)
  have body: "framed m inp b
      (rbind (read_string reserve a inp b) (\<lambda>app inp b.
       rbind (read_string reserve s inp b) (\<lambda>stream inp b.
       rbind (read_parts reserve p is (m - n) inp b) (\<lambda>(parts, remaining) inp b.
         if remaining \<noteq> 0 then Inl (e, b) else Inr (f app stream parts, inp, b)))))"
    if "usize_checked_add a s = Some n" "n \<le> m"
    for m n a s p "is" e inp b and f :: "string \<Rightarrow> string \<Rightarrow> bytes option list \<Rightarrow> media_message"
  proof -
    have "m = a + (s + (m - n))" using that by (simp add: usize_checked_add_def split: if_splits)
    then show ?thesis
      by (subst \<open>m = _\<close>) (intro framed_bind framed_read_string parts)
  qed
  have "framed (INIT_FIXED_LEN + (rest - INIT_FIXED_LEN)) inp b (read_init_cache_v2 reserve rest inp b)"
    unfolding read_init_cache_v2_def if_not_P [OF False] Let_def
    by (rule framed_bind [OF framed_reserve_read [OF small]])
      (intro framed_if framed_option framed_error body; simp add: not_less)
  with False show ?thesis by simp
qed

lemma framed_control: "framed rest inp b (read_control_v2 reserve from_json rest inp b)"
proof -
  have "framed (rest + 0) inp b (read_control_v2 reserve from_json rest inp b)"
    unfolding read_control_v2_def
    by (rule framed_bind [OF framed_read_vec]) (auto simp: framed_return split: option.split sum.split)
  then show ?thesis by simp
qed

lemma framed_v1: "framed len inp b (read_v1 reserve from_json len inp b)"
proof -
  have "framed (len + 0) inp b (read_v1 reserve from_json len inp b)"
    unfolding read_v1_def
    by (rule framed_bind [OF framed_read_vec]) (auto simp: framed_return split: option.split sum.split)
  then show ?thesis by simp
qed

lemma framed_body: "framed len inp b (read_frame_body reserve from_json hint_from_u8 version len inp b)"
proof (cases "2 \<le> version \<and> len \<noteq> 0")
  case True
  have kind: "framed 1 inp b (rbind (reserve_body reserve 1 inp b) (\<lambda>_ inp b. read_exact 1 inp b))"
    using framed_reserve_read [of 1 inp b] by (simp add: read_exact_budgeted_def READ_BUDGET_CHUNK_def)
  have assoc: "rbind r (\<lambda>x inp b. rbind (f x inp b) k) = rbind (rbind r f) k"
    for r :: "('g, unit) wire_res" and f :: "unit \<Rightarrow> bytes \<Rightarrow> 'g \<Rightarrow> ('g, bytes) wire_res"
      and k :: "bytes \<Rightarrow> bytes \<Rightarrow> 'g \<Rightarrow> ('g, media_message) wire_res"
    by (auto simp: rbind_def split: sum.splits)
  have "framed (1 + (len - 1)) inp b (read_frame_body reserve from_json hint_from_u8 version len inp b)"
    unfolding read_frame_body_def if_P [OF conjunct1 [OF True]] if_not_P [OF conjunct2 [OF True]] assoc
    by (rule framed_bind [OF kind]) (simp add: Let_def read_body_v2_def framed_control framed_media framed_init)
  with True show ?thesis by simp
next
  case False
  then show ?thesis by (auto simp: read_frame_body_def framed_v1)
qed

end

interpretation ib: frame_budget grow "\<lambda>cg. ig_bytes (snd cg)"
proof
  fix b b' :: "nat \<times> inflight_guard" and n
  assume "grow b n = Some b'"
  then show "ig_bytes (snd b') = ig_bytes (snd b) + n"
    by (cases b, cases b') (simp add: grow_charges)
qed


end
