(* ===== verification/Wire_Roundtrip.thy ===== *)
theory Wire_Roundtrip
  imports Wire_Budget
begin

unbundle bit_operations_syntax

text \<open>
  The codec of the media plane: what was written is read back, and the binary encoding of a media
  frame is the only one the reader accepts for it.
\<close>

section \<open>Integers\<close>

lemma length_be_bytes [simp]: "length (be_bytes n x) = n"
  by (induction n arbitrary: x) auto

lemma from_be_snoc: "from_be (bs @ [b]) = from_be bs * 256 + unat b"
  by (simp add: from_be_def)

lemma unat_u8_of_nat: "unat (of_nat x :: u8) = x mod 256"
  by (simp add: unat_of_nat)

lemma from_be_bytes: "from_be (be_bytes n x) = x mod 256 ^ n"
proof (induction n arbitrary: x)
  case (Suc n)
  have "x div 256 mod 256 ^ n * 256 + x mod 256 = x mod (256 * 256 ^ n)"
    by (simp add: mod_mult2_eq add.commute mult.commute)
  with Suc show ?case by (simp add: from_be_snoc unat_u8_of_nat)
qed (simp add: from_be_def)

lemma unat_less_256: "unat (b :: u8) < 256"
  using unat_less_width(1) [of b] by simp

lemma be_bytes_from_be: "be_bytes (length bs) (from_be bs) = bs"
proof (induction bs rule: rev_induct)
  case (snoc b bs)
  have "(from_be bs * 256 + unat b) div 256 = from_be bs" "(from_be bs * 256 + unat b) mod 256 = unat b"
    using unat_less_256 [of b] by simp_all
  with snoc show ?case by (simp add: from_be_snoc)
qed simp

lemma from_be_less: "from_be bs < 256 ^ length bs"
proof (induction bs rule: rev_induct)
  case (snoc b bs)
  then have "from_be bs * 256 + unat b < (from_be bs + 1) * 256" using unat_less_256 [of b] by simp
  also have "\<dots> \<le> 256 ^ length bs * 256" using snoc by (intro mult_le_mono1) simp
  finally show ?case by (simp add: from_be_snoc mult.commute)
qed (simp add: from_be_def)

text \<open>Words survive the trip.\<close>

lemma be_u64 [simp]: "of_nat (from_be (be_bytes 8 (unat (w :: u64)))) = w"
  using unat_less_width(4) [of w] by (simp add: from_be_bytes)

lemma be_u32 [simp]: "of_nat (from_be (be_bytes 4 (unat (w :: u32)))) = w"
  using unat_less_width(3) [of w] by (simp add: from_be_bytes)

lemma from_be_u64: "length bs = 8 \<Longrightarrow> be_bytes 8 (unat (of_nat (from_be bs) :: u64)) = bs"
  using from_be_less [of bs] be_bytes_from_be [of bs] by (simp add: unat_of_nat)

lemma from_be_u32: "length bs = 4 \<Longrightarrow> be_bytes 4 (unat (of_nat (from_be bs) :: u32)) = bs"
  using from_be_less [of bs] be_bytes_from_be [of bs] by (simp add: unat_of_nat)

section \<open>Reading what is there\<close>

text \<open>A budget that is not exhausted, such as \<open>FrameBudget for ()\<close>.\<close>

definition unlimited :: "('g \<Rightarrow> nat \<Rightarrow> 'g option) \<Rightarrow> bool" where
  "unlimited reserve \<longleftrightarrow> (\<forall>b n. reserve b n \<noteq> None)"

definition unit_budget :: "unit \<Rightarrow> nat \<Rightarrow> unit option" where
  "unit_budget b n = Some ()"

lemma unlimited_unit_budget [simp]: "unlimited unit_budget"
  by (simp add: unlimited_def unit_budget_def)

text \<open>The value a read returns, without the budget.\<close>

definition outcome :: "('g, 'a) wire_res \<Rightarrow> wire_error + ('a \<times> bytes)" where
  "outcome r = (case r of Inl (e, _) \<Rightarrow> Inl e | Inr (a, inp, _) \<Rightarrow> Inr (a, inp))"

lemma outcome_Inr: "outcome r = Inr (a, inp) \<longleftrightarrow> (\<exists>b. r = Inr (a, inp, b))"
  by (auto simp: outcome_def split: sum.splits)

lemma outcome_bind:
  "outcome r = Inr (a, inp) \<Longrightarrow> (\<And>b. outcome (f a inp b) = R) \<Longrightarrow> outcome (rbind r f) = R"
  by (auto simp: outcome_Inr rbind_def)

lemma outcome_read_exact: "length xs = n \<Longrightarrow> outcome (read_exact n (xs @ ys) b) = Inr (xs, ys)"
  by (simp add: outcome_def read_exact_def)

lemma outcome_reserve: "unlimited reserve \<Longrightarrow> outcome (reserve_body reserve n inp b) = Inr ((), inp)"
  by (auto simp: outcome_def reserve_body_def unlimited_def split: option.splits)

lemma outcome_read_exact_budgeted:
  "unlimited reserve \<Longrightarrow> length xs = n \<Longrightarrow> outcome (read_exact_budgeted reserve n (xs @ ys) b) = Inr (xs, ys)"
  unfolding read_exact_budgeted_def by (rule outcome_bind [OF outcome_reserve]) (simp_all add: outcome_read_exact)

lemma outcome_read_vec_loop:
  assumes u: "unlimited reserve"
  shows "length xs = n \<Longrightarrow> outcome (read_vec_loop reserve n buf (xs @ ys) b) = Inr (buf @ xs, ys)"
proof (induction n arbitrary: buf xs b rule: less_induct)
  case (less n)
  show ?case
  proof (cases "n = 0")
    case True
    with less.prems show ?thesis by (subst read_vec_loop.simps) (simp add: outcome_def)
  next
    case False
    let ?step = "min n READ_BUDGET_CHUNK"
    have step: "0 < ?step" "n - ?step < n" using False by (simp_all add: READ_BUDGET_CHUNK_def)
    have split: "xs @ ys = take ?step xs @ (drop ?step xs @ ys)" by simp
    have len: "length (take ?step xs) = ?step" "length (drop ?step xs) = n - ?step"
      using less.prems by simp_all
    have "outcome (rbind (read_exact_budgeted reserve ?step (xs @ ys) b)
        (\<lambda>chunk inp b. read_vec_loop reserve (n - ?step) (buf @ chunk) inp b)) = Inr (buf @ xs, ys)"
      by (subst split, rule outcome_bind [OF outcome_read_exact_budgeted [OF u len(1)]])
        (simp add: less.IH [OF step(2) len(2)])
    with False show ?thesis by (subst read_vec_loop.simps) (simp add: Let_def)
  qed
qed

lemma outcome_read_vec:
  "unlimited reserve \<Longrightarrow> length xs = n \<Longrightarrow> outcome (read_vec reserve n (xs @ ys) b) = Inr (xs, ys)"
  by (simp add: read_vec_def outcome_read_vec_loop)

lemma outcome_read_string:
  assumes "unlimited reserve" "utf8_valid (str_bytes s)" "length s = n"
  shows "outcome (read_string reserve n (str_bytes s @ ys) b) = Inr (s, ys)"
  unfolding read_string_def
  by (rule outcome_bind [OF outcome_read_vec])
    (use assms in \<open>simp_all add: string_from_utf8_def outcome_def\<close>)

section \<open>Media frames\<close>

text \<open>The fixed header of a media frame.\<close>

definition media_header ::
    "u8 \<Rightarrow> u8 \<Rightarrow> u64 \<Rightarrow> u32 \<Rightarrow> u32 \<Rightarrow> nat \<Rightarrow> nat \<Rightarrow> nat \<Rightarrow> bytes" where
  "media_header hint ft epoch ts tlts al sl pl =
     [hint, ft, 0] @ be_bytes 8 (unat epoch) @ be_bytes 4 (unat ts) @ be_bytes 4 (unat tlts) @
     [of_nat al] @ be_bytes 2 sl @ be_bytes 4 pl"

lemma media_header_parts:
  "length (media_header hint ft epoch ts tlts al sl pl) = MEDIA_FIXED_LEN"
  "media_header hint ft epoch ts tlts al sl pl ! 0 = hint"
  "media_header hint ft epoch ts tlts al sl pl ! 1 = ft"
  "media_header hint ft epoch ts tlts al sl pl ! 2 = 0"
  "Wire.slice 3 11 (media_header hint ft epoch ts tlts al sl pl) = be_bytes 8 (unat epoch)"
  "Wire.slice 11 15 (media_header hint ft epoch ts tlts al sl pl) = be_bytes 4 (unat ts)"
  "Wire.slice 15 19 (media_header hint ft epoch ts tlts al sl pl) = be_bytes 4 (unat tlts)"
  "media_header hint ft epoch ts tlts al sl pl ! 19 = of_nat al"
  "Wire.slice 20 22 (media_header hint ft epoch ts tlts al sl pl) = be_bytes 2 sl"
  "Wire.slice 22 26 (media_header hint ft epoch ts tlts al sl pl) = be_bytes 4 pl"
  by (simp_all add: media_header_def MEDIA_FIXED_LEN_def slice_def nth_append)

lemma write_media_frame_bytes:
  "write_media_frame hint_to_u8 app stream epoch ft ts tlts hint payload = Inr bs \<longleftrightarrow>
     length app \<le> MAX_APP_LEN \<and> length stream \<le> MAX_STREAM_LEN \<and>
     1 + MEDIA_FIXED_LEN + length app + length stream + length payload \<le> MAX_FRAME \<and>
     bs = be_bytes 4 (1 + MEDIA_FIXED_LEN + length app + length stream + length payload) @
          KIND_MEDIA_FRAME #
          media_header (hint_to_u8 hint) ft epoch ts tlts (length app) (length stream) (length payload) @
          str_bytes app @ str_bytes stream @ payload"
  by (auto simp: write_media_frame_def and_then_def check_names_def frame_len_def Let_def media_header_def
      split: if_splits)

lemma outcome_read_media:
  assumes u: "unlimited reserve" and hint: "hint_from_u8 hb = Some hint"
    and ft: "frame_type_to_librtmp2 ft \<noteq> None"
    and utf8: "utf8_valid (str_bytes app)" "utf8_valid (str_bytes stream)"
    and len: "length app \<le> MAX_APP_LEN" "length stream \<le> MAX_STREAM_LEN"
      "1 + MEDIA_FIXED_LEN + length app + length stream + length payload \<le> MAX_FRAME"
    and rest: "rest = MEDIA_FIXED_LEN + length app + length stream + length payload"
  shows "outcome (read_media_frame_v2 reserve hint_from_u8 rest
      (media_header hb ft epoch ts tlts (length app) (length stream) (length payload) @
       str_bytes app @ str_bytes stream @ payload @ ys) b) =
    Inr (MediaFrame app stream epoch ft ts tlts hint payload, ys)"
proof -
  let ?h = "media_header hb ft epoch ts tlts (length app) (length stream) (length payload)"
  have nums: "unat (of_nat (length app) :: u8) = length app" "from_be (be_bytes 2 (length stream)) = length stream"
    "from_be (be_bytes 4 (length payload)) = length payload"
    using len by (simp_all add: unat_u8_of_nat from_be_bytes MAX_APP_LEN_def MAX_STREAM_LEN_def MAX_FRAME_def)
  have sum: "Option.bind (usize_checked_add MEDIA_FIXED_LEN (length app)) (\<lambda>n.
      Option.bind (usize_checked_add n (length stream)) (\<lambda>n. usize_checked_add n (length payload))) = Some rest"
    using len by (simp add: usize_checked_add_def usize_max_def MAX_FRAME_def rest)
  have "outcome (rbind (read_string reserve (length app) (str_bytes app @ str_bytes stream @ payload @ ys) b)
      (\<lambda>app inp b. rbind (read_string reserve (length stream) inp b) (\<lambda>stream inp b.
       rbind (read_vec reserve (length payload) inp b) (\<lambda>payload inp b.
         Inr (MediaFrame app stream epoch ft ts tlts hint payload, inp, b))))) =
      Inr (MediaFrame app stream epoch ft ts tlts hint payload, ys)" for b
    by (rule outcome_bind [OF outcome_read_string [OF u utf8(1) refl]]
        outcome_bind [OF outcome_read_string [OF u utf8(2) refl]]
        outcome_bind [OF outcome_read_vec [OF u refl]] | simp add: outcome_def)+
  then show ?thesis
    unfolding read_media_frame_v2_def using rest len(2)
    by (simp only: if_False not_less if_not_P)
      (rule outcome_bind [OF outcome_read_exact_budgeted [OF u media_header_parts(1)]],
       use ft in \<open>auto simp: media_header_parts media_header_parts(3) [unfolded One_nat_def] nums sum hint Let_def\<close>)
qed

section \<open>Init caches\<close>

definition init_header :: "u8 \<Rightarrow> u64 \<Rightarrow> nat \<Rightarrow> nat \<Rightarrow> nat \<Rightarrow> bytes" where
  "init_header presence epoch kts al sl =
     [presence] @ be_bytes 8 (unat epoch) @ be_bytes 4 kts @ [of_nat al] @ be_bytes 2 sl"

lemma init_header_parts:
  "length (init_header presence epoch kts al sl) = INIT_FIXED_LEN"
  "init_header presence epoch kts al sl ! 0 = presence"
  "Wire.slice 1 9 (init_header presence epoch kts al sl) = be_bytes 8 (unat epoch)"
  "Wire.slice 9 13 (init_header presence epoch kts al sl) = be_bytes 4 kts"
  "init_header presence epoch kts al sl ! 13 = of_nat al"
  "Wire.slice 14 16 (init_header presence epoch kts al sl) = be_bytes 2 sl"
  by (simp_all add: init_header_def INIT_FIXED_LEN_def slice_def nth_append)

lemma write_init_cache_bytes:
  "write_init_cache app stream epoch md avc aac kf = Inr bs \<longleftrightarrow>
     length app \<le> MAX_APP_LEN \<and> length stream \<le> MAX_STREAM_LEN \<and>
     1 + INIT_FIXED_LEN + length app + length stream + parts_len (init_parts md avc aac kf) \<le> MAX_FRAME \<and>
     bs = be_bytes 4 (1 + INIT_FIXED_LEN + length app + length stream + parts_len (init_parts md avc aac kf)) @
          KIND_INIT_CACHE #
          init_header (presence_of (init_parts md avc aac kf)) epoch
            (case kf of None \<Rightarrow> 0 | Some (ts, _) \<Rightarrow> unat ts) (length app) (length stream) @
          str_bytes app @ str_bytes stream @ write_parts (init_parts md avc aac kf)"
  by (auto simp: write_init_cache_def and_then_def check_names_def frame_len_def Let_def init_header_def
      split: if_splits)

text \<open>The presence bits of four parts.\<close>

lemma presence_bits:
  fixes a b c d :: "bytes option"
  defines "p \<equiv> presence_of [a, b, c, d]"
  shows "p AND push_bit 0 1 = 0 \<longleftrightarrow> a = None" "p AND push_bit 1 1 = 0 \<longleftrightarrow> b = None"
    "p AND push_bit 2 1 = 0 \<longleftrightarrow> c = None" "p AND push_bit 3 1 = 0 \<longleftrightarrow> d = None" "p AND NOT 0x0F = 0"
  unfolding p_def presence_of_def
  by (cases a; cases b; cases c; cases d; simp)+

lemma outcome_read_parts:
  assumes u: "unlimited reserve"
  shows "list_all2 (\<lambda>i part. presence AND push_bit i 1 = 0 \<longleftrightarrow> part = None) is parts \<Longrightarrow>
    parts_len parts \<le> MAX_FRAME \<Longrightarrow>
    outcome (read_parts reserve presence is (parts_len parts + left) (write_parts parts @ ys) b) =
      Inr ((parts, left), ys)"
proof (induction "is" parts arbitrary: b rule: list_all2_induct)
  case Nil
  then show ?case by (simp add: outcome_def parts_len_def write_parts_def)
next
  case (Cons i "is" part parts)
  show ?case
  proof (cases part)
    case None
    have "parts_len (part # parts) = parts_len parts" "write_parts (part # parts) = write_parts parts"
      by (simp_all add: None parts_len_def write_parts_def)
    moreover from this Cons.prems have "outcome (read_parts reserve presence is (parts_len parts + left)
        (write_parts parts @ ys) b) = Inr ((parts, left), ys)" for b by (intro Cons.IH) simp
    ultimately show ?thesis
      using Cons.hyps(1) None by (simp, intro outcome_bind) (auto simp: outcome_def)
  next
    case (Some p)
    have len: "parts_len (part # parts) = 4 + length p + parts_len parts"
      and wr: "write_parts (part # parts) = be_bytes 4 (length p) @ p @ write_parts parts"
      by (simp_all add: Some parts_len_def write_parts_def)
    have ih: "outcome (read_parts reserve presence is (parts_len parts + left) (write_parts parts @ ys) b) =
        Inr ((parts, left), ys)" for b using Cons.prems len by (intro Cons.IH) simp
    have num: "from_be (be_bytes 4 (length p)) = length p"
      using Cons.prems len by (simp add: from_be_bytes MAX_FRAME_def)
    have "outcome (rbind (read_vec reserve (length p) (p @ write_parts parts @ ys) b) (\<lambda>buf inp b.
        rbind (read_parts reserve presence is (parts_len parts + left) inp b) (\<lambda>(parts, remaining) inp b.
          Inr ((Some buf # parts, remaining), inp, b)))) = Inr ((Some p # parts, left), ys)" for b
      by (rule outcome_bind [OF outcome_read_vec [OF u refl]], rule outcome_bind [OF ih]) (simp add: outcome_def)
    then show ?thesis
      using Cons.hyps(1) Some unfolding len wr
      by simp (rule outcome_bind [OF outcome_read_exact_budgeted [OF u length_be_bytes]], simp add: num Let_def)
  qed
qed

lemma outcome_read_init:
  assumes u: "unlimited reserve"
    and utf8: "utf8_valid (str_bytes app)" "utf8_valid (str_bytes stream)"
    and len: "length app \<le> MAX_APP_LEN" "length stream \<le> MAX_STREAM_LEN"
      "1 + INIT_FIXED_LEN + length app + length stream + parts_len parts \<le> MAX_FRAME"
    and parts: "parts = init_parts md avc aac kf"
    and kts: "kts = (case kf of None \<Rightarrow> 0 | Some (ts, _) \<Rightarrow> unat ts)"
    and rest: "rest = INIT_FIXED_LEN + length app + length stream + parts_len parts"
  shows "outcome (read_init_cache_v2 reserve rest
      (init_header (presence_of parts) epoch kts (length app) (length stream) @
       str_bytes app @ str_bytes stream @ write_parts parts @ ys) b) =
    Inr (InitCache app stream epoch md avc aac kf, ys)"
proof -
  let ?p = "presence_of parts"
  have nums: "unat (of_nat (length app) :: u8) = length app" "from_be (be_bytes 2 (length stream)) = length stream"
    using len by (simp_all add: unat_u8_of_nat from_be_bytes MAX_APP_LEN_def MAX_STREAM_LEN_def)
  have kf: "map_option (Pair (of_nat (from_be (be_bytes 4 kts)))) (parts ! 3) = kf"
    by (cases kf) (auto simp: parts init_parts_def kts)
  have sum: "usize_checked_add (length app) (length stream) = Some (length app + length stream)"
    using len by (simp add: usize_checked_add_def usize_max_def MAX_APP_LEN_def MAX_STREAM_LEN_def)
  note bits = presence_bits [of md avc aac "map_option snd kf"]
  have ok: "list_all2 (\<lambda>i part. ?p AND push_bit i 1 = 0 \<longleftrightarrow> part = None) [0, 1, 2, 3] parts" "?p AND NOT 0x0F = 0"
    using bits by (simp_all add: parts init_parts_def del: push_bit_0_id)
  have rd: "outcome (read_parts reserve ?p [0, 1, 2, 3] (parts_len parts) (write_parts parts @ ys) b) =
      Inr ((parts, 0), ys)" for b
    using outcome_read_parts [OF u ok(1), of 0 ys b] len(3) by simp
  have "outcome (rbind (read_string reserve (length app) (str_bytes app @ str_bytes stream @ write_parts parts @ ys) b)
      (\<lambda>app inp b. rbind (read_string reserve (length stream) inp b) (\<lambda>stream inp b.
       rbind (read_parts reserve ?p [0, 1, 2, 3] (parts_len parts) inp b) (\<lambda>(parts, remaining) inp b.
         if remaining \<noteq> 0 then Inl (InvalidData ''trailing bytes in v2 init-cache'', b)
         else Inr (InitCache app stream epoch (parts ! 0) (parts ! 1) (parts ! 2)
                (map_option (Pair (of_nat (from_be (be_bytes 4 kts)))) (parts ! 3)), inp, b))))) =
      Inr (InitCache app stream epoch md avc aac kf, ys)" for b
    by (rule outcome_bind [OF outcome_read_string [OF u utf8(1) refl]]
        outcome_bind [OF outcome_read_string [OF u utf8(2) refl]] outcome_bind [OF rd]
      | simp add: outcome_def kf; simp add: parts init_parts_def)+
  moreover have "rest - INIT_FIXED_LEN - (length app + length stream) = parts_len parts"
    "\<not> rest < INIT_FIXED_LEN" "\<not> rest - INIT_FIXED_LEN < length app + length stream"
    "\<not> MAX_STREAM_LEN < length stream" using rest len(2) by simp_all
  ultimately show ?thesis
    unfolding read_init_cache_v2_def
    by (simp only: if_False)
      (rule outcome_bind [OF outcome_read_exact_budgeted [OF u init_header_parts(1)]],
       simp only: init_header_parts nums sum ok(2) Let_def if_False option.case be_u64 not_True_eq_False refl)
qed

section \<open>Frames\<close>

text \<open>Messages whose names are short, proper strings and whose frame type the library knows.\<close>

definition sendable :: "media_message \<Rightarrow> bool" where
  "sendable m \<longleftrightarrow> check_message_names m = Inr () \<and>
     (case m of
        MediaFrame app stream _ ft _ _ _ _ \<Rightarrow>
          utf8_valid (str_bytes app) \<and> utf8_valid (str_bytes stream) \<and> frame_type_to_librtmp2 ft \<noteq> None
      | InitCache app stream _ _ _ _ _ \<Rightarrow> utf8_valid (str_bytes app) \<and> utf8_valid (str_bytes stream)
      | _ \<Rightarrow> True)"

text \<open>From the body of a frame to the frame with its length prefix.\<close>

lemma read_frame_from_body:
  assumes "length body \<le> mx" "length body \<le> MAX_FRAME" "new_guard (length body) = Some b0"
    and "outcome (read_frame_body reserve from_json hint_from_u8 version (length body) (body @ rest) b0) = Inr (m, rest)"
  shows "read_frame reserve from_json hint_from_u8 version mx new_guard
    (be_bytes 4 (length body) @ body @ rest) = Inr (m, rest)"
proof -
  have "from_be (be_bytes 4 (length body)) = length body"
    using assms(2) by (simp add: from_be_bytes MAX_FRAME_def)
  with assms show ?thesis
    by (auto simp: read_frame_def read_exact_def Let_def outcome_def split: sum.splits)
qed

lemma outcome_read_body_v2:
  assumes u: "unlimited reserve" and v: "2 \<le> version"
    and len: "kind = KIND_CONTROL \<longrightarrow> length body < MAX_CONTROL_FRAME"
    and body: "\<And>b. outcome (read_body_v2 reserve from_json hint_from_u8 kind (length body) (body @ rest) b) = Inr (m, rest)"
  shows "outcome (read_frame_body reserve from_json hint_from_u8 version (length (kind # body)) ((kind # body) @ rest) b) =
    Inr (m, rest)"
proof -
  have k: "(kind # body) @ rest = [kind] @ (body @ rest)" by simp
  have "outcome (rbind (reserve_body reserve 1 ([kind] @ (body @ rest)) b) (\<lambda>_ inp b.
      rbind (read_exact 1 inp b) (\<lambda>kindb inp b.
        if kindb ! 0 = KIND_CONTROL \<and> MAX_CONTROL_FRAME < length (kind # body)
        then Inl (OtherError ''media control frame too large'', b)
        else read_body_v2 reserve from_json hint_from_u8 (kindb ! 0) (length (kind # body) - 1) inp b))) =
      Inr (m, rest)"
    by (rule outcome_bind [OF outcome_reserve [OF u]], rule outcome_bind [OF outcome_read_exact])
      (use len body in auto)
  then show ?thesis
    unfolding read_frame_body_def if_P [OF v] Let_def k by simp
qed

lemma outcome_json:
  assumes u: "unlimited reserve" and json: "from_json js = Some m" and names: "check_message_names m = Inr ()"
  shows "outcome (read_v1 reserve from_json (length js) (js @ rest) b) = Inr (m, rest)"
    and "message_names m = None \<or> (\<forall>a s e f t x y p md av aa kf. m \<noteq> MediaFrame a s e f t x y p \<and> m \<noteq> InitCache a s e md av aa kf) \<Longrightarrow>
      outcome (read_control_v2 reserve from_json (length js) (js @ rest) b) = Inr (m, rest)"
proof -
  show "outcome (read_v1 reserve from_json (length js) (js @ rest) b) = Inr (m, rest)"
    unfolding read_v1_def
    by (rule outcome_bind [OF outcome_read_vec [OF u refl]]) (simp add: json names outcome_def)
  show "outcome (read_control_v2 reserve from_json (length js) (js @ rest) b) = Inr (m, rest)"
    if "message_names m = None \<or> (\<forall>a s e f t x y p md av aa kf. m \<noteq> MediaFrame a s e f t x y p \<and> m \<noteq> InitCache a s e md av aa kf)"
    unfolding read_control_v2_def
    by (rule outcome_bind [OF outcome_read_vec [OF u refl]])
      (use that in \<open>auto simp: json names outcome_def split: media_message.splits\<close>)
qed

lemma kinds_distinct [simp]:
  "KIND_MEDIA_FRAME \<noteq> KIND_CONTROL" "KIND_INIT_CACHE \<noteq> KIND_CONTROL" "KIND_INIT_CACHE \<noteq> KIND_MEDIA_FRAME"
  by (simp_all add: KIND_MEDIA_FRAME_def KIND_CONTROL_def KIND_INIT_CACHE_def)

lemma parts_length: "length (write_parts parts) = parts_len parts"
  by (simp add: write_parts_def parts_len_def length_concat o_def option.case_distrib [of length] cong: option.case_cong)

lemma write_v2_body:
  assumes wr: "write_frame_v2 to_json hint_to_u8 m = Inr bs"
    and json: "\<forall>js. to_json m = Some js \<longrightarrow> from_json js = Some m"
    and hints: "\<forall>h. hint_from_u8 (hint_to_u8 h) = Some h"
    and m: "sendable m" and u: "unlimited reserve"
  shows "\<exists>kind body. bs = be_bytes 4 (length (kind # body)) @ kind # body \<and> length (kind # body) \<le> MAX_FRAME \<and>
    (kind = KIND_CONTROL \<longrightarrow> length body < MAX_CONTROL_FRAME) \<and>
    (\<forall>b. outcome (read_body_v2 reserve from_json hint_from_u8 kind (length body) (body @ rest) b) = Inr (m, rest))"
proof -
  consider (media) app stream epoch ft ts tlts h pl where "m = MediaFrame app stream epoch ft ts tlts h pl"
    | (init) app stream epoch md avc aac kf where "m = InitCache app stream epoch md avc aac kf"
    | (control) "\<forall>a s e f t x y p md av aa kf. m \<noteq> MediaFrame a s e f t x y p \<and> m \<noteq> InitCache a s e md av aa kf"
    by blast
  then show ?thesis
  proof cases
    case media
    let ?body = "media_header (hint_to_u8 h) ft epoch ts tlts (length app) (length stream) (length pl) @
      str_bytes app @ str_bytes stream @ pl"
    have wr': "write_media_frame hint_to_u8 app stream epoch ft ts tlts h pl = Inr bs" using wr media by simp
    note w = wr' [unfolded write_media_frame_bytes]
    have len: "length ?body = MEDIA_FIXED_LEN + length app + length stream + length pl"
      by (simp add: media_header_parts)
    have "outcome (read_media_frame_v2 reserve hint_from_u8 (length ?body) (?body @ rest) b) = Inr (m, rest)" for b
      using outcome_read_media [OF u, of hint_from_u8 "hint_to_u8 h" h ft app stream pl "length ?body" epoch ts tlts rest b]
        hints m w media len by (simp add: sendable_def)
    with w len show ?thesis
      by (intro exI [of _ KIND_MEDIA_FRAME] exI [of _ ?body]) (simp add: read_body_v2_def add.assoc)
  next
    case init
    let ?parts = "init_parts md avc aac kf" and ?kts = "case kf of None \<Rightarrow> 0 | Some (ts, _) \<Rightarrow> unat ts"
    let ?body = "init_header (presence_of ?parts) epoch ?kts (length app) (length stream) @
      str_bytes app @ str_bytes stream @ write_parts ?parts"
    have wr': "write_init_cache app stream epoch md avc aac kf = Inr bs" using wr init by simp
    note w = wr' [unfolded write_init_cache_bytes]
    have len: "length ?body = INIT_FIXED_LEN + length app + length stream + parts_len ?parts"
      by (simp add: init_header_parts parts_length)
    have "outcome (read_init_cache_v2 reserve (length ?body) (?body @ rest) b) = Inr (m, rest)" for b
      using outcome_read_init [OF u, of app stream ?parts md avc aac kf ?kts "length ?body" epoch rest b] m w init len
      by (simp add: sendable_def)
    with w len show ?thesis
      by (intro exI [of _ KIND_INIT_CACHE] exI [of _ ?body])
        (simp add: read_body_v2_def add.assoc init_header_parts(1) parts_length)
  next
    case control
    then have "write_control to_json m = Inr bs" using wr by (cases m) auto
    then obtain js where js: "to_json m = Some js" "length js < MAX_CONTROL_FRAME"
      "bs = be_bytes 4 (length (KIND_CONTROL # js)) @ KIND_CONTROL # js" "length (KIND_CONTROL # js) \<le> MAX_FRAME"
      by (auto simp: write_control_def and_then_def frame_len_def split: option.splits if_splits)
    have "outcome (read_control_v2 reserve from_json (length js) (js @ rest) b) = Inr (m, rest)" for b
      using outcome_json(2) [OF u, of from_json js m] json js(1) m control unfolding sendable_def by blast
    with js show ?thesis
      by (intro exI [of _ KIND_CONTROL] exI [of _ js]) (simp add: read_body_v2_def)
  qed
qed

lemma frame_roundtrip:
  assumes wr: "write_frame to_json hint_to_u8 m version = Inr bs"
    and json: "\<forall>js. to_json m = Some js \<longrightarrow> from_json js = Some m"
    and hints: "\<forall>h. hint_from_u8 (hint_to_u8 h) = Some h"
    and m: "sendable m" and cap: "length bs \<le> mx + 4"
    and u: "unlimited reserve" and guard: "\<forall>n. new_guard n \<noteq> None"
  shows "read_frame reserve from_json hint_from_u8 version mx new_guard (bs @ rest) = Inr (m, rest)"
proof -
  have "\<exists>body. bs = be_bytes 4 (length body) @ body \<and> length body \<le> MAX_FRAME \<and>
    (\<forall>b. outcome (read_frame_body reserve from_json hint_from_u8 version (length body) (body @ rest) b) = Inr (m, rest))"
  proof (cases "2 \<le> version")
    case False
    with wr obtain js where js: "to_json m = Some js" "length js \<le> MAX_FRAME" "bs = be_bytes 4 (length js) @ js"
      by (auto simp: write_frame_def write_frame_v1_def split: option.splits if_splits)
    have "outcome (read_v1 reserve from_json (length js) (js @ rest) b) = Inr (m, rest)" for b
      using outcome_json(1) [OF u, of from_json js m] json js(1) m by (simp add: sendable_def)
    with False js(2,3) show ?thesis by (intro exI [of _ js]) (simp add: read_frame_body_def)
  next
    case v: True
    from wr v have "write_frame_v2 to_json hint_to_u8 m = Inr bs" by (simp add: write_frame_def)
    from write_v2_body [OF this json hints m u, of rest] obtain kind body
      where "bs = be_bytes 4 (length (kind # body)) @ kind # body" "length (kind # body) \<le> MAX_FRAME"
        "kind = KIND_CONTROL \<longrightarrow> length body < MAX_CONTROL_FRAME"
        "\<forall>b. outcome (read_body_v2 reserve from_json hint_from_u8 kind (length body) (body @ rest) b) = Inr (m, rest)"
      by blast
    with outcome_read_body_v2 [OF u v] show ?thesis by (intro exI [of _ "kind # body"]) blast
  qed
  then obtain body where body: "bs = be_bytes 4 (length body) @ body" "length body \<le> MAX_FRAME"
    and rd: "\<forall>b. outcome (read_frame_body reserve from_json hint_from_u8 version (length body) (body @ rest) b) = Inr (m, rest)"
    by blast
  obtain b0 where "new_guard (length body) = Some b0" using guard by blast
  with read_frame_from_body [of body mx new_guard b0] body rd cap show ?thesis by simp
qed

text \<open>
  C22. What one node writes another node reads back. For protocol version 1 and 2 and every
  message, the bytes \<open>write_frame\<close> produces are read by \<open>read_frame\<close> as that message, with
  exactly the following bytes left over. Assumed: the JSON library and the hint codes of the RTMP
  library are inverse to each other, the names are proper strings within the wire limits, the
  receiver's cap admits the frame and its budget is not exhausted.
\<close>

theorem wire_roundtrip:
  assumes wr: "write_frame to_json hint_to_u8 m version = Inr bs"
    and json: "\<forall>js. to_json m = Some js \<longrightarrow> from_json js = Some m"
    and hints: "\<forall>h. hint_from_u8 (hint_to_u8 h) = Some h"
    and m: "sendable m" and cap: "length bs \<le> mx + 4"
    and u: "unlimited reserve" and guard: "\<forall>n. new_guard n \<noteq> None"
  shows "read_frame reserve from_json hint_from_u8 version mx new_guard (bs @ rest) = Inr (m, rest)"
  using assms by (rule frame_roundtrip)

definition demo_hint_to_u8 :: "delivery_hint \<Rightarrow> u8" where
  "demo_hint_to_u8 h = (case h of Critical \<Rightarrow> 0 | ResyncPoint \<Rightarrow> 1 | Droppable \<Rightarrow> 2)"

definition demo_hint_from_u8 :: "u8 \<Rightarrow> delivery_hint option" where
  "demo_hint_from_u8 x =
     (if x = 0 then Some Critical else if x = 1 then Some ResyncPoint else if x = 2 then Some Droppable else None)"

lemma demo_hints: "demo_hint_from_u8 (demo_hint_to_u8 h) = Some h" "demo_hint_from_u8 x = Some h \<Longrightarrow> demo_hint_to_u8 h = x"
  by (auto simp: demo_hint_from_u8_def demo_hint_to_u8_def split: delivery_hint.splits if_splits)

definition demo_frame :: media_message where
  "demo_frame = MediaFrame ''live'' ''cam'' 7 1 40 41 ResyncPoint [0x17, 1]"

lemma demo_write:
  "\<exists>bs. write_frame (\<lambda>_. None) demo_hint_to_u8 demo_frame 2 = Inr bs \<and> length bs = 40" "sendable demo_frame"
  by (simp add: write_frame_def demo_frame_def write_media_frame_bytes media_header_parts MEDIA_FIXED_LEN_def
        MAX_APP_LEN_def MAX_STREAM_LEN_def MAX_FRAME_def)
    (simp add: sendable_def demo_frame_def check_message_names_def check_names_def MAX_APP_LEN_def
        MAX_STREAM_LEN_def str_bytes_def frame_type_to_librtmp2_def)

theorem wire_roundtrip_witness:
  "\<exists>bs. write_frame (\<lambda>_. None) demo_hint_to_u8 demo_frame 2 = Inr bs \<and>
     read_frame unit_budget (\<lambda>_. None) demo_hint_from_u8 2 4096 (\<lambda>_. Some ()) (bs @ [9]) = Inr (demo_frame, [9])"
proof -
  from demo_write(1) obtain bs
    where bs: "write_frame (\<lambda>_. None) demo_hint_to_u8 demo_frame 2 = Inr bs" "length bs = 40" by blast
  from wire_roundtrip [OF bs(1), of "\<lambda>_. None" demo_hint_from_u8 4096 unit_budget "\<lambda>_. Some ()" "[9]"] bs demo_hints(1)
    demo_write(2)
  show ?thesis by simp
qed

section \<open>One spelling per media frame\<close>

lemma rbind_Inr: "rbind r f = Inr x \<longleftrightarrow> (\<exists>a i b. r = Inr (a, i, b) \<and> f a i b = Inr x)"
  by (auto simp: rbind_def split: sum.splits)

text \<open>Success of a conditional read, one step at a time.\<close>

lemma success_iff:
  "(case v of None \<Rightarrow> Inl e | Some a \<Rightarrow> f a) = Inr x \<longleftrightarrow> (\<exists>a. v = Some a \<and> f a = Inr x)"
  "(if c then Inl e else y) = Inr x \<longleftrightarrow> \<not> c \<and> y = Inr x"
  "(case r of Inl (e, b) \<Rightarrow> Inl (e' e b) | Inr (a, i, b) \<Rightarrow> g a i b) = Inr x \<longleftrightarrow>
     (\<exists>a i b. r = Inr (a, i, b) \<and> g a i b = Inr x)"
  by (auto split: option.split sum.splits)

lemma read_exact_Inr: "read_exact n inp b = Inr (xs, inp', b') \<Longrightarrow> inp = xs @ inp' \<and> length xs = n"
  by (auto simp: read_exact_def split: if_splits)

lemma read_exact_budgeted_Inr:
  "read_exact_budgeted reserve n inp b = Inr (xs, inp', b') \<Longrightarrow> inp = xs @ inp' \<and> length xs = n"
  by (auto simp: read_exact_budgeted_def rbind_Inr reserve_body_def dest: read_exact_Inr split: option.splits)

lemma read_vec_loop_Inr:
  "read_vec_loop reserve n buf inp b = Inr (xs, inp', b') \<Longrightarrow>
   \<exists>ys. xs = buf @ ys \<and> inp = ys @ inp' \<and> length ys = n"
proof (induction n arbitrary: buf inp b rule: less_induct)
  case (less n)
  show ?case
  proof (cases "n = 0")
    case True
    with less.prems show ?thesis by (subst (asm) read_vec_loop.simps) simp
  next
    case False
    let ?step = "min n READ_BUDGET_CHUNK"
    have dec: "n - ?step < n" using False by (simp add: READ_BUDGET_CHUNK_def)
    from less.prems False obtain chunk inp1 b1
      where c: "read_exact_budgeted reserve ?step inp b = Inr (chunk, inp1, b1)"
        and r: "read_vec_loop reserve (n - ?step) (buf @ chunk) inp1 b1 = Inr (xs, inp', b')"
      by (subst (asm) read_vec_loop.simps) (auto simp: Let_def rbind_Inr)
    from read_exact_budgeted_Inr [OF c] less.IH [OF dec r] show ?thesis by auto
  qed
qed

lemma read_vec_Inr: "read_vec reserve n inp b = Inr (xs, inp', b') \<Longrightarrow> inp = xs @ inp' \<and> length xs = n"
  using read_vec_loop_Inr [of reserve n "[]" inp b] by (auto simp: read_vec_def)

lemma read_string_Inr: "read_string reserve n inp b = Inr (s, inp', b') \<Longrightarrow> inp = str_bytes s @ inp' \<and> length s = n"
  by (auto simp: read_string_def rbind_Inr string_from_utf8_def dest!: read_vec_Inr split: option.splits if_splits)

lemma slice_join: "i \<le> j \<Longrightarrow> j \<le> k \<Longrightarrow> Wire.slice i j h @ Wire.slice j k h = Wire.slice i k h"
  using take_add [of "j - i" "k - j" "drop i h"] by (simp add: slice_def)

lemma slice_one: "i < length h \<Longrightarrow> j = Suc i \<Longrightarrow> Wire.slice i j h = [h ! i]"
  by (simp add: slice_def take_Suc_conv_app_nth)

lemma media_header_unique:
  assumes len: "length h = MEDIA_FIXED_LEN" and "h ! 2 = 0"
  shows "h = media_header (h ! 0) (h ! 1) (of_nat (from_be (Wire.slice 3 11 h))) (of_nat (from_be (Wire.slice 11 15 h)))
    (of_nat (from_be (Wire.slice 15 19 h))) (unat (h ! 19)) (from_be (Wire.slice 20 22 h)) (from_be (Wire.slice 22 26 h))"
proof -
  have l: "length h = 26" using len by (simp add: MEDIA_FIXED_LEN_def)
  have lens: "length (Wire.slice 3 11 h) = 8" "length (Wire.slice 11 15 h) = 4" "length (Wire.slice 15 19 h) = 4"
    "length (Wire.slice 20 22 h) = 2" "length (Wire.slice 22 26 h) = 4" by (simp_all add: slice_def l)
  have "h = [h ! 0, h ! 1, h ! 2] @ Wire.slice 3 11 h @ Wire.slice 11 15 h @ Wire.slice 15 19 h @ [h ! 19] @
      Wire.slice 20 22 h @ Wire.slice 22 26 h"
  proof -
    have "Wire.slice 0 26 h = Wire.slice 0 1 h @ Wire.slice 1 2 h @ Wire.slice 2 3 h @ Wire.slice 3 11 h @
        Wire.slice 11 15 h @ Wire.slice 15 19 h @ Wire.slice 19 20 h @ Wire.slice 20 22 h @ Wire.slice 22 26 h"
      by (simp add: slice_join del: append_assoc add: append_assoc [symmetric])
    then show ?thesis using l by (simp add: slice_one) (simp add: slice_def)
  qed
  then show ?thesis
    using assms(2) be_bytes_from_be [of "Wire.slice 20 22 h"] be_bytes_from_be [of "Wire.slice 22 26 h"]
    unfolding media_header_def by (simp add: from_be_u64 from_be_u32 lens)
qed

lemma read_media_Inr:
  assumes "read_media_frame_v2 reserve hint_from_u8 n inp b = Inr (m, rest, b')"
    and hints: "\<forall>x h. hint_from_u8 x = Some h \<longrightarrow> hint_to_u8 h = x"
  shows "\<exists>app stream epoch ft ts tlts hint payload. m = MediaFrame app stream epoch ft ts tlts hint payload \<and>
    inp = media_header (hint_to_u8 hint) ft epoch ts tlts (length app) (length stream) (length payload) @
      str_bytes app @ str_bytes stream @ payload @ rest \<and>
    n = MEDIA_FIXED_LEN + length app + length stream + length payload \<and>
    length app \<le> MAX_APP_LEN \<and> length stream \<le> MAX_STREAM_LEN"
proof -
  from assms(1) obtain h inp1 b1 hint app inp2 b2 stream inp3 b3 payload
    where h: "read_exact_budgeted reserve MEDIA_FIXED_LEN inp b = Inr (h, inp1, b1)"
      and hint: "hint_from_u8 (h ! 0) = Some hint" and flags: "h ! 2 = 0"
      and sl: "from_be (Wire.slice 20 22 h) \<le> MAX_STREAM_LEN"
      and sum: "Option.bind (usize_checked_add MEDIA_FIXED_LEN (unat (h ! 19))) (\<lambda>n.
          Option.bind (usize_checked_add n (from_be (Wire.slice 20 22 h))) (\<lambda>n.
          usize_checked_add n (from_be (Wire.slice 22 26 h)))) = Some n"
      and app: "read_string reserve (unat (h ! 19)) inp1 b1 = Inr (app, inp2, b2)"
      and stream: "read_string reserve (from_be (Wire.slice 20 22 h)) inp2 b2 = Inr (stream, inp3, b3)"
      and payload: "read_vec reserve (from_be (Wire.slice 22 26 h)) inp3 b3 = Inr (payload, rest, b')"
      and m: "m = MediaFrame app stream (of_nat (from_be (Wire.slice 3 11 h))) (h ! 1)
          (of_nat (from_be (Wire.slice 11 15 h))) (of_nat (from_be (Wire.slice 15 19 h))) hint payload"
    unfolding read_media_frame_v2_def Let_def success_iff rbind_Inr not_less sum.inject prod.inject not_not
    by blast
  from read_exact_budgeted_Inr [OF h] have hh: "inp = h @ inp1" "length h = MEDIA_FIXED_LEN" by simp_all
  from hint hints have "h ! 0 = hint_to_u8 hint" by simp
  note hdr = media_header_unique [OF hh(2) flags, unfolded this]
  note a = read_string_Inr [OF app] and s = read_string_Inr [OF stream] and p = read_vec_Inr [OF payload]
  have "inp = media_header (hint_to_u8 hint) (h ! 1) (of_nat (from_be (Wire.slice 3 11 h)))
      (of_nat (from_be (Wire.slice 11 15 h))) (of_nat (from_be (Wire.slice 15 19 h)))
      (length app) (length stream) (length payload) @ str_bytes app @ str_bytes stream @ payload @ rest"
    using hdr hh(1) a s p by simp
  moreover have "n = MEDIA_FIXED_LEN + length app + length stream + length payload"
    using sum a s p by (auto simp: usize_checked_add_def split: if_splits bind_splits)
  moreover have "length app \<le> MAX_APP_LEN" using a unat_less_width(1) [of "h ! 19"] by (simp add: MAX_APP_LEN_def)
  moreover have "length stream \<le> MAX_STREAM_LEN" using s sl by simp
  ultimately show ?thesis using m by blast
qed

lemma read_frame_v2_Inr:
  assumes "read_frame reserve from_json hint_from_u8 version mx new_guard inp = Inr (m, rest)" "2 \<le> version"
  shows "\<exists>lenb inp1 kindb inp2 b2 b3. read_exact 4 inp () = Inr (lenb, inp1, ()) \<and> from_be lenb \<le> mx \<and>
    from_be lenb \<noteq> 0 \<and> read_exact 1 inp1 b2 = Inr (kindb, inp2, b2) \<and>
    read_body_v2 reserve from_json hint_from_u8 (kindb ! 0) (from_be lenb - 1) inp2 b2 = Inr (m, rest, b3)"
proof -
  from assms(1) obtain lenb inp1 b0 b3 where len: "read_exact 4 inp () = Inr (lenb, inp1, ())" "from_be lenb \<le> mx"
    and body: "read_frame_body reserve from_json hint_from_u8 version (from_be lenb) inp1 b0 = Inr (m, rest, b3)"
    unfolding read_frame_def Let_def success_iff not_less sum.inject prod.inject by (metis (full_types) old.unit.exhaust)
  from body assms(2) obtain b1 kindb inp1' inp2 b2 where "from_be lenb \<noteq> 0"
    and r: "reserve_body reserve 1 inp1 b0 = Inr ((), inp1', b1)" and k: "read_exact 1 inp1' b1 = Inr (kindb, inp2, b2)"
    and "read_body_v2 reserve from_json hint_from_u8 (kindb ! 0) (from_be lenb - 1) inp2 b2 = Inr (m, rest, b3)"
    unfolding read_frame_body_def Let_def rbind_Inr success_iff if_P [OF assms(2)] by (metis (full_types) old.unit.exhaust)
  moreover have "inp1' = inp1" using r by (simp add: reserve_body_def success_iff)
  moreover have "b2 = b1" using k by (simp add: read_exact_def success_iff)
  ultimately show ?thesis using len by blast
qed

lemma read_body_v2_media:
  assumes "read_body_v2 reserve from_json hint_from_u8 kind n inp b = Inr (m, rest, b')"
    and "m = MediaFrame app stream epoch ft ts tlts hint payload"
  shows "kind = KIND_MEDIA_FRAME" and "read_media_frame_v2 reserve hint_from_u8 n inp b = Inr (m, rest, b')"
proof -
  have "read_control_v2 reserve from_json n inp b \<noteq> Inr (m, rest, b')"
    unfolding read_control_v2_def rbind_Inr success_iff using assms(2) by (auto split: sum.splits)
  moreover have "read_init_cache_v2 reserve n inp b \<noteq> Inr (m, rest, b')"
    unfolding read_init_cache_v2_def rbind_Inr success_iff Let_def using assms(2)
    by (auto simp: rbind_Inr split: if_splits)
  ultimately show "kind = KIND_MEDIA_FRAME" "read_media_frame_v2 reserve hint_from_u8 n inp b = Inr (m, rest, b')"
    using assms(1) by (auto simp: read_body_v2_def split: if_splits)
qed

text \<open>
  C23. A media frame has one spelling. If a version 2 reader accepts some bytes as a media frame,
  then these bytes are exactly what \<open>write_frame\<close> produces for it: header fields, lengths and
  flags leave no freedom, and no JSON control frame is read as media.
\<close>

theorem media_frame_canonical:
  assumes rd: "read_frame reserve from_json hint_from_u8 version mx new_guard inp = Inr (m, rest)"
    and frame: "m = MediaFrame app stream epoch ft ts tlts hint payload"
    and hints: "\<forall>x h. hint_from_u8 x = Some h \<longrightarrow> hint_to_u8 h = x"
    and v: "2 \<le> version" and mx: "mx \<le> MAX_FRAME"
  shows "\<exists>bs. write_frame to_json hint_to_u8 m version = Inr bs \<and> inp = bs @ rest"
proof -
  from read_frame_v2_Inr [OF rd v] obtain lenb inp1 kindb inp2 b2 b3
    where len: "read_exact 4 inp () = Inr (lenb, inp1, ())" "from_be lenb \<le> mx" "from_be lenb \<noteq> 0"
      and kind: "read_exact 1 inp1 b2 = Inr (kindb, inp2, b2)"
      and body: "read_body_v2 reserve from_json hint_from_u8 (kindb ! 0) (from_be lenb - 1) inp2 b2 = Inr (m, rest, b3)"
    by blast
  from read_exact_Inr [OF len(1)] have l: "inp = lenb @ inp1" "length lenb = 4" by simp_all
  from read_exact_Inr [OF kind] have k: "inp1 = kindb ! 0 # inp2" by (cases kindb) auto
  from read_body_v2_media [OF body frame] have mk: "kindb ! 0 = KIND_MEDIA_FRAME"
    and rm: "read_media_frame_v2 reserve hint_from_u8 (from_be lenb - 1) inp2 b2 = Inr (m, rest, b3)" by simp_all
  from read_media_Inr [OF rm hints] frame
  have inp2: "inp2 = media_header (hint_to_u8 hint) ft epoch ts tlts (length app) (length stream) (length payload) @
      str_bytes app @ str_bytes stream @ payload @ rest"
    and n: "from_be lenb - 1 = MEDIA_FIXED_LEN + length app + length stream + length payload"
    and names: "length app \<le> MAX_APP_LEN" "length stream \<le> MAX_STREAM_LEN" by auto
  have lenb: "from_be lenb = 1 + MEDIA_FIXED_LEN + length app + length stream + length payload"
    using n len(3) by simp
  have "lenb = be_bytes 4 (from_be lenb)" using be_bytes_from_be [of lenb] l(2) by simp
  then have "inp = be_bytes 4 (1 + MEDIA_FIXED_LEN + length app + length stream + length payload) @
      KIND_MEDIA_FRAME # inp2"
    using l k mk unfolding lenb by simp
  then show ?thesis
    using v names len(2) mx lenb inp2 frame
    by (simp add: write_frame_def write_media_frame_bytes)
qed

theorem media_frame_canonical_witness:
  "\<exists>inp bs. read_frame unit_budget (\<lambda>_. None) demo_hint_from_u8 2 4096 (\<lambda>_. Some ()) inp = Inr (demo_frame, [9]) \<and>
     write_frame (\<lambda>_. None) demo_hint_to_u8 demo_frame 2 = Inr bs \<and> inp = bs @ [9]"
proof -
  from demo_write(1) obtain bs
    where bs: "write_frame (\<lambda>_. None) demo_hint_to_u8 demo_frame 2 = Inr bs" "length bs = 40" by blast
  from frame_roundtrip [OF bs(1), of "\<lambda>_. None" demo_hint_from_u8 4096 unit_budget "\<lambda>_. Some ()" "[9]"] bs demo_hints(1)
    demo_write(2)
  have rd: "read_frame unit_budget (\<lambda>_. None) demo_hint_from_u8 2 4096 (\<lambda>_. Some ()) (bs @ [9]) = Inr (demo_frame, [9])"
    by simp
  have "\<exists>bs'. write_frame (\<lambda>_. None) demo_hint_to_u8 demo_frame 2 = Inr bs' \<and> bs @ [9] = bs' @ [9]"
    by (rule media_frame_canonical [OF rd demo_frame_def]) (use demo_hints(2) in \<open>auto simp: MAX_FRAME_def\<close>)
  with rd show ?thesis by blast
qed

end
