(* ===== verification/Security.thy ===== *)
theory Security
  imports Sliding_Window Net_Addr Ct_Compare
begin

unbundle bit_operations_syntax

text \<open>
  Security helpers of the cluster plane (\<open>src/src/cluster/security.rs\<close>): the tracker of failed
  handshakes, the comparison of secrets, node identities in certificates, and the check of peer
  addresses. The digests (\<open>auth_response\<close>, \<open>admin_proof\<close>), the nonce and the certificate parser are
  code of other crates. Parsing a socket address is an argument.
\<close>

section \<open>Failed handshakes\<close>

definition CLUSTER_AUTH_MAX_FAILURES :: nat where "CLUSTER_AUTH_MAX_FAILURES = 10"
definition CLUSTER_AUTH_FAILURE_WINDOW :: duration where "CLUSTER_AUTH_FAILURE_WINDOW = secs 60"
definition MAX_TRACKED_CLUSTER_AUTH_IPS :: nat where "MAX_TRACKED_CLUSTER_AUTH_IPS = 10000"

type_synonym failure_map = "(ip_addr, instant list) hmap"

definition active_cluster_auth_failure_count :: "instant list \<Rightarrow> instant \<Rightarrow> nat" where
  "active_cluster_auth_failure_count entries now =
     length (filter (in_window CLUSTER_AUTH_FAILURE_WINDOW now) entries)"

definition purge_expired_cluster_auth_failures :: "failure_map \<Rightarrow> instant \<Rightarrow> failure_map" where
  "purge_expired_cluster_auth_failures guard now =
     hm_update_all (\<lambda>_ entries.
       let entries' = filter (in_window CLUSTER_AUTH_FAILURE_WINDOW now) entries
       in if entries' \<noteq> [] then Some entries' else None) guard"

definition evict_oldest_eligible_cluster_auth_ip ::
    "failure_map \<Rightarrow> instant \<Rightarrow> instant \<Rightarrow> bool \<times> failure_map" where
  "evict_oldest_eligible_cluster_auth_ip guard now fresh =
     (case min_by_key (\<lambda>(_, entries). last_or fresh entries)
             (filter (\<lambda>(_, entries). active_cluster_auth_failure_count entries now < CLUSTER_AUTH_MAX_FAILURES)
               guard) of
        None \<Rightarrow> (False, guard)
      | Some (oldest_key, _) \<Rightarrow> (True, hm_remove oldest_key guard))"

definition evict_oldest_cluster_auth_ip :: "failure_map \<Rightarrow> instant \<Rightarrow> bool \<times> failure_map" where
  "evict_oldest_cluster_auth_ip guard now =
     (case min_by_key (\<lambda>(_, entries). last_or now entries) guard of
        None \<Rightarrow> (False, guard)
      | Some (oldest_key, _) \<Rightarrow> (True, hm_remove oldest_key guard))"

definition cluster_auth_bucket :: "ip_addr \<Rightarrow> ip_addr" where
  "cluster_auth_bucket peer =
     (case to_canonical peer of
        V6 s0 s1 s2 s3 _ _ _ _ \<Rightarrow> V6 s0 s1 s2 s3 0 0 0 0
      | v4 \<Rightarrow> v4)"

definition cluster_auth_rate_limited :: "failure_map \<Rightarrow> ip_addr \<Rightarrow> instant \<Rightarrow> bool \<times> failure_map" where
  "cluster_auth_rate_limited guard0 peer now =
     (let bucket = cluster_auth_bucket peer;
          guard = purge_expired_cluster_auth_failures guard0 now
      in (case hm_get guard bucket of
            None \<Rightarrow> False
          | Some entries \<Rightarrow> CLUSTER_AUTH_MAX_FAILURES \<le> active_cluster_auth_failure_count entries now,
          guard))"

text \<open>The two evictions are tried in order, the second only if the first one found nothing.\<close>

definition make_auth_room :: "failure_map \<Rightarrow> ip_addr \<Rightarrow> instant \<Rightarrow> instant \<Rightarrow> bool \<times> failure_map" where
  "make_auth_room guard bucket now fresh =
     (if hm_get guard bucket \<noteq> None \<or> length guard < MAX_TRACKED_CLUSTER_AUTH_IPS then (True, guard)
      else let (evicted, g1) = evict_oldest_eligible_cluster_auth_ip guard now fresh
           in if evicted then (True, g1) else evict_oldest_cluster_auth_ip g1 now)"

definition record_cluster_auth_failure :: "failure_map \<Rightarrow> ip_addr \<Rightarrow> instant \<Rightarrow> instant \<Rightarrow> failure_map" where
  "record_cluster_auth_failure guard0 peer now fresh =
     (let bucket = cluster_auth_bucket peer;
          (room, guard) = make_auth_room (purge_expired_cluster_auth_failures guard0 now) bucket now fresh
      in if \<not> room then guard
         else hm_insert bucket ((case hm_get guard bucket of None \<Rightarrow> [] | Some entries \<Rightarrow> entries) @ [now]) guard)"

definition clear_cluster_auth_failures :: "failure_map \<Rightarrow> ip_addr \<Rightarrow> failure_map" where
  "clear_cluster_auth_failures guard peer = hm_remove (cluster_auth_bucket peer) guard"

section \<open>Secrets and identities\<close>

definition secrets_equal :: "string \<Rightarrow> string \<Rightarrow> bool" where
  "secrets_equal sa sb =
     (let a = str_bytes sa; b = str_bytes sb;
          max_len = max (length a) (length b);
          diff0 = (if length a \<noteq> length b then 1 else 0 :: u8)
      in foldl (\<lambda>diff i. diff OR (byte_at a i XOR byte_at b i)) diff0 [0..<max_len] = 0)"

definition is_ascii_digit :: "char \<Rightarrow> bool" where
  "is_ascii_digit c \<longleftrightarrow> CHR ''0'' \<le> c \<and> c \<le> CHR ''9''"

text \<open>\<open>str::parse::<u64>\<close> on a string of digits: \<open>None\<close> on overflow.\<close>

definition digits_value :: "string \<Rightarrow> nat" where
  "digits_value ds = foldl (\<lambda>v c. v * 10 + (of_char c - 48)) 0 ds"

definition parse_u64_digits :: "string \<Rightarrow> nat option" where
  "parse_u64_digits ds = (if digits_value ds < 2 ^ 64 then Some (digits_value ds) else None)"

definition parse_node_id_from_identity_str :: "string \<Rightarrow> nat option" where
  "parse_node_id_from_identity_str value =
     (if \<not> prefix ''lrtmp2-node-'' value then None
      else
        let digits = drop (length ''lrtmp2-node-'') value
        in if digits = [] \<or> 20 < length digits \<or> \<not> list_all is_ascii_digit digits then None
           else (case parse_u64_digits digits of
                   None \<Rightarrow> None
                 | Some nid \<Rightarrow> if 0 < nid then Some nid else None))"

text \<open>
  The names of a certificate as the parser delivers them: the common names that are text, then
  the DNS and URI entries of the subject alternative name.
\<close>

definition node_id_from_cert :: "string list \<Rightarrow> string list \<Rightarrow> nat option" where
  "node_id_from_cert common_names alt_names =
     (case List.map_filter parse_node_id_from_identity_str common_names of
        nid # _ \<Rightarrow> Some nid
      | [] \<Rightarrow> (case List.map_filter parse_node_id_from_identity_str alt_names of
                nid # _ \<Rightarrow> Some nid
              | [] \<Rightarrow> None))"

datatype identity_error = MissingIdentity | IdentityMismatch

definition verify_tls_node_identity :: "bool \<Rightarrow> nat option \<Rightarrow> nat \<Rightarrow> identity_error + unit" where
  "verify_tls_node_identity tls_active cert_node_id claimed_node_id =
     (if \<not> tls_active then Inr ()
      else case cert_node_id of
        None \<Rightarrow> Inl MissingIdentity
      | Some cert_id \<Rightarrow> if cert_id \<noteq> claimed_node_id then Inl IdentityMismatch else Inr ())"

section \<open>Peer addresses\<close>

datatype peer_addr_error = AddrRequired | AddrInvalid | NotUnicast | Loopback | LinkLocal | SharedSpace | CloudMetadata

definition is_aws_ipv6_imds :: "ip_addr \<Rightarrow> bool" where
  "is_aws_ipv6_imds ip \<longleftrightarrow> ip = V6 0xfd00 0x0ec2 0 0 0 0 0 0x0254"

definition is_rfc6598_shared_address :: "ip_addr \<Rightarrow> bool" where
  "is_rfc6598_shared_address ip = (case ip of V4 a b _ _ \<Rightarrow> a = 100 \<and> b AND 0xC0 = 64 | _ \<Rightarrow> False)"

text \<open>\<open>trim\<close> and \<open>parse_socket\<close> stand for \<open>str::trim\<close> and \<open>str::parse::<SocketAddr>\<close>.\<close>

definition validate_cluster_peer_addr ::
    "(string \<Rightarrow> string) \<Rightarrow> (string \<Rightarrow> (ip_addr \<times> u16) option) \<Rightarrow> string \<Rightarrow> bool \<Rightarrow> peer_addr_error + unit" where
  "validate_cluster_peer_addr trim parse_socket addr allow_loopback =
     (let trimmed = trim addr
      in if trimmed = [] then Inl AddrRequired
         else case parse_socket trimmed of
           None \<Rightarrow> Inl AddrInvalid
         | Some (addr_ip, _) \<Rightarrow>
             (let ip = to_canonical addr_ip
              in if is_unspecified ip \<or> is_multicast ip then Inl NotUnicast
                 else if \<not> allow_loopback \<and> is_loopback ip then Inl Loopback
                 else if is_link_local ip then Inl LinkLocal
                 else if is_rfc6598_shared_address ip then Inl SharedSpace
                 else if is_aws_ipv6_imds ip then Inl CloudMetadata
                 else Inr ()))"

definition join_admin_proof_payload :: "(nat \<Rightarrow> string) \<Rightarrow> nat \<Rightarrow> string \<Rightarrow> string \<Rightarrow> string" where
  "join_admin_proof_payload show_nat node_id control_addr media_addr =
     ''Join:'' @ show_nat node_id @ '':'' @ control_addr @ '':'' @ media_addr"

end
