(* ===== verification/Security_Props.thy ===== *)
theory Security_Props
  imports Security
begin

unbundle bit_operations_syntax

text \<open>Correctness of the security helpers of the cluster plane.\<close>

section \<open>Secrets\<close>

text \<open>
  C27. Secrets are compared exactly. \<open>secrets_equal\<close> accepts two strings if and only if they are
  equal: unlike \<open>ct_str_eq\<close> it folds the length difference in as a flag, not as a truncated number.
\<close>

theorem secrets_equal_iff: "secrets_equal a b \<longleftrightarrow> a = b"
proof -
  have "secrets_equal a b \<longleftrightarrow> length a = length b \<and>
      zero_padded (max (length a) (length b)) (str_bytes a) = zero_padded (max (length a) (length b)) (str_bytes b)"
    using fold_diff_zero [of "str_bytes a" "str_bytes b"] by (simp add: secrets_equal_def Let_def)
  also have "\<dots> \<longleftrightarrow> str_bytes a = str_bytes b"
    by (auto simp: zero_padded_def str_bytes_inj)
  finally show ?thesis by (simp add: str_bytes_inj)
qed

section \<open>Failed handshakes\<close>

abbreviation W :: duration where "W \<equiv> CLUSTER_AUTH_FAILURE_WINDOW"

definition fm_ok :: "failure_map \<Rightarrow> bool" where
  "fm_ok g \<longleftrightarrow> hm_ok g \<and> length g \<le> MAX_TRACKED_CLUSTER_AUTH_IPS"

lemma active_failures [simp]: "active_cluster_auth_failure_count es now = active_count W es now"
  by (simp add: active_cluster_auth_failure_count_def active_count_def)

lemma purge_get:
  "hm_ok g \<Longrightarrow> hm_get (purge_expired_cluster_auth_failures g now) k =
     (case hm_get g k of None \<Rightarrow> None
      | Some es \<Rightarrow> if filter (in_window W now) es = [] then None else Some (filter (in_window W now) es))"
  by (simp add: purge_expired_cluster_auth_failures_def hm_get_update_all Let_def split: option.splits)

lemma purge_ok: "fm_ok g \<Longrightarrow> fm_ok (purge_expired_cluster_auth_failures g now)"
proof -
  have "length (hm_update_all f m) \<le> length m" for f and m :: failure_map
    by (induction m) (auto split: option.splits)
  then show "fm_ok g \<Longrightarrow> ?thesis"
    unfolding fm_ok_def purge_expired_cluster_auth_failures_def by (meson hm_ok_update_all le_trans)
qed

text \<open>A source with at least ten failures in the window.\<close>

definition throttled_at :: "failure_map \<Rightarrow> ip_addr \<Rightarrow> instant \<Rightarrow> bool" where
  "throttled_at g k now =
     (case hm_get g k of None \<Rightarrow> False | Some es \<Rightarrow> CLUSTER_AUTH_MAX_FAILURES \<le> active_count W es now)"

lemma rate_limited_iff:
  "hm_ok g \<Longrightarrow> fst (cluster_auth_rate_limited g peer now) \<longleftrightarrow> throttled_at g (cluster_auth_bucket peer) now"
  by (auto simp: cluster_auth_rate_limited_def throttled_at_def Let_def purge_get CLUSTER_AUTH_MAX_FAILURES_def
      split: option.splits) (simp add: active_count_def)

lemma purge_throttled:
  assumes "hm_ok g" "now \<le> later" "throttled_at g k later"
  shows "throttled_at (purge_expired_cluster_auth_failures g now) k later"
proof -
  from assms(3) obtain es where es: "hm_get g k = Some es" "CLUSTER_AUTH_MAX_FAILURES \<le> active_count W es later"
    by (auto simp: throttled_at_def split: option.splits)
  have "0 < active_count W es now"
    using es(2) active_count_antimono [OF assms(2), of W es] by (simp add: CLUSTER_AUTH_MAX_FAILURES_def)
  then have "filter (in_window W now) es \<noteq> []" by (auto simp: active_count_def)
  with es assms(1,2) show ?thesis
    by (simp add: throttled_at_def purge_get active_count_later_purged)
qed

text \<open>Room can be made without touching a throttled source.\<close>

definition has_slack :: "failure_map \<Rightarrow> instant \<Rightarrow> bool" where
  "has_slack g now \<longleftrightarrow> length g < MAX_TRACKED_CLUSTER_AUTH_IPS \<or>
     list_ex (\<lambda>(_, es). active_count W es now < CLUSTER_AUTH_MAX_FAILURES) g"

lemma make_auth_room_cases:
  assumes ok: "hm_ok g" and res: "make_auth_room g b now fresh = (room, g')"
  shows "g' = g \<and> (hm_get g b \<noteq> None \<or> length g < MAX_TRACKED_CLUSTER_AUTH_IPS) \<or>
    (\<exists>k es. hm_get g k = Some es \<and> g' = hm_remove k g \<and> hm_get g b = None \<and>
       (has_slack g now \<longrightarrow> active_count W es now < CLUSTER_AUTH_MAX_FAILURES))"
    and "room"
proof -
  let ?elig = "filter (\<lambda>(_, es). active_count W es now < CLUSTER_AUTH_MAX_FAILURES) g"
  have mem: "hm_get g k = Some es" if "(k, es) \<in> set g" for k es using ok that by simp
  have "(g' = g \<and> (hm_get g b \<noteq> None \<or> length g < MAX_TRACKED_CLUSTER_AUTH_IPS) \<or>
    (\<exists>k es. hm_get g k = Some es \<and> g' = hm_remove k g \<and> hm_get g b = None \<and>
       (has_slack g now \<longrightarrow> active_count W es now < CLUSTER_AUTH_MAX_FAILURES))) \<and> room"
  proof (cases "hm_get g b \<noteq> None \<or> length g < MAX_TRACKED_CLUSTER_AUTH_IPS")
    case True
    with res show ?thesis by (auto simp: make_auth_room_def)
  next
    case full: False
    show ?thesis
    proof (cases "min_by_key (\<lambda>(_, es). last_or fresh es) ?elig")
      case None
      then have "?elig = []" by simp
      then have slack: "\<not> has_slack g now" using full by (auto simp: has_slack_def filter_empty_conv list_ex_iff)
      have "g \<noteq> []" using full by (auto simp: MAX_TRACKED_CLUSTER_AUTH_IPS_def)
      then obtain k es where m: "min_by_key (\<lambda>(_, es). last_or now es) g = Some (k, es)"
        by (metis min_by_key_None not_None_eq surj_pair)
      from min_by_key_mem [OF this] have "(k, es) \<in> set g" .
      with full None m slack res mem show ?thesis
        by (auto simp: make_auth_room_def evict_oldest_eligible_cluster_auth_ip_def evict_oldest_cluster_auth_ip_def)
    next
      case (Some ke)
      obtain k es where ke: "ke = (k, es)" by (cases ke)
      from min_by_key_mem [OF Some] ke have "(k, es) \<in> set g" "active_count W es now < CLUSTER_AUTH_MAX_FAILURES"
        by auto
      with full Some ke res mem show ?thesis
        by (auto simp: make_auth_room_def evict_oldest_eligible_cluster_auth_ip_def)
    qed
  qed
  then show "g' = g \<and> (hm_get g b \<noteq> None \<or> length g < MAX_TRACKED_CLUSTER_AUTH_IPS) \<or>
    (\<exists>k es. hm_get g k = Some es \<and> g' = hm_remove k g \<and> hm_get g b = None \<and>
       (has_slack g now \<longrightarrow> active_count W es now < CLUSTER_AUTH_MAX_FAILURES))" "room" by blast+
qed

text \<open>The number of failures of a bucket that still count.\<close>

definition active_of :: "failure_map \<Rightarrow> ip_addr \<Rightarrow> instant \<Rightarrow> nat" where
  "active_of g k now = (case hm_get g k of None \<Rightarrow> 0 | Some es \<Rightarrow> active_count W es now)"

lemma throttled_active: "throttled_at g k now \<longleftrightarrow> CLUSTER_AUTH_MAX_FAILURES \<le> active_of g k now"
  by (simp add: throttled_at_def active_of_def CLUSTER_AUTH_MAX_FAILURES_def split: option.splits)

lemma active_of_purge:
  "hm_ok g \<Longrightarrow> now \<le> later \<Longrightarrow> active_of (purge_expired_cluster_auth_failures g now) k later = active_of g k later"
proof -
  assume ok: "hm_ok g" and le: "now \<le> later"
  have "active_count W es later = 0" if "filter (in_window W now) es = []" for es
    using that active_count_antimono [OF le, of W es] by (simp add: active_count_def)
  then show ?thesis
    using ok le by (auto simp: active_of_def purge_get active_count_later_purged split: option.splits)
qed

lemma active_count_snoc: "active_count W (es @ [now]) later = active_count W es later + (if in_window W later now then 1 else 0)"
  by (simp add: active_count_def)

lemma in_window_now: "in_window W now now"
  by (simp add: in_window_iff CLUSTER_AUTH_FAILURE_WINDOW_def secs_def)

lemma active_of_push:
  "active_of (hm_insert b ((case hm_get g b of None \<Rightarrow> [] | Some es \<Rightarrow> es) @ [now]) g) k later =
     active_of g k later + (if k = b \<and> in_window W later now then 1 else 0)"
  by (auto simp: active_of_def active_count_snoc split: option.splits) (simp_all add: active_count_def)

lemma active_of_remove: "active_of (hm_remove k g) l later = (if l = k then 0 else active_of g l later)"
  by (auto simp: active_of_def)

lemma record_cases:
  assumes ok: "fm_ok g"
  obtains g' where "record_cluster_auth_failure g peer now fresh =
      hm_insert (cluster_auth_bucket peer)
        ((case hm_get g' (cluster_auth_bucket peer) of None \<Rightarrow> [] | Some es \<Rightarrow> es) @ [now]) g'"
    and "hm_ok g'" and "length g' < MAX_TRACKED_CLUSTER_AUTH_IPS \<or>
           hm_get g' (cluster_auth_bucket peer) \<noteq> None \<and> length g' \<le> MAX_TRACKED_CLUSTER_AUTH_IPS"
    and "active_of g' (cluster_auth_bucket peer) now = active_of g (cluster_auth_bucket peer) now"
    and "\<And>l later. has_slack (purge_expired_cluster_auth_failures g now) now \<Longrightarrow> now \<le> later \<Longrightarrow> throttled_at g l later \<Longrightarrow>
           active_of g' l later = active_of g l later"
proof -
  define p where "p = purge_expired_cluster_auth_failures g now"
  let ?b = "cluster_auth_bucket peer"
  have p: "hm_ok p" "length p \<le> MAX_TRACKED_CLUSTER_AUTH_IPS"
    using purge_ok [OF ok] by (simp_all add: p_def fm_ok_def)
  have act: "active_of p l later = active_of g l later" if "now \<le> later" for l later
    using ok that by (simp add: p_def active_of_purge fm_ok_def)
  obtain room g' where res: "make_auth_room p ?b now fresh = (room, g')" by force
  note cases = make_auth_room_cases [OF p(1) res]
  have rec: "record_cluster_auth_failure g peer now fresh =
      hm_insert ?b ((case hm_get g' ?b of None \<Rightarrow> [] | Some es \<Rightarrow> es) @ [now]) g'"
    using cases(2) res by (simp add: record_cluster_auth_failure_def p_def Let_def)
  from cases(1) show ?thesis
  proof (elim disjE exE conjE)
    assume "g' = p" "hm_get p ?b \<noteq> None"
    with rec p act that show ?thesis by simp
  next
    assume "g' = p" "length p < MAX_TRACKED_CLUSTER_AUTH_IPS"
    with rec p act that show ?thesis by simp
  next
    fix k es
    assume k: "hm_get p k = Some es" and g': "g' = hm_remove k p" and none: "hm_get p ?b = None"
      and es: "has_slack p now \<longrightarrow> active_count W es now < CLUSTER_AUTH_MAX_FAILURES"
    have "length g' < MAX_TRACKED_CLUSTER_AUTH_IPS" using length_hm_remove [of p k] k g' p(2) by simp
    moreover have "active_of g' ?b now = active_of g ?b now"
      using none k act [of now ?b] by (cases "?b = k") (simp_all add: g' active_of_remove)
    moreover have "active_of g' l later = active_of g l later"
      if "has_slack p now" "now \<le> later" "throttled_at g l later" for l later
    proof -
      have "l \<noteq> k"
      proof
        assume "l = k"
        then have "CLUSTER_AUTH_MAX_FAILURES \<le> active_count W es later"
          using that act [OF that(2), of k] k by (simp add: throttled_active) (simp add: active_of_def)
        with es that active_count_antimono [OF that(2), of W es] show False by simp
      qed
      with act [OF that(2)] show ?thesis by (simp add: g' active_of_remove)
    qed
    moreover have "hm_ok g'" using p(1) g' by simp
    ultimately show ?thesis by (intro that [OF rec]) (auto simp: p_def)
  qed
qed



section \<open>Node identities\<close>

text \<open>\<open>Display\<close> of an unsigned integer.\<close>

fun dec :: "nat \<Rightarrow> string" where
  "dec n = (if n < 10 then [char_of (48 + n)] else dec (n div 10) @ [char_of (48 + n mod 10)])"

declare dec.simps [simp del]

lemma digits_value_snoc: "digits_value (ds @ [c]) = digits_value ds * 10 + (of_char c - 48)"
  by (simp add: digits_value_def)

lemma digits_value_dec: "digits_value (dec n) = n"
proof (induction n rule: dec.induct)
  case (1 n)
  then show ?case
    by (subst dec.simps) (simp add: digits_value_snoc, simp add: digits_value_def)
qed

lemma is_ascii_digit_char: "d < 10 \<Longrightarrow> is_ascii_digit (char_of (48 + d :: nat))"
  by (simp add: is_ascii_digit_def less_eq_char_def)

lemma list_all_dec: "list_all is_ascii_digit (dec n)"
proof (induction n rule: dec.induct)
  case (1 n)
  then show ?case by (subst dec.simps) (simp add: is_ascii_digit_char)
qed

lemma length_dec: "n < 10 ^ Suc k \<Longrightarrow> length (dec n) \<le> Suc k"
proof (induction k arbitrary: n)
  case 0
  then show ?case by (subst dec.simps) simp
next
  case (Suc k)
  then have "n div 10 < 10 ^ Suc k" by (simp add: less_mult_imp_div_less mult.commute)
  from Suc.IH [OF this] show ?case by (subst dec.simps) simp
qed

lemma dec_nonempty: "dec n \<noteq> []"
  by (subst dec.simps) simp

text \<open>
  C25. The identity of a node survives its certificate. For every node id other than 0 the name
  \<open>lrtmp2-node-<id>\<close> is read back as that id, so under mutual TLS a peer whose certificate carries
  the name as its first common name is accepted for exactly that id and refused for every other.
\<close>

theorem node_identity_roundtrip:
  assumes "0 < n" and "n < 2 ^ 64"
  shows "parse_node_id_from_identity_str (''lrtmp2-node-'' @ dec n) = Some n \<and>
    (verify_tls_node_identity True (node_id_from_cert ((''lrtmp2-node-'' @ dec n) # cns) sans) claimed = Inr ()
      \<longleftrightarrow> claimed = n)"
proof -
  have "length (dec n) \<le> 20"
    using assms(2) length_dec [of n 19] by simp
  then have "parse_node_id_from_identity_str (''lrtmp2-node-'' @ dec n) = Some n"
    using assms by (simp add: parse_node_id_from_identity_str_def Let_def parse_u64_digits_def digits_value_dec
        list_all_dec dec_nonempty)
  then show ?thesis
    by (auto simp: verify_tls_node_identity_def node_id_from_cert_def map_filter_simps)
qed

lemma node_identity_roundtrip_witness:
  "parse_node_id_from_identity_str ''lrtmp2-node-42'' = Some 42"
proof -
  have "dec 42 = ''42''" by code_simp
  then show ?thesis using node_identity_roundtrip [of 42 "[]" "[]" 42] by simp
qed

section \<open>Peer addresses\<close>

text \<open>
  No address that reaches this host or a cloud metadata service is accepted for a peer. Whatever
  way it is spelt, IPv4-mapped IPv6 included, an accepted address is not unspecified, multicast or
  link-local, not in the shared range 100.64.0.0/10, not the EC2 IPv6 metadata address, and not
  loopback unless loopback peers are allowed. The limited broadcast address is not in the list: it
  is accepted.
\<close>

theorem validated_peer_addr:
  "validate_cluster_peer_addr trim parse_socket addr allow_loopback = Inr () \<longleftrightarrow>
     trim addr \<noteq> [] \<and> (\<exists>ip port. parse_socket (trim addr) = Some (ip, port) \<and>
       (let c = to_canonical ip in
          \<not> is_unspecified c \<and> \<not> is_multicast c \<and> \<not> (is_loopback c \<and> \<not> allow_loopback) \<and> \<not> is_link_local c \<and>
          (\<nexists>b d e. 64 \<le> b \<and> b < 128 \<and> c = V4 100 b d e) \<and> c \<noteq> V6 0xfd00 0xec2 0 0 0 0 0 0x254))"
proof -
  have shared: "(b :: u8) AND 0xC0 = 64 \<longleftrightarrow> 64 \<le> b \<and> b < 128" for b
  proof -
    have "\<forall>n \<in> set [0..<256]. ((of_nat n :: u8) AND 0xC0 = 64) = (64 \<le> n \<and> n < 128)" by code_simp
    moreover have "unat b \<in> set [0..<256]" using unat_less_width(1) [of b] by simp
    ultimately have "((of_nat (unat b) :: u8) AND 0xC0 = 64) = (64 \<le> unat b \<and> unat b < 128)" by (rule bspec)
    then show ?thesis by (simp add: word_le_nat_alt word_less_nat_alt)
  qed
  have "is_rfc6598_shared_address c \<longleftrightarrow> (\<exists>b d e. 64 \<le> b \<and> b < 128 \<and> c = V4 100 b d e)" for c
    by (auto simp: is_rfc6598_shared_address_def shared split: ip_addr.splits)
  then show ?thesis
    by (auto simp: validate_cluster_peer_addr_def Let_def is_aws_ipv6_imds_def split: option.splits)
qed

end
