(* ===== verification/Access_Keys.thy ===== *)
theory Access_Keys
  imports Rtmp_Prelude
begin

text \<open>
  Key material (\<open>src/src/keygen.rs\<close>): the format of access keys and how a key is spelt from random
  bytes. The operating system's generator is not modelled: its bytes are an argument.
\<close>

definition STREAM_KEY_ENTROPY_BYTES :: nat where "STREAM_KEY_ENTROPY_BYTES = 16"
definition API_TOKEN_ENTROPY_BYTES :: nat where "API_TOKEN_ENTROPY_BYTES = 32"
definition PREFIX_PUBLISH_KEY :: string where "PREFIX_PUBLISH_KEY = ''live_''"
definition PREFIX_PLAY_KEY :: string where "PREFIX_PLAY_KEY = ''play_''"
definition PREFIX_STATS_KEY :: string where "PREFIX_STATS_KEY = ''sts_''"
definition PREFIX_VIEWER_ID :: string where "PREFIX_VIEWER_ID = ''vi_''"
definition MIN_ACCESS_KEY_LEN :: nat where "MIN_ACCESS_KEY_LEN = 32"

definition is_ascii_alphanumeric :: "char \<Rightarrow> bool" where
  "is_ascii_alphanumeric c \<longleftrightarrow>
     (CHR ''0'' \<le> c \<and> c \<le> CHR ''9'') \<or> (CHR ''A'' \<le> c \<and> c \<le> CHR ''Z'') \<or> (CHR ''a'' \<le> c \<and> c \<le> CHR ''z'')"

definition is_valid_access_key :: "string \<Rightarrow> bool" where
  "is_valid_access_key value =
     (if length value < MIN_ACCESS_KEY_LEN \<or> 63 < length value then False
      else case value of
        [] \<Rightarrow> False
      | first # chars \<Rightarrow>
          is_ascii_alphanumeric first \<and>
          list_all (\<lambda>c. is_ascii_alphanumeric c \<or> c = CHR ''.'' \<or> c = CHR ''_'' \<or> c = CHR ''-'') chars)"

text \<open>\<open>{b:02x}\<close>.\<close>

definition hex_nibble :: "nat \<Rightarrow> char" where
  "hex_nibble d = (if d < 10 then char_of (48 + d) else char_of (87 + d))"

definition hex02 :: "u8 \<Rightarrow> string" where
  "hex02 b = [hex_nibble (unat b div 16), hex_nibble (unat b mod 16)]"

definition keygen_with_entropy :: "string \<Rightarrow> bytes \<Rightarrow> string" where
  "keygen_with_entropy pre rnd = pre @ concat (map hex02 rnd)"

lemma hex_nibble_alnum: "d < 16 \<Longrightarrow> is_ascii_alphanumeric (hex_nibble d)"
  by (simp add: is_ascii_alphanumeric_def hex_nibble_def less_eq_char_def)

lemma hex_nibble_inj: "d < 16 \<Longrightarrow> e < 16 \<Longrightarrow> hex_nibble d = hex_nibble e \<Longrightarrow> d = e"
proof -
  assume de: "d < 16" "e < 16" and eq: "hex_nibble d = hex_nibble e"
  have "of_char (hex_nibble i) = (if i < 10 then 48 + i else 87 + i)" if "i < 16" for i
    using that by (simp add: hex_nibble_def)
  with de arg_cong [OF eq, of "of_char :: char \<Rightarrow> nat"] show ?thesis by (simp split: if_splits)
qed

lemma hex02_inj: "hex02 a = hex02 b \<Longrightarrow> a = b"
proof -
  assume "hex02 a = hex02 b"
  then have "unat a div 16 = unat b div 16" "unat a mod 16 = unat b mod 16"
    using unat_less_width(1) [of a] unat_less_width(1) [of b] hex_nibble_inj by (auto simp: hex02_def)
  then have "unat a = unat b" by (metis div_mult_mod_eq)
  then show "a = b" by (simp add: word_unat_eq_iff)
qed

lemma length_concat_hex: "length (concat (map hex02 rnd)) = 2 * length rnd"
  by (induction rnd) (simp_all add: hex02_def)

lemma alnum_concat_hex: "list_all is_ascii_alphanumeric (concat (map hex02 rnd))"
proof (induction rnd)
  case (Cons b rnd)
  have "unat b < 256" using unat_less_width(1) [of b] by simp
  then have "unat b div 16 < 16" by (simp add: less_mult_imp_div_less)
  with Cons show ?case by (simp add: hex02_def hex_nibble_alnum)
qed simp

lemma concat_hex_inj: "concat (map hex02 a) = concat (map hex02 b) \<longleftrightarrow> a = b"
proof (induction a arbitrary: b)
  case Nil
  then show ?case by (cases b) (simp_all add: hex02_def)
next
  case (Cons x a)
  show ?case
  proof (cases b)
    case (Cons y c)
    have "hex02 x @ u = hex02 y @ v \<longleftrightarrow> hex02 x = hex02 y \<and> u = v" for u v by (simp add: hex02_def)
    with Cons Cons.IH hex02_inj show ?thesis by auto
  qed (simp add: hex02_def)
qed

end
