(* ===== verification/Db_Rows.thy ===== *)
theory Db_Rows
  imports Access_Keys
begin

unbundle bit_operations_syntax

text \<open>
  The rows of the database and the outcomes of its operations (\<open>src/src/db.rs\<close>, lines 164 to 323).
  The database stores and copies floating point columns without computing on them; they are kept as
  their 64 bits. Times are seconds of the Unix epoch, signed.
\<close>

section \<open>Rows\<close>

definition MAX_CONNECTIONS_PER_PLAY_KEY :: nat where "MAX_CONNECTIONS_PER_PLAY_KEY = 5"

type_synonym f64_bits = u64

record stream =
  s_id :: string
  s_name :: string
  s_app :: string
  s_publish_key :: string
  s_play_key :: string
  s_stats_key :: string
  s_enabled :: bool
  s_created_at :: int

record stream_viewer =
  v_id :: string
  v_stream_id :: string
  v_name :: string
  v_play_key :: string
  v_enabled :: bool
  v_created_at :: int

record stream_owner =
  o_stream_id :: string
  o_owner_node_id :: u64
  o_epoch :: u64
  o_acquired_at :: int

record publisher =
  pub_id :: string
  pub_stream_id :: string
  pub_app :: string
  pub_stream_name :: string
  pub_video_codec :: string
  pub_audio_codec :: string
  pub_video_width :: u32
  pub_video_height :: u32
  pub_fps :: f64_bits
  pub_audio_sample_rate :: u32
  pub_audio_channels :: u32
  pub_bytes_in :: u64
  pub_bitrate_kbps :: f64_bits
  pub_rtt_ms :: f64_bits
  pub_connected_at :: int
  pub_active :: bool

record player =
  pl_id :: string
  pl_stream_id :: string
  pl_viewer_id :: string
  pl_app :: string
  pl_stream_name :: string
  pl_bytes_out :: u64
  pl_bitrate_kbps :: f64_bits
  pl_rtt_ms :: f64_bits
  pl_connected_at :: int
  pl_active :: bool

section \<open>Outcomes\<close>

datatype owner_error = OwnerConflict | OwnerNotFound | OwnerDb

datatype stream_add_error = StreamDuplicate | StreamDb

datatype viewer_add_error = ViewerDuplicate | ParentUnavailable | ViewerDb

datatype viewer_delete_result = Deleted | NotFound | LastRemaining | DbError

datatype 'a db_lookup = LookupOk 'a | Missing | LookupFailed

datatype stream_disable_outcome = Disabled | DisableMissing | DisableStale

section \<open>Fencing tokens of rows without one\<close>

definition fnv1a64 :: "u64 \<Rightarrow> bytes \<Rightarrow> u64" where
  "fnv1a64 seed bytes = foldl (\<lambda>hash byte. (hash XOR ucast byte) * 0x00000100000001b3) seed bytes"

text \<open>\<open>{hash:016x}\<close>: sixteen lower case hexadecimal digits.\<close>

definition hex16 :: "u64 \<Rightarrow> string" where
  "hex16 w = map (\<lambda>i. hex_nibble (unat (drop_bit (4 * i) w) mod 16)) (rev [0..<16])"

definition legacy_delete_token :: "string \<Rightarrow> string \<Rightarrow> string" where
  "legacy_delete_token rid publish_key =
     concat (map (\<lambda>seed. hex16 (fnv1a64 (fnv1a64 seed (str_bytes rid)) (str_bytes publish_key)))
       [0xcbf29ce484222325, 0x9e3779b97f4a7c15])"

lemma length_legacy_delete_token: "length (legacy_delete_token rid key) = 32"
  by (simp add: legacy_delete_token_def hex16_def)

end
