(* ===== verification/Ownership.thy ===== *)
theory Ownership
  imports Db_Rows
begin

text \<open>
  Who may send the frames of a stream (\<open>src/src/cluster/media/ownership.rs\<close>): the owner and epoch of
  each stream as this node knows them, and the counter that epochs are drawn from. Epochs are fencing
  tokens: a frame is accepted only under the epoch on record.
\<close>

record ownership_tracker =
  owners :: "(string, u64 \<times> u64) hmap"
  next_epoch_counter :: u64

definition ownership_new :: ownership_tracker where
  "ownership_new = \<lparr>owners = [], next_epoch_counter = 1\<rparr>"

text \<open>\<open>fetch_add\<close> wraps; \<open>fetch_max(epoch.saturating_add(1))\<close> is \<open>advance_past\<close>.\<close>

definition next_epoch :: "ownership_tracker \<Rightarrow> u64 \<times> ownership_tracker" where
  "next_epoch t = (next_epoch_counter t, t\<lparr>next_epoch_counter := next_epoch_counter t + 1\<rparr>)"

definition advance_past :: "u64 \<Rightarrow> ownership_tracker \<Rightarrow> ownership_tracker" where
  "advance_past epoch t =
     t\<lparr>next_epoch_counter := max (next_epoch_counter t) (u64_saturating_add epoch 1)\<rparr>"

definition set_owner :: "string \<Rightarrow> u64 \<Rightarrow> u64 \<Rightarrow> ownership_tracker \<Rightarrow> ownership_tracker" where
  "set_owner stream_id node_id epoch t =
     advance_past epoch (t\<lparr>owners := hm_insert stream_id (node_id, epoch) (owners t)\<rparr>)"

definition clear_owner :: "string \<Rightarrow> ownership_tracker \<Rightarrow> ownership_tracker" where
  "clear_owner stream_id t = t\<lparr>owners := hm_remove stream_id (owners t)\<rparr>"

definition clear_if_epoch :: "string \<Rightarrow> u64 \<Rightarrow> ownership_tracker \<Rightarrow> bool \<times> ownership_tracker" where
  "clear_if_epoch stream_id epoch t =
     (if map_option snd (hm_get (owners t) stream_id) = Some epoch
      then (True, t\<lparr>owners := hm_remove stream_id (owners t)\<rparr>)
      else (False, t))"

definition clear_for_node :: "u64 \<Rightarrow> ownership_tracker \<Rightarrow> ownership_tracker" where
  "clear_for_node node_id t = t\<lparr>owners := hm_retain (\<lambda>_ (nid, _). nid \<noteq> node_id) (owners t)\<rparr>"

definition streams_for_node :: "u64 \<Rightarrow> ownership_tracker \<Rightarrow> string list" where
  "streams_for_node node_id t = map fst (filter (\<lambda>(_, nid, _). nid = node_id) (owners t))"

text \<open>The loop over the rows: the map built from them, and the highest epoch seen.\<close>

definition collect_owners :: "stream_owner list \<Rightarrow> (string, u64 \<times> u64) hmap \<times> u64" where
  "collect_owners rows =
     foldl (\<lambda>(g, max_epoch) r.
         (hm_insert (o_stream_id r) (o_owner_node_id r, o_epoch r) g, max max_epoch (o_epoch r)))
       ([], 0) rows"

definition hydrate_from :: "stream_owner list \<Rightarrow> ownership_tracker \<Rightarrow> ownership_tracker" where
  "hydrate_from rows t =
     (let (g, max_epoch) = collect_owners rows
      in advance_past max_epoch (t\<lparr>owners := g\<rparr>))"

definition sync_from ::
    "stream_owner list \<Rightarrow> ownership_tracker \<Rightarrow> (string \<times> (u64 \<times> u64) option) list \<times> ownership_tracker" where
  "sync_from rows t =
     (let (next, max_epoch) = collect_owners rows;
          g = owners t;
          changed = map (\<lambda>(sid, _). (sid, hm_get g sid)) (filter (\<lambda>(sid, new). hm_get g sid \<noteq> Some new) next) @
                    map (\<lambda>(sid, _). (sid, hm_get g sid)) (filter (\<lambda>(sid, _). hm_get next sid = None) g)
      in (changed, advance_past max_epoch (t\<lparr>owners := next\<rparr>)))"

definition get_owner :: "ownership_tracker \<Rightarrow> string \<Rightarrow> (u64 \<times> u64) option" where
  "get_owner t stream_id = hm_get (owners t) stream_id"

definition epoch_of :: "ownership_tracker \<Rightarrow> string \<Rightarrow> string \<Rightarrow> u64 option" where
  "epoch_of t app stream = map_option snd (get_owner t stream)"

definition accepts_epoch :: "ownership_tracker \<Rightarrow> string \<Rightarrow> u64 \<Rightarrow> bool" where
  "accepts_epoch t stream_id epoch =
     (case hm_get (owners t) stream_id of Some (_, e) \<Rightarrow> e = epoch | None \<Rightarrow> False)"

definition accepts_owner :: "ownership_tracker \<Rightarrow> string \<Rightarrow> u64 \<Rightarrow> u64 \<Rightarrow> bool" where
  "accepts_owner t stream_id node_id epoch =
     (case hm_get (owners t) stream_id of Some (n, e) \<Rightarrow> n = node_id \<and> e = epoch | None \<Rightarrow> False)"

section \<open>The rows on record\<close>

lemma collect_owners_snoc:
  "collect_owners (rows @ [r]) =
     (hm_insert (o_stream_id r) (o_owner_node_id r, o_epoch r) (fst (collect_owners rows)),
      max (snd (collect_owners rows)) (o_epoch r))"
  by (simp add: collect_owners_def split_beta)

lemma collect_owners_Nil [simp]: "collect_owners [] = ([], 0)"
  by (simp add: collect_owners_def)

lemma hm_ok_collect: "hm_ok (fst (collect_owners rows))"
  by (induction rows rule: rev_induct) (simp_all add: collect_owners_snoc)

lemma collect_max: "r \<in> set rows \<Longrightarrow> o_epoch r \<le> snd (collect_owners rows)"
  by (induction rows rule: rev_induct) (auto simp: collect_owners_snoc max.coboundedI1)

lemma collect_get:
  "hm_get (fst (collect_owners rows)) sid = Some (n, e) \<Longrightarrow>
   \<exists>r \<in> set rows. o_stream_id r = sid \<and> o_owner_node_id r = n \<and> o_epoch r = e"
  by (induction rows rule: rev_induct) (auto simp: collect_owners_snoc split: if_splits)

lemma advance_past_owners [simp]: "owners (advance_past e t) = owners t"
  by (simp add: advance_past_def)

lemma hm_mem: "hm_ok h \<Longrightarrow> (k, v) \<in> set h \<longleftrightarrow> hm_get h k = Some v"
  by (auto simp: map_of_eq_Some_iff)

lemma report_fst: "map fst (map (\<lambda>(k, _). (k, f k)) h) = map fst h"
  by (induction h) auto

lemma report_mem:
  assumes "hm_ok h"
  shows "(k, w) \<in> set (map (\<lambda>(k, _). (k, f k)) (filter P h)) \<longleftrightarrow> w = f k \<and> (\<exists>v. hm_get h k = Some v \<and> P (k, v))"
  using hm_mem [OF assms] by force



section \<open>Fresh epochs\<close>

datatype own_op =
    OwnNext
  | OwnSet string u64 u64
  | OwnClear string
  | OwnClearIf string u64
  | OwnClearNode u64
  | OwnHydrate "stream_owner list"
  | OwnSync "stream_owner list"
  | OwnAdvance u64

fun own_step :: "own_op \<Rightarrow> ownership_tracker \<Rightarrow> ownership_tracker" where
  "own_step OwnNext t = snd (next_epoch t)"
| "own_step (OwnSet s n e) t = set_owner s n e t"
| "own_step (OwnClear s) t = clear_owner s t"
| "own_step (OwnClearIf s e) t = snd (clear_if_epoch s e t)"
| "own_step (OwnClearNode n) t = clear_for_node n t"
| "own_step (OwnHydrate rows) t = hydrate_from rows t"
| "own_step (OwnSync rows) t = snd (sync_from rows t)"
| "own_step (OwnAdvance e) t = advance_past e t"

definition own_run :: "own_op list \<Rightarrow> ownership_tracker" where
  "own_run ops = foldl (\<lambda>t x. own_step x t) ownership_new ops"

text \<open>The epochs a history put on record or handed out, and how often it drew one.\<close>

fun own_epochs :: "own_op \<Rightarrow> u64 list" where
  "own_epochs (OwnSet s n e) = [e]"
| "own_epochs (OwnHydrate rows) = map o_epoch rows"
| "own_epochs (OwnSync rows) = map o_epoch rows"
| "own_epochs (OwnAdvance e) = [e]"
| "own_epochs _ = []"

definition drawn :: "own_op list \<Rightarrow> u64 list" where
  "drawn ops = map (\<lambda>i. next_epoch_counter (own_run (take i ops))) (filter (\<lambda>i. ops ! i = OwnNext) [0..<length ops])"

definition seen :: "own_op list \<Rightarrow> u64 list" where
  "seen ops = concat (map own_epochs ops) @ drawn ops"

abbreviation draws :: "own_op list \<Rightarrow> nat" where
  "draws ops \<equiv> length (filter (\<lambda>x. x = OwnNext) ops)"

lemma own_run_snoc: "own_run (ops @ [x]) = own_step x (own_run ops)"
  by (simp add: own_run_def)

lemma drawn_snoc:
  "drawn (ops @ [x]) = drawn ops @ (if x = OwnNext then [next_epoch_counter (own_run ops)] else [])"
proof -
  have "filter (\<lambda>i. (ops @ [x]) ! i = OwnNext) [0..<length ops] = filter (\<lambda>i. ops ! i = OwnNext) [0..<length ops]"
    by (rule filter_cong) (simp_all add: nth_append)
  then show ?thesis by (simp add: drawn_def)
qed

lemma seen_snoc:
  "set (seen (ops @ [x])) = set (seen ops) \<union> set (own_epochs x) \<union>
     (if x = OwnNext then {next_epoch_counter (own_run ops)} else {})"
  by (auto simp: seen_def drawn_snoc)

text \<open>The counter reaches past a row without wrapping while the row is below the limit.\<close>

lemma advance_counter:
  assumes "unat e + 1 < 2 ^ 64"
  shows "unat (next_epoch_counter (advance_past e t)) = max (unat (next_epoch_counter t)) (unat e + 1)"
proof -
  have "unat (u64_saturating_add e 1) = unat e + 1"
    using assms by (simp add: u64_saturating_add_def unat_word_ariths)
  then show ?thesis by (auto simp: advance_past_def max_def word_le_nat_alt)
qed

text \<open>The epoch an operation advances the counter past.\<close>

fun top_epoch :: "own_op \<Rightarrow> u64 option" where
  "top_epoch (OwnSet s n e) = Some e"
| "top_epoch (OwnHydrate rows) = Some (snd (collect_owners rows))"
| "top_epoch (OwnSync rows) = Some (snd (collect_owners rows))"
| "top_epoch (OwnAdvance e) = Some e"
| "top_epoch _ = None"

lemma top_epoch_ge: "e \<in> set (own_epochs x) \<Longrightarrow> \<exists>E. top_epoch x = Some E \<and> e \<le> E"
  by (cases x) (auto intro: collect_max)

lemma collect_max_bound: "\<forall>r \<in> set rows. unat (o_epoch r) < b \<Longrightarrow> 0 < b \<Longrightarrow> unat (snd (collect_owners rows)) < b"
  by (induction rows rule: rev_induct) (auto simp: collect_owners_snoc max_def)

lemma top_epoch_bound: "top_epoch x = Some E \<Longrightarrow> \<forall>e \<in> set (own_epochs x). unat e < b \<Longrightarrow> 0 < b \<Longrightarrow> unat E < b"
  by (cases x) (auto simp: collect_max_bound)

lemma step_counter:
  "x \<noteq> OwnNext \<Longrightarrow> next_epoch_counter (own_step x t) =
     (case top_epoch x of None \<Rightarrow> next_epoch_counter t | Some E \<Rightarrow> next_epoch_counter (advance_past E t))"
  by (cases x) (simp_all add: clear_owner_def clear_if_epoch_def clear_for_node_def set_owner_def hydrate_from_def
      sync_from_def advance_past_def Let_def split_beta)

lemma own_run_counter:
  assumes "\<forall>x \<in> set ops. \<forall>e \<in> set (own_epochs x). unat e < b" and "0 < b" and "b + draws ops < 2 ^ 64"
  shows "unat (next_epoch_counter (own_run ops)) \<le> b + draws ops \<and>
    (\<forall>e \<in> set (seen ops). unat e < unat (next_epoch_counter (own_run ops)))"
  using assms
proof (induction ops rule: rev_induct)
  case Nil
  then show ?case by (simp add: own_run_def ownership_new_def seen_def drawn_def)
next
  case (snoc x ops)
  let ?t = "own_run ops"
  have IH: "unat (next_epoch_counter ?t) \<le> b + draws ops" "\<forall>e \<in> set (seen ops). unat e < unat (next_epoch_counter ?t)"
    using snoc by auto
  show ?case
  proof (cases "x = OwnNext")
    case True
    then have "unat (next_epoch_counter ?t + 1) = unat (next_epoch_counter ?t) + 1"
      using IH(1) snoc.prems(3) by (simp add: unat_word_ariths)
    with True IH show ?thesis by (auto simp: own_run_snoc seen_snoc next_epoch_def)
  next
    case False
    show ?thesis
    proof (cases "top_epoch x")
      case None
      with top_epoch_ge [of _ x] have "own_epochs x = []" by (cases "own_epochs x") auto
      with None False IH show ?thesis by (simp add: own_run_snoc seen_snoc step_counter)
    next
      case (Some E)
      have E: "unat E < b" using top_epoch_bound [OF Some] snoc.prems by simp
      have "unat (next_epoch_counter (own_step x ?t)) = max (unat (next_epoch_counter ?t)) (unat E + 1)"
        using False Some E snoc.prems(3) by (simp add: step_counter advance_counter)
      moreover have "unat e \<le> unat E" if "e \<in> set (own_epochs x)" for e
        using top_epoch_ge [OF that] Some by (simp add: word_le_nat_alt)
      ultimately show ?thesis
        using False IH E by (fastforce simp: own_run_snoc seen_snoc)
    qed
  qed
qed

text \<open>
  A drawn epoch is new. After any history of draws, assignments, releases and synchronisations
  with the replicated rows, the next epoch drawn is greater than every epoch drawn before and every
  epoch ever on record, so it fences off every earlier owner; this holds until the epochs on record
  and the number of draws together exhaust 64 bits.
\<close>

theorem drawn_epoch_fresh:
  assumes "\<forall>x \<in> set ops. \<forall>e \<in> set (own_epochs x). unat e + draws ops < 2 ^ 64 - 1" and "draws ops < 2 ^ 64 - 1"
  shows "\<forall>e \<in> set (seen ops). e < fst (next_epoch (own_run ops))"
proof -
  define b where "b = 2 ^ 64 - 1 - draws ops"
  have "0 < b" "b + draws ops < 2 ^ 64" using assms(2) by (simp_all add: b_def)
  moreover have "\<forall>x \<in> set ops. \<forall>e \<in> set (own_epochs x). unat e < b" using assms(1) by (force simp: b_def)
  ultimately show ?thesis
    using own_run_counter [of ops b] by (simp add: next_epoch_def word_less_nat_alt)
qed

end
