(* ===== verification/Init_Cache.thy ===== *)
theory Init_Cache
  imports Protocol
begin

text \<open>
  What a new subscriber of a stream is sent first (\<open>src/src/cluster/media/cache.rs\<close>): the latest
  metadata, codec headers and keyframe of each stream, all from one publisher, told apart by epoch.

  \<open>CacheFrameKind\<close> and \<open>classify_cache_frame\<close> belong to the \<open>librtmp2\<close> crate; the match on the
  former is exhaustive, and the latter is the argument \<open>classify\<close>.
\<close>

section \<open>Model\<close>

record init_cache_entry =
  ic_metadata :: "bytes option"
  ic_avc_header :: "bytes option"
  ic_aac_header :: "bytes option"
  ic_keyframe :: "(u32 \<times> bytes) option"
  ic_epoch :: u64

definition init_cache_default :: init_cache_entry where
  "init_cache_default =
     \<lparr>ic_metadata = None, ic_avc_header = None, ic_aac_header = None, ic_keyframe = None, ic_epoch = 0\<rparr>"

datatype cache_frame_kind = VideoSequenceHeader | VideoKeyframe | AudioSequenceHeader | LiveOnly

type_synonym init_cache_store = "(string \<times> string, init_cache_entry) hmap"

definition put_if_epoch_ge ::
    "string \<Rightarrow> string \<Rightarrow> init_cache_entry \<Rightarrow> init_cache_store \<Rightarrow> bool \<times> init_cache_store" where
  "put_if_epoch_ge app stream e g =
     (case hm_get g (app, stream) of
        Some existing \<Rightarrow>
          if ic_epoch e < ic_epoch existing then (False, g) else (True, hm_insert (app, stream) e g)
      | None \<Rightarrow> (True, hm_insert (app, stream) e g))"

definition ic_put :: "string \<Rightarrow> string \<Rightarrow> init_cache_entry \<Rightarrow> init_cache_store \<Rightarrow> init_cache_store" where
  "ic_put app stream e g = snd (put_if_epoch_ge app stream e g)"

definition ic_get :: "init_cache_store \<Rightarrow> string \<Rightarrow> string \<Rightarrow> init_cache_entry option" where
  "ic_get g app stream = hm_get g (app, stream)"

definition ic_remove :: "string \<Rightarrow> string \<Rightarrow> init_cache_store \<Rightarrow> init_cache_store" where
  "ic_remove app stream g = hm_remove (app, stream) g"

definition ic_remove_stream :: "string \<Rightarrow> init_cache_store \<Rightarrow> init_cache_store" where
  "ic_remove_stream stream g = hm_retain (\<lambda>(_, s) _. s \<noteq> stream) g"

text \<open>The match on the kind of a frame.\<close>

definition stage_frame ::
    "cache_frame_kind \<Rightarrow> u8 \<Rightarrow> u32 \<Rightarrow> bytes \<Rightarrow> init_cache_entry \<Rightarrow> init_cache_entry" where
  "stage_frame kind frame_type timestamp payload e =
     (case kind of
        VideoSequenceHeader \<Rightarrow>
          (if ic_avc_header e \<noteq> Some payload then e\<lparr>ic_keyframe := None\<rparr> else e)\<lparr>ic_avc_header := Some payload\<rparr>
      | VideoKeyframe \<Rightarrow> e\<lparr>ic_keyframe := Some (timestamp, payload)\<rparr>
      | AudioSequenceHeader \<Rightarrow> e\<lparr>ic_aac_header := Some payload\<rparr>
      | LiveOnly \<Rightarrow> if frame_type = 2 \<or> frame_type = 3 then e\<lparr>ic_metadata := Some payload\<rparr> else e)"

definition update_from_frame ::
    "(frame_type \<Rightarrow> bytes \<Rightarrow> cache_frame_kind) \<Rightarrow> string \<Rightarrow> string \<Rightarrow> u64 \<Rightarrow> u8 \<Rightarrow> u32 \<Rightarrow> bytes \<Rightarrow>
      init_cache_store \<Rightarrow> init_cache_store" where
  "update_from_frame classify app stream epoch frame_type timestamp payload g =
     (case frame_type_to_librtmp2 frame_type of
        None \<Rightarrow> g
      | Some ft \<Rightarrow>
          (let kind = classify ft payload;
               e = (case hm_get g (app, stream) of Some e \<Rightarrow> e | None \<Rightarrow> init_cache_default);
               g1 = hm_insert (app, stream) e g
           in if epoch < ic_epoch e then g1
              else
                let e1 = (if ic_epoch e < epoch then init_cache_default\<lparr>ic_epoch := epoch\<rparr> else e)
                in hm_insert (app, stream) (stage_frame kind frame_type timestamp payload e1) g1))"

definition observe ::
    "(frame_type \<Rightarrow> bytes \<Rightarrow> cache_frame_kind) \<Rightarrow> string \<Rightarrow> string \<Rightarrow> u64 \<Rightarrow> frame_type \<Rightarrow> u32 \<Rightarrow> bytes \<Rightarrow>
      init_cache_store \<Rightarrow> init_cache_store" where
  "observe classify app stream epoch ft timestamp payload g =
     update_from_frame classify app stream epoch (frame_type_from_librtmp2 ft) timestamp payload g"

text \<open>\<open>StreamInitSnapshot\<close> of the crate has the four optional parts.\<close>

definition apply_wire ::
    "string \<Rightarrow> string \<Rightarrow> u64 \<Rightarrow> bytes option \<Rightarrow> bytes option \<Rightarrow> bytes option \<Rightarrow> (u32 \<times> bytes) option \<Rightarrow>
      init_cache_store \<Rightarrow> init_cache_store" where
  "apply_wire app stream epoch metadata avc_header aac_header keyframe g =
     ic_put app stream \<lparr>ic_metadata = metadata, ic_avc_header = avc_header, ic_aac_header = aac_header,
       ic_keyframe = keyframe, ic_epoch = epoch\<rparr> g"

definition store_snapshot ::
    "string \<Rightarrow> string \<Rightarrow> u64 \<Rightarrow> bytes option \<times> bytes option \<times> bytes option \<times> (u32 \<times> bytes) option \<Rightarrow>
      init_cache_store \<Rightarrow> init_cache_store" where
  "store_snapshot app stream epoch snap g =
     (case snap of (metadata, avc_header, aac_header, last_keyframe) \<Rightarrow>
        ic_put app stream \<lparr>ic_metadata = metadata, ic_avc_header = avc_header, ic_aac_header = aac_header,
          ic_keyframe = last_keyframe, ic_epoch = epoch\<rparr> g)"

section \<open>Histories\<close>

datatype cache_op =
    CachePut string string init_cache_entry
  | CacheFrame string string u64 u8 u32 bytes
  | CacheRemove string string
  | CacheRemoveStream string

fun cache_step :: "(frame_type \<Rightarrow> bytes \<Rightarrow> cache_frame_kind) \<Rightarrow> cache_op \<Rightarrow> init_cache_store \<Rightarrow> init_cache_store" where
  "cache_step cl (CachePut a s e) g = ic_put a s e g"
| "cache_step cl (CacheFrame a s ep ft ts p) g = update_from_frame cl a s ep ft ts p g"
| "cache_step cl (CacheRemove a s) g = ic_remove a s g"
| "cache_step cl (CacheRemoveStream s) g = ic_remove_stream s g"

definition cache_run :: "(frame_type \<Rightarrow> bytes \<Rightarrow> cache_frame_kind) \<Rightarrow> cache_op list \<Rightarrow> init_cache_store" where
  "cache_run cl ops = foldl (\<lambda>g x. cache_step cl x g) [] ops"

text \<open>The payloads of an entry, and the payloads an operation brings for a stream under an epoch.\<close>

definition ic_parts :: "init_cache_entry \<Rightarrow> bytes set" where
  "ic_parts e = set_option (ic_metadata e) \<union> set_option (ic_avc_header e) \<union> set_option (ic_aac_header e) \<union>
     snd ` set_option (ic_keyframe e)"

fun brings :: "cache_op \<Rightarrow> string \<times> string \<Rightarrow> u64 \<Rightarrow> bytes set" where
  "brings (CachePut a s e) k ep = (if (a, s) = k \<and> ic_epoch e = ep then ic_parts e else {})"
| "brings (CacheFrame a s ep' ft ts p) k ep = (if (a, s) = k \<and> ep' = ep then {p} else {})"
| "brings _ k ep = {}"

lemma ic_parts_default [simp]: "ic_parts (init_cache_default\<lparr>ic_epoch := ep\<rparr>) = {}" "ic_parts init_cache_default = {}"
  by (simp_all add: ic_parts_def init_cache_default_def)

lemma ic_parts_stage: "ic_parts (stage_frame kind ft ts p e) \<subseteq> insert p (ic_parts e)"
  by (auto simp: stage_frame_def ic_parts_def split: cache_frame_kind.splits if_splits)

lemma ic_epoch_stage [simp]: "ic_epoch (stage_frame kind ft ts p e) = ic_epoch e"
  by (simp add: stage_frame_def split: cache_frame_kind.splits)

lemma cache_run_snoc: "cache_run cl (ops @ [x]) = cache_step cl x (cache_run cl ops)"
  by (simp add: cache_run_def)

lemma cache_step_ok: "hm_ok g \<Longrightarrow> hm_ok (cache_step cl x g)"
  by (cases x) (auto simp: ic_put_def put_if_epoch_ge_def update_from_frame_def ic_remove_def ic_remove_stream_def Let_def
      split: option.splits)

lemma cache_run_ok: "hm_ok (cache_run cl ops)"
  by (induction ops rule: rev_induct) (simp_all add: cache_run_snoc cache_step_ok, simp add: cache_run_def)

text \<open>One operation: an entry afterwards is the old one, or of an epoch not older and with parts that
  are old ones of the same epoch or brought by the operation.\<close>

lemma cache_step_entry:
  assumes ok: "hm_ok g" and e': "hm_get (cache_step cl x g) k = Some e'"
  shows "ic_parts e' \<subseteq> brings x k (ic_epoch e') \<union>
    (case hm_get g k of Some e \<Rightarrow> if ic_epoch e = ic_epoch e' then ic_parts e else {} | None \<Rightarrow> {})"
proof (cases x)
  case (CacheFrame a s ep ft ts p)
  show ?thesis
  proof (cases "k = (a, s) \<and> frame_type_to_librtmp2 ft \<noteq> None")
    case True
    then obtain t where k: "k = (a, s)" and t: "frame_type_to_librtmp2 ft = Some t" by blast
    define e where "e = (case hm_get g k of Some e \<Rightarrow> e | None \<Rightarrow> init_cache_default)"
    let ?e1 = "if ic_epoch e < ep then init_cache_default\<lparr>ic_epoch := ep\<rparr> else e"
    have e'_def: "e' = (if ep < ic_epoch e then e else stage_frame (cl t p) ft ts p ?e1)"
      using e' by (simp add: CacheFrame update_from_frame_def t Let_def k e_def [unfolded k, symmetric] split: if_splits)
    have b: "p \<in> brings x k ep" by (simp add: CacheFrame k)
    consider "ep < ic_epoch e" | "ic_epoch e < ep" | "ic_epoch e = ep" by (meson less_linear)
    then show ?thesis
    proof cases
      case 1
      then have "hm_get g k = Some e" by (auto simp: e_def init_cache_default_def split: option.splits)
      with 1 show ?thesis by (simp add: e'_def)
    next
      case 2
      then have "ic_epoch e' = ep" "ic_parts e' \<subseteq> {p}"
        using ic_parts_stage [of "cl t p" ft ts p "init_cache_default\<lparr>ic_epoch := ep\<rparr>"] by (auto simp: e'_def)
      with b show ?thesis by auto
    next
      case 3
      then have "ic_epoch e' = ep" "ic_parts e' \<subseteq> insert p (ic_parts e)"
        using ic_parts_stage [of "cl t p" ft ts p e] by (auto simp: e'_def)
      with b 3 show ?thesis by (cases "hm_get g k") (auto simp: e_def)
    qed
  next
    case False
    then have "hm_get (cache_step cl x g) k = hm_get g k"
      by (auto simp: CacheFrame update_from_frame_def Let_def split: option.splits)
    with e' show ?thesis by auto
  qed
next
  case (CachePut a s e)
  then have "hm_get (cache_step cl x g) k = hm_get g k \<or> k = (a, s) \<and> hm_get (cache_step cl x g) k = Some e"
    by (simp add: ic_put_def put_if_epoch_ge_def split: option.split)
  then consider "hm_get g k = Some e'" | "k = (a, s)" "e' = e" using e' by auto
  then show ?thesis by cases (simp_all add: CachePut)
next
  case (CacheRemove a s)
  with e' show ?thesis by (simp add: ic_remove_def split: if_splits)
next
  case (CacheRemoveStream s)
  with e' ok show ?thesis by (simp add: ic_remove_stream_def hm_get_retain split: option.splits prod.splits if_splits)
qed

lemma cache_step_epoch:
  assumes "hm_get g (a, s) = Some e" and "x \<noteq> CacheRemove a s" and "x \<noteq> CacheRemoveStream s" and "hm_ok g"
  shows "\<exists>e'. hm_get (cache_step cl x g) (a, s) = Some e' \<and> ic_epoch e \<le> ic_epoch e'"
proof (cases x)
  case (CacheFrame a' s' ep ft ts p)
  with assms(1) show ?thesis
    by (cases "(a', s') = (a, s)") (auto simp: update_from_frame_def Let_def split: option.splits)
qed (use assms in \<open>auto simp: ic_put_def put_if_epoch_ge_def ic_remove_def ic_remove_stream_def hm_get_retain
    split: option.splits\<close>)

text \<open>
  C34. A staged init cache belongs to one publisher, the newest. Whatever the order in which caches
  and frames of different epochs arrive, every header, metadata and keyframe staged for a stream was
  delivered for that stream under the epoch of the entry, never under another one; and nothing
  but the removal of the entry lets its epoch go down.
\<close>

theorem init_cache_single_epoch:
  assumes e: "ic_get (cache_run cl ops) a s = Some e"
  shows "(\<forall>p \<in> ic_parts e. \<exists>x \<in> set ops. p \<in> brings x (a, s) (ic_epoch e)) \<and>
    (\<forall>x. x \<noteq> CacheRemove a s \<and> x \<noteq> CacheRemoveStream s \<longrightarrow>
       (\<exists>e'. ic_get (cache_run cl (ops @ [x])) a s = Some e' \<and> ic_epoch e \<le> ic_epoch e'))"
proof
  show "\<forall>p \<in> ic_parts e. \<exists>x \<in> set ops. p \<in> brings x (a, s) (ic_epoch e)"
    using e unfolding ic_get_def
  proof (induction ops arbitrary: e rule: rev_induct)
    case Nil
    then show ?case by (simp add: cache_run_def)
  next
    case (snoc x ops)
    show ?case
    proof
      fix p assume p: "p \<in> ic_parts e"
      from subsetD [OF cache_step_entry [OF cache_run_ok snoc.prems [unfolded cache_run_snoc]] p] snoc.IH
      show "\<exists>x \<in> set (ops @ [x]). p \<in> brings x (a, s) (ic_epoch e)"
        by (auto split: option.splits if_splits)
    qed
  qed
next
  show "\<forall>x. x \<noteq> CacheRemove a s \<and> x \<noteq> CacheRemoveStream s \<longrightarrow>
       (\<exists>e'. ic_get (cache_run cl (ops @ [x])) a s = Some e' \<and> ic_epoch e \<le> ic_epoch e')"
    using e cache_step_epoch [OF _ _ _ cache_run_ok] by (auto simp: ic_get_def cache_run_snoc)
qed

definition all_keyframes :: "frame_type \<Rightarrow> bytes \<Rightarrow> cache_frame_kind" where
  "all_keyframes ft p = VideoKeyframe"

theorem init_cache_single_epoch_witness:
  "ic_get (cache_run all_keyframes [CacheFrame ''live'' ''s'' 1 1 0 [1], CacheFrame ''live'' ''s'' 2 1 0 [2]]) ''live'' ''s'' =
     Some (init_cache_default\<lparr>ic_keyframe := Some (0, [2]), ic_epoch := 2\<rparr>) \<and>
   [2] \<in> brings (CacheFrame ''live'' ''s'' 2 1 0 [2]) (''live'', ''s'') 2"
proof -
  let ?ops = "[CacheFrame ''live'' ''s'' 1 1 0 [1], CacheFrame ''live'' ''s'' 2 1 0 [2]]"
  have "ic_get (cache_run all_keyframes ?ops) ''live'' ''s'' =
     Some (init_cache_default\<lparr>ic_keyframe := Some (0, [2]), ic_epoch := 2\<rparr>)"
    by (simp add: ic_get_def cache_run_def update_from_frame_def frame_type_to_librtmp2_def all_keyframes_def
        stage_frame_def init_cache_default_def)
  with init_cache_single_epoch [OF this] show ?thesis by (simp add: ic_parts_def)
qed

end
