(* ===== verification/Subscription.thy ===== *)
theory Subscription
  imports Rtmp_Prelude
begin

text \<open>
  Reference counts of subscriptions (\<open>src/src/cluster/media/subscription.rs\<close>). \<open>SubscriptionTable\<close>
  counts the references peers hold on local streams, \<open>OutboundSubscriptions\<close> the local sessions that
  hold a reference on a peer's stream. In both, the first reference asks for a \<open>Subscribe\<close> on the
  wire and the last one for an \<open>Unsubscribe\<close>; that contract is the locale \<open>ref_table\<close>.
\<close>

section \<open>Inbound references\<close>

type_synonym sub_key = "u64 \<times> string \<times> string"

type_synonym subscription_table = "(sub_key, nat) hmap"

text \<open>\<open>before\<close> is the result of the closure; on an error nothing is counted.\<close>

definition add_with :: "bool \<Rightarrow> sub_key \<Rightarrow> subscription_table \<Rightarrow> (unit + bool) \<times> subscription_table" where
  "add_with before key g =
     (if \<not> before then (Inl (), g)
      else
        let c = (case hm_get g key of None \<Rightarrow> 0 | Some c \<Rightarrow> c) + 1
        in (Inr (c = 1), hm_insert key c g))"

definition sub_add :: "sub_key \<Rightarrow> subscription_table \<Rightarrow> bool \<times> subscription_table" where
  "sub_add key g = (case add_with True key g of (Inr first, g') \<Rightarrow> (first, g') | (Inl _, g') \<Rightarrow> (False, g'))"

definition sub_remove :: "sub_key \<Rightarrow> subscription_table \<Rightarrow> bool \<times> subscription_table" where
  "sub_remove key g =
     (case hm_get g key of
        Some c \<Rightarrow> if 1 < c then (False, hm_insert key (c - 1) g) else (True, hm_remove key g)
      | None \<Rightarrow> (False, g))"

definition sub_remove_if_sole :: "sub_key \<Rightarrow> subscription_table \<Rightarrow> bool \<times> subscription_table" where
  "sub_remove_if_sole key g = (if hm_get g key = Some 1 then (True, hm_remove key g) else (False, g))"

definition sub_has :: "subscription_table \<Rightarrow> sub_key \<Rightarrow> bool" where
  "sub_has g key \<longleftrightarrow> hm_get g key \<noteq> None"

text \<open>\<open>for_each_peer\<close> calls its argument on these peers, with the table locked.\<close>

definition sub_peers_for_stream :: "string \<Rightarrow> string \<Rightarrow> subscription_table \<Rightarrow> u64 list" where
  "sub_peers_for_stream app stream g = map (\<lambda>((p, _), _). p) (filter (\<lambda>((_, a, s), _). a = app \<and> s = stream) g)"

definition sub_streams_for_peer :: "u64 \<Rightarrow> subscription_table \<Rightarrow> (string \<times> string) list" where
  "sub_streams_for_peer peer g = map (\<lambda>((_, a, s), _). (a, s)) (filter (\<lambda>((p, _), _). p = peer) g)"

definition sub_clear_peer :: "u64 \<Rightarrow> subscription_table \<Rightarrow> subscription_table" where
  "sub_clear_peer peer g = hm_retain (\<lambda>(p, _) _. p \<noteq> peer) g"

definition sub_clear_entry :: "sub_key \<Rightarrow> subscription_table \<Rightarrow> subscription_table" where
  "sub_clear_entry key g = hm_remove key g"

section \<open>Outbound references\<close>

record outbound_entry =
  sub_owners :: "string set"
  wired :: bool

definition outbound_default :: outbound_entry where
  "outbound_default = \<lparr>sub_owners = {}, wired = False\<rparr>"

type_synonym outbound_subscriptions = "(sub_key, outbound_entry) hmap"

definition out_add :: "string \<Rightarrow> sub_key \<Rightarrow> outbound_subscriptions \<Rightarrow> bool \<times> outbound_subscriptions" where
  "out_add owner key g =
     (let e = (case hm_get g key of None \<Rightarrow> outbound_default | Some e \<Rightarrow> e);
          inserted = (owner \<notin> sub_owners e);
          e' = e\<lparr>sub_owners := insert owner (sub_owners e)\<rparr>
      in (inserted \<and> card (sub_owners e') = 1, hm_insert key e' g))"

definition out_remove :: "string \<Rightarrow> sub_key \<Rightarrow> outbound_subscriptions \<Rightarrow> bool \<times> outbound_subscriptions" where
  "out_remove owner key g =
     (case hm_get g key of
        None \<Rightarrow> (False, g)
      | Some e \<Rightarrow>
          if owner \<notin> sub_owners e then (False, g)
          else
            let e' = e\<lparr>sub_owners := sub_owners e - {owner}\<rparr>
            in if sub_owners e' = {} then (True, hm_remove key (hm_insert key e' g)) else (False, hm_insert key e' g))"

definition out_remove_if_sole :: "string \<Rightarrow> sub_key \<Rightarrow> outbound_subscriptions \<Rightarrow> bool \<times> outbound_subscriptions" where
  "out_remove_if_sole owner key g =
     (case hm_get g key of
        Some e \<Rightarrow> if card (sub_owners e) = 1 \<and> owner \<in> sub_owners e then (True, hm_remove key g) else (False, g)
      | None \<Rightarrow> (False, g))"

definition out_ref_count :: "sub_key \<Rightarrow> outbound_subscriptions \<Rightarrow> nat" where
  "out_ref_count key g = (case hm_get g key of None \<Rightarrow> 0 | Some e \<Rightarrow> card (sub_owners e))"

definition out_has :: "outbound_subscriptions \<Rightarrow> sub_key \<Rightarrow> bool" where
  "out_has g key \<longleftrightarrow> hm_get g key \<noteq> None"

definition out_remove_all :: "sub_key \<Rightarrow> outbound_subscriptions \<Rightarrow> bool \<times> outbound_subscriptions" where
  "out_remove_all key g = (hm_get g key \<noteq> None, hm_remove key g)"

definition is_wired :: "outbound_subscriptions \<Rightarrow> sub_key \<Rightarrow> bool" where
  "is_wired g key = (case hm_get g key of Some e \<Rightarrow> wired e | None \<Rightarrow> False)"

definition set_wired :: "sub_key \<Rightarrow> bool \<Rightarrow> outbound_subscriptions \<Rightarrow> outbound_subscriptions" where
  "set_wired key w g = (case hm_get g key of Some e \<Rightarrow> hm_insert key (e\<lparr>wired := w\<rparr>) g | None \<Rightarrow> g)"

definition clear_wired :: "u64 \<Rightarrow> outbound_subscriptions \<Rightarrow> outbound_subscriptions" where
  "clear_wired peer g = hm_iter_mut (\<lambda>(p, _) e. if p = peer then e\<lparr>wired := False\<rparr> else e) g"

definition out_peers_for_stream :: "string \<Rightarrow> string \<Rightarrow> outbound_subscriptions \<Rightarrow> u64 list" where
  "out_peers_for_stream app stream g = map (\<lambda>((p, _), _). p) (filter (\<lambda>((_, a, s), _). a = app \<and> s = stream) g)"

definition out_streams_for_peer :: "u64 \<Rightarrow> outbound_subscriptions \<Rightarrow> (string \<times> string) list" where
  "out_streams_for_peer peer g = map (\<lambda>((_, a, s), _). (a, s)) (filter (\<lambda>((p, _), _). p = peer) g)"

definition out_clear_peer :: "u64 \<Rightarrow> outbound_subscriptions \<Rightarrow> outbound_subscriptions" where
  "out_clear_peer peer g = hm_retain (\<lambda>(p, _) _. p \<noteq> peer) g"

section \<open>The contract of a table of references\<close>

text \<open>
  A holder \<open>h\<close> takes and drops a reference on a key. \<open>refs\<close> counts the references on a key.
\<close>

datatype wire_msg = WireSubscribe | WireUnsubscribe

datatype ('h, 'k) ref_op = Acquire 'h 'k | Release 'h 'k

locale ref_table =
  fixes acquire :: "'h \<Rightarrow> 'k \<Rightarrow> 's \<Rightarrow> bool \<times> 's"
    and release :: "'h \<Rightarrow> 'k \<Rightarrow> 's \<Rightarrow> bool \<times> 's"
    and refs :: "'s \<Rightarrow> 'k \<Rightarrow> nat"
    and ok :: "'s \<Rightarrow> bool"
    and fresh :: 's
  assumes fresh_ok: "ok fresh" and fresh_refs: "refs fresh k = 0"
    and acquire_ok: "ok s \<Longrightarrow> ok (snd (acquire h k s))"
    and release_ok: "ok s \<Longrightarrow> ok (snd (release h k s))"
    and acquire_first: "ok s \<Longrightarrow> fst (acquire h k s) \<longleftrightarrow> refs s k = 0"
    and acquire_refs: "ok s \<Longrightarrow> 0 < refs (snd (acquire h k s)) k \<and> refs (snd (acquire h k s)) k \<le> Suc (refs s k)"
    and acquire_other: "ok s \<Longrightarrow> l \<noteq> k \<Longrightarrow> refs (snd (acquire h k s)) l = refs s l"
    and release_last: "ok s \<Longrightarrow> fst (release h k s) \<longleftrightarrow> 0 < refs s k \<and> refs (snd (release h k s)) k = 0"
    and release_refs: "ok s \<Longrightarrow> refs (snd (release h k s)) k \<le> refs s k"
    and release_other: "ok s \<Longrightarrow> l \<noteq> k \<Longrightarrow> refs (snd (release h k s)) l = refs s l"
begin

fun ref_step :: "('h, 'k) ref_op \<Rightarrow> 's \<Rightarrow> 's" where
  "ref_step (Acquire h k) s = snd (acquire h k s)"
| "ref_step (Release h k) s = snd (release h k s)"

text \<open>What an operation puts on the wire for the key \<open>k\<close>.\<close>

fun ref_wire :: "'k \<Rightarrow> ('h, 'k) ref_op \<Rightarrow> 's \<Rightarrow> wire_msg list" where
  "ref_wire k (Acquire h l) s = (if l = k \<and> fst (acquire h l s) then [WireSubscribe] else [])"
| "ref_wire k (Release h l) s = (if l = k \<and> fst (release h l s) then [WireUnsubscribe] else [])"

fun ref_run :: "('h, 'k) ref_op list \<Rightarrow> 's \<Rightarrow> 's" where
  "ref_run [] s = s"
| "ref_run (x # xs) s = ref_run xs (ref_step x s)"

fun wire_log :: "'k \<Rightarrow> ('h, 'k) ref_op list \<Rightarrow> 's \<Rightarrow> wire_msg list" where
  "wire_log k [] s = []"
| "wire_log k (x # xs) s = ref_wire k x s @ wire_log k xs (ref_step x s)"

end

text \<open>A log in which subscribing and unsubscribing alternate, starting with the message \<open>m\<close>.\<close>

fun alternates :: "wire_msg \<Rightarrow> wire_msg list \<Rightarrow> bool" where
  "alternates m [] = True"
| "alternates m (x # xs) \<longleftrightarrow> x = m \<and> alternates (if m = WireSubscribe then WireUnsubscribe else WireSubscribe) xs"

definition next_msg :: "nat \<Rightarrow> wire_msg" where
  "next_msg n = (if n = 0 then WireSubscribe else WireUnsubscribe)"

context ref_table
begin

lemma ref_step_ok: "ok s \<Longrightarrow> ok (ref_step x s)"
  by (cases x) (simp_all add: acquire_ok release_ok)

lemma ref_run_ok: "ok s \<Longrightarrow> ok (ref_run xs s)"
  by (induction xs arbitrary: s) (simp_all add: ref_step_ok)

lemma wire_step:
  assumes "ok s"
  shows "ref_wire k x s = [] \<and> next_msg (refs (ref_step x s) k) = next_msg (refs s k) \<or>
    ref_wire k x s = [next_msg (refs s k)] \<and> next_msg (refs (ref_step x s) k) \<noteq> next_msg (refs s k)"
proof (cases x)
  case (Acquire h l)
  with assms acquire_first [of s h l] acquire_refs [of s h l] acquire_other [of s k l h] show ?thesis
    by (cases "l = k") (auto simp: next_msg_def)
next
  case (Release h l)
  with assms release_last [of s h l] release_refs [of s h l] release_other [of s k l h] show ?thesis
    by (cases "l = k") (auto simp: next_msg_def)
qed

lemma wire_alternates:
  "ok s \<Longrightarrow> alternates (next_msg (refs s k)) (wire_log k xs s) \<and>
     ((wire_log k xs s = [] \<and> next_msg (refs (ref_run xs s) k) = next_msg (refs s k)) \<or>
      (wire_log k xs s \<noteq> [] \<and> (last (wire_log k xs s) = WireSubscribe \<longleftrightarrow> 0 < refs (ref_run xs s) k)))"
proof (induction xs arbitrary: s)
  case (Cons x xs)
  note IH = Cons.IH [OF ref_step_ok [OF Cons.prems], of x]
  from wire_step [OF Cons.prems, of k x] IH show ?case
    by (auto simp: next_msg_def split: if_splits)
qed simp

lemma wire_matches_refs:
  "alternates WireSubscribe (wire_log k xs fresh) \<and>
   (0 < refs (ref_run xs fresh) k \<longleftrightarrow> wire_log k xs fresh \<noteq> [] \<and> last (wire_log k xs fresh) = WireSubscribe)"
  using wire_alternates [OF fresh_ok, of k xs] by (auto simp: fresh_refs next_msg_def split: if_splits)

end

section \<open>Both tables keep the contract\<close>

declare split_paired_All [simp del] split_paired_Ex [simp del]

definition sub_refs :: "subscription_table \<Rightarrow> sub_key \<Rightarrow> nat" where
  "sub_refs g key = (case hm_get g key of None \<Rightarrow> 0 | Some c \<Rightarrow> c)"

definition sub_ok :: "subscription_table \<Rightarrow> bool" where
  "sub_ok g \<longleftrightarrow> hm_ok g \<and> (\<forall>k c. hm_get g k = Some c \<longrightarrow> 0 < c)"

lemma sub_add_eq: "sub_add key g = (sub_refs g key = 0, hm_insert key (sub_refs g key + 1) g)"
  by (auto simp: sub_add_def add_with_def sub_refs_def Let_def split: option.splits)

lemma sub_remove_refs:
  "sub_ok g \<Longrightarrow> sub_refs (snd (sub_remove k g)) l = (if l = k then sub_refs g l - 1 else sub_refs g l)"
  by (auto simp: sub_remove_def sub_refs_def sub_ok_def split: option.splits)

lemma sub_add_refs: "sub_refs (snd (sub_add k g)) l = (if l = k then sub_refs g l + 1 else sub_refs g l)"
  by (simp add: sub_add_eq) (simp add: sub_refs_def)

lemma sub_has_refs: "sub_ok g \<Longrightarrow> sub_has g k \<longleftrightarrow> 0 < sub_refs g k"
  by (auto simp: sub_has_def sub_refs_def sub_ok_def split: option.splits)

interpretation sub: ref_table "\<lambda>_::unit. sub_add" "\<lambda>_. sub_remove" sub_refs sub_ok "[]"
proof unfold_locales
  fix s k h
  assume ok: "sub_ok s"
  show "sub_ok (snd (sub_remove k s))"
    using ok by (auto simp: sub_remove_def sub_ok_def split: option.splits if_splits)
  show "fst (sub_remove k s) \<longleftrightarrow> 0 < sub_refs s k \<and> sub_refs (snd (sub_remove k s)) k = 0"
    using ok by (auto simp: sub_remove_def sub_refs_def sub_ok_def split: option.splits)
qed (auto simp: sub_add_refs sub_remove_refs, auto simp: sub_ok_def sub_refs_def sub_add_eq split: if_splits)

definition out_ok :: "outbound_subscriptions \<Rightarrow> bool" where
  "out_ok g \<longleftrightarrow> hm_ok g \<and> (\<forall>k e. hm_get g k = Some e \<longrightarrow> finite (sub_owners e) \<and> sub_owners e \<noteq> {})"

definition out_owners :: "outbound_subscriptions \<Rightarrow> sub_key \<Rightarrow> string set" where
  "out_owners g key = (case hm_get g key of None \<Rightarrow> {} | Some e \<Rightarrow> sub_owners e)"

lemma out_ref_count_owners: "out_ref_count key g = card (out_owners g key)"
  by (simp add: out_ref_count_def out_owners_def split: option.split)

lemma out_add_owners: "out_owners (snd (out_add h k g)) l = (if l = k then insert h (out_owners g l) else out_owners g l)"
  by (auto simp: out_add_def out_owners_def outbound_default_def Let_def split: option.split)

lemma out_remove_owners: "out_owners (snd (out_remove h k g)) l = (if l = k then out_owners g l - {h} else out_owners g l)"
  by (auto simp: out_remove_def out_owners_def Let_def split: option.split)

lemma out_finite: "out_ok g \<Longrightarrow> finite (out_owners g k)"
  by (auto simp: out_ok_def out_owners_def split: option.split)

lemma out_has_owners: "out_ok g \<Longrightarrow> out_has g k \<longleftrightarrow> out_owners g k \<noteq> {}"
  by (auto simp: out_ok_def out_owners_def out_has_def split: option.split)

interpretation out: ref_table out_add out_remove "\<lambda>g k. out_ref_count k g" out_ok "[]"
proof unfold_locales
  fix s h k
  assume ok: "out_ok s"
  note fin = out_finite [OF ok, of k]
  show "out_ok (snd (out_add h k s))"
    using ok by (auto simp: out_add_def out_ok_def outbound_default_def Let_def split: option.splits)
  show "out_ok (snd (out_remove h k s))"
    using ok by (auto simp: out_remove_def out_ok_def Let_def split: option.splits if_splits)
  show "fst (out_add h k s) \<longleftrightarrow> out_ref_count k s = 0"
  proof -
    have "fst (out_add h k s) \<longleftrightarrow> h \<notin> out_owners s k \<and> card (insert h (out_owners s k)) = 1"
      by (auto simp: out_add_def out_owners_def outbound_default_def Let_def split: option.split)
    with fin show ?thesis
      using out_has_owners [OF ok, of k] by (auto simp: out_ref_count_owners card_insert_if split: if_splits)
  qed
  show "0 < out_ref_count k (snd (out_add h k s)) \<and> out_ref_count k (snd (out_add h k s)) \<le> Suc (out_ref_count k s)"
    using fin by (auto simp: out_ref_count_owners out_add_owners card_insert_if card_gt_0_iff)
  show "out_ref_count k (snd (out_remove h k s)) \<le> out_ref_count k s"
    using fin by (simp add: out_ref_count_owners out_remove_owners card_mono)
  show "fst (out_remove h k s) \<longleftrightarrow> 0 < out_ref_count k s \<and> out_ref_count k (snd (out_remove h k s)) = 0"
  proof -
    have "fst (out_remove h k s) \<longleftrightarrow> h \<in> out_owners s k \<and> out_owners s k - {h} = {}"
      by (auto simp: out_remove_def out_owners_def Let_def split: option.split)
    with fin show ?thesis
      by (auto simp: out_ref_count_owners out_remove_owners card_gt_0_iff)
  qed
qed (simp_all add: out_ref_count_owners out_add_owners out_remove_owners, simp_all add: out_ok_def out_owners_def)

lemma sub_ok_run: "sub_ok (sub.ref_run xs [])"
  by (rule sub.ref_run_ok [OF sub.fresh_ok])

lemma out_ok_run: "out_ok (out.ref_run xs [])"
  by (rule out.ref_run_ok [OF out.fresh_ok])


end
