(* ===== verification/Health.thy ===== *)
theory Health
  imports Protocol
begin

text \<open>
  Health of the nodes (\<open>src/src/cluster/health.rs\<close>) and the admission of new sessions
  (\<open>src/src/cluster/admission.rs\<close>). A floating point number is a real or not a number: comparisons
  with the latter are false, as in Rust. Clock readings are arguments.
\<close>

section \<open>Floating point numbers\<close>

type_synonym f64 = "real option"

definition f64_le :: "f64 \<Rightarrow> f64 \<Rightarrow> bool" where
  "f64_le a b = (case (a, b) of (Some x, Some y) \<Rightarrow> x \<le> y | _ \<Rightarrow> False)"

text \<open>\<open>load.clamp(0.0, 1.0)\<close>.\<close>

definition clamp01 :: "f64 \<Rightarrow> f64" where
  "clamp01 = map_option (\<lambda>x. if x < 0 then 0 else if 1 < x then 1 else x)"

section \<open>Health states\<close>

datatype node_health_state = Ready | Draining | Down | Isolated | Joining | Learner | Leaving

fun health_as_str :: "node_health_state \<Rightarrow> string" where
  "health_as_str Ready = ''READY''"
| "health_as_str Draining = ''DRAINING''"
| "health_as_str Down = ''DOWN''"
| "health_as_str Isolated = ''ISOLATED''"
| "health_as_str Joining = ''JOINING''"
| "health_as_str Learner = ''LEARNER''"
| "health_as_str Leaving = ''LEAVING''"

definition health_parse :: "string \<Rightarrow> node_health_state option" where
  "health_parse s =
     (if s = ''READY'' then Some Ready
      else if s = ''DRAINING'' then Some Draining
      else if s = ''DOWN'' then Some Down
      else if s = ''ISOLATED'' then Some Isolated
      else if s = ''JOINING'' then Some Joining
      else if s = ''LEARNER'' then Some Learner
      else if s = ''LEAVING'' then Some Leaving
      else None)"

definition from_heartbeat :: "string \<Rightarrow> node_health_state" where
  "from_heartbeat advertised =
     (case health_parse advertised of
        Some Down \<Rightarrow> Ready
      | Some Isolated \<Rightarrow> Ready
      | None \<Rightarrow> Ready
      | Some other \<Rightarrow> other)"

lemma health_parse_as_str: "health_parse (health_as_str s) = Some s"
  by (cases s) (simp_all add: health_parse_def)

lemma from_heartbeat_benign: "from_heartbeat adv \<notin> {Down, Isolated}"
  by (auto simp: from_heartbeat_def split: option.splits node_health_state.splits)

lemma from_heartbeat_kept: "s \<notin> {Down, Isolated} \<Longrightarrow> from_heartbeat (health_as_str s) = s"
  by (cases s) (simp_all add: from_heartbeat_def health_parse_as_str del: health_as_str.simps)

section \<open>The tracker\<close>

record peer_health =
  ph_state :: node_health_state
  ph_load :: f64
  ph_last_seen :: instant
  ph_control_addr :: string
  ph_media_addr :: string

record health_tracker =
  local_health :: node_health_state
  peers :: "(node_id, peer_health) hmap"
  miss_limit :: duration
  down_since :: "(node_id, instant) hmap"
  ownership_released :: "node_id set"

definition duration_max :: duration where
  "duration_max = secs (2 ^ 64 - 1) + 999999999"

definition health_new :: "duration \<Rightarrow> health_tracker" where
  "health_new heartbeat =
     \<lparr>local_health = Joining, peers = [], miss_limit = max (min (heartbeat * 5) duration_max) (secs 2),
      down_since = [], ownership_released = {}\<rparr>"

definition set_local :: "node_health_state \<Rightarrow> health_tracker \<Rightarrow> health_tracker" where
  "set_local st h = h\<lparr>local_health := st\<rparr>"

text \<open>\<open>entry(id).or_insert(now)\<close>.\<close>

definition or_insert :: "'k \<Rightarrow> 'v \<Rightarrow> ('k, 'v) hmap \<Rightarrow> ('k, 'v) hmap" where
  "or_insert k v m = (if hm_get m k = None then hm_insert k v m else m)"

text \<open>The two clock readings that have an effect: \<open>now\<close> for \<open>last_seen\<close>, \<open>later\<close> for \<open>down_since\<close>.\<close>

definition note_peer ::
    "node_id \<Rightarrow> node_health_state \<Rightarrow> f64 \<Rightarrow> string option \<Rightarrow> string option \<Rightarrow> instant \<Rightarrow> instant \<Rightarrow>
      health_tracker \<Rightarrow> health_tracker" where
  "note_peer nid st ld control_addr media_addr now later h =
     (let old = (case hm_get (peers h) nid of
                   Some e \<Rightarrow> e
                 | None \<Rightarrow> \<lparr>ph_state = st, ph_load = ld, ph_last_seen = now, ph_control_addr = [], ph_media_addr = []\<rparr>);
          e = \<lparr>ph_state = st, ph_load = ld, ph_last_seen = now,
               ph_control_addr = (case control_addr of Some a \<Rightarrow> a | None \<Rightarrow> ph_control_addr old),
               ph_media_addr = (case media_addr of Some a \<Rightarrow> a | None \<Rightarrow> ph_media_addr old)\<rparr>;
          h1 = h\<lparr>peers := hm_insert nid e (peers h)\<rparr>
      in if st = Down then h1\<lparr>down_since := or_insert nid later (down_since h)\<rparr>
         else h1\<lparr>down_since := hm_remove nid (down_since h), ownership_released := ownership_released h - {nid}\<rparr>)"

definition health_remove :: "node_id \<Rightarrow> health_tracker \<Rightarrow> health_tracker" where
  "health_remove nid h =
     h\<lparr>peers := hm_remove nid (peers h), down_since := hm_remove nid (down_since h),
       ownership_released := ownership_released h - {nid}\<rparr>"

text \<open>A peer the sweep marks: not yet \<open>Down\<close>, silent for longer than the limit.\<close>

definition goes_down :: "duration \<Rightarrow> instant \<Rightarrow> peer_health \<Rightarrow> bool" where
  "goes_down limit now p \<longleftrightarrow> ph_state p \<noteq> Down \<and> limit < saturating_since now (ph_last_seen p)"

definition sweep_stale :: "instant \<Rightarrow> health_tracker \<Rightarrow> node_id list \<times> health_tracker" where
  "sweep_stale now h =
     (let down = map fst (filter (\<lambda>(_, p). goes_down (miss_limit h) now p) (peers h))
      in (down,
          h\<lparr>peers := hm_iter_mut (\<lambda>_ p. if goes_down (miss_limit h) now p then p\<lparr>ph_state := Down\<rparr> else p) (peers h),
            down_since := foldl (\<lambda>m nid. or_insert nid now m) (down_since h) down\<rparr>))"

definition peers_ready_for_ownership_release :: "duration \<Rightarrow> instant \<Rightarrow> health_tracker \<Rightarrow> node_id list" where
  "peers_ready_for_ownership_release grace now h =
     map fst (filter (\<lambda>(nid, since). nid \<notin> ownership_released h \<and> grace \<le> saturating_since now since) (down_since h))"

definition mark_ownership_released :: "node_id \<Rightarrow> health_tracker \<Rightarrow> health_tracker" where
  "mark_ownership_released nid h = h\<lparr>ownership_released := insert nid (ownership_released h)\<rparr>"

definition peer_state :: "health_tracker \<Rightarrow> node_id \<Rightarrow> node_health_state option" where
  "peer_state h nid = map_option ph_state (hm_get (peers h) nid)"

definition peer_report_stale :: "health_tracker \<Rightarrow> node_id \<Rightarrow> instant \<Rightarrow> bool" where
  "peer_report_stale h nid now =
     (case hm_get (peers h) nid of
        None \<Rightarrow> False
      | Some p \<Rightarrow> ph_state p = Down \<or> miss_limit h < saturating_since now (ph_last_seen p))"

definition peers_snapshot :: "health_tracker \<Rightarrow> (node_id \<times> peer_health) list" where
  "peers_snapshot h = peers h"

definition counts_alive :: "health_tracker \<Rightarrow> node_id \<Rightarrow> node_id \<Rightarrow> bool" where
  "counts_alive h local_id nid =
     (if nid = local_id then local_health h \<noteq> Down
      else case hm_get (peers h) nid of Some p \<Rightarrow> ph_state p \<noteq> Down | None \<Rightarrow> False)"

definition alive_voters :: "health_tracker \<Rightarrow> node_id list \<Rightarrow> node_id \<Rightarrow> nat" where
  "alive_voters h voter_ids local_id = foldl (\<lambda>n nid. if counts_alive h local_id nid then n + 1 else n) 0 voter_ids"

section \<open>Histories\<close>

datatype health_op =
    HNote node_id node_health_state f64 "string option" "string option"
  | HRemove node_id
  | HSweep
  | HMark node_id
  | HSetLocal node_health_state

fun health_step :: "instant \<Rightarrow> health_op \<Rightarrow> health_tracker \<Rightarrow> health_tracker" where
  "health_step now (HNote nid st ld ca ma) h = note_peer nid st ld ca ma now now h"
| "health_step now (HRemove nid) h = health_remove nid h"
| "health_step now HSweep h = snd (sweep_stale now h)"
| "health_step now (HMark nid) h = mark_ownership_released nid h"
| "health_step now (HSetLocal st) h = set_local st h"

definition health_run :: "duration \<Rightarrow> (instant \<times> health_op) list \<Rightarrow> health_tracker" where
  "health_run heartbeat ops = foldl (\<lambda>h (now, x). health_step now x h) (health_new heartbeat) ops"

text \<open>The times at which a peer was reported in a state other than \<open>Down\<close>.\<close>

definition reported_at :: "node_id \<Rightarrow> (instant \<times> health_op) list \<Rightarrow> instant set" where
  "reported_at nid ops = {t. \<exists>st ld ca ma. (t, HNote nid st ld ca ma) \<in> set ops \<and> st \<noteq> Down}"

lemma hm_get_or_insert: "hm_get (or_insert k v m) l = (if l = k \<and> hm_get m k = None then Some v else hm_get m l)"
  by (simp add: or_insert_def)

lemma hm_get_or_inserts:
  "hm_get (foldl (\<lambda>m k. or_insert k v m) m ks) l =
     (if l \<in> set ks \<and> hm_get m l = None then Some v else hm_get m l)"
  by (induction ks arbitrary: m) (auto simp: hm_get_or_insert)

lemma hm_ok_or_inserts: "hm_ok m \<Longrightarrow> hm_ok (foldl (\<lambda>m k. or_insert k v m) m ks)"
  by (induction ks arbitrary: m) (simp_all add: or_insert_def)

text \<open>Both tables are well formed, and a down time is on record exactly for the peers in state \<open>Down\<close>.\<close>

definition health_ok :: "health_tracker \<Rightarrow> bool" where
  "health_ok h \<longleftrightarrow> hm_ok (peers h) \<and> hm_ok (down_since h) \<and>
     (\<forall>nid. hm_get (down_since h) nid \<noteq> None \<longleftrightarrow> peer_state h nid = Some Down)"

lemma sweep_down_mem:
  "hm_ok (peers h) \<Longrightarrow> nid \<in> set (fst (sweep_stale now h)) \<longleftrightarrow>
     (\<exists>p. hm_get (peers h) nid = Some p \<and> goes_down (miss_limit h) now p)"
  by (auto simp: sweep_stale_def Let_def map_of_eq_Some_iff image_iff)

lemma sweep_fields:
  "down_since (snd (sweep_stale now h)) = foldl (\<lambda>m nid. or_insert nid now m) (down_since h) (fst (sweep_stale now h))"
  "peers (snd (sweep_stale now h)) =
     hm_iter_mut (\<lambda>_ p. if goes_down (miss_limit h) now p then p\<lparr>ph_state := Down\<rparr> else p) (peers h)"
  by (simp_all add: sweep_stale_def Let_def)

lemma health_step_ok: "health_ok h \<Longrightarrow> health_ok (health_step now x h)"
proof (cases x)
  case HSweep
  assume ok: "health_ok h"
  then show ?thesis
    by (auto simp: HSweep health_ok_def sweep_fields hm_ok_or_inserts hm_get_or_inserts sweep_down_mem peer_state_def
        hm_get_iter_mut goes_down_def)
qed (auto simp: health_ok_def note_peer_def health_remove_def mark_ownership_released_def set_local_def peer_state_def
    hm_get_or_insert or_insert_def Let_def)

lemma health_new_ok: "health_ok (health_new hb)"
  by (simp add: health_ok_def health_new_def peer_state_def)

lemma health_run_snoc: "health_run hb (ops @ [(now, x)]) = health_step now x (health_run hb ops)"
  by (simp add: health_run_def)

lemma health_run_ok: "health_ok (health_run hb ops)"
  by (induction ops rule: rev_induct) (auto simp: health_run_snoc health_step_ok, simp add: health_run_def health_new_ok)

lemma health_step_down_since:
  assumes "hm_ok (peers h)" and "hm_get (down_since (health_step now x h)) nid = Some t"
  shows "hm_get (down_since h) nid = Some t \<or> t = now"
    and "reported_at nid [(now, x)] = {}"
proof -
  show "hm_get (down_since h) nid = Some t \<or> t = now"
    using assms by (cases x) (auto simp: note_peer_def health_remove_def mark_ownership_released_def set_local_def
        sweep_fields hm_get_or_inserts hm_get_or_insert Let_def split: if_splits)
  show "reported_at nid [(now, x)] = {}"
    using assms by (cases x) (auto simp: reported_at_def note_peer_def Let_def split: if_splits)
qed

lemma reported_at_snoc: "reported_at nid (ops @ [x]) = reported_at nid ops \<union> reported_at nid [x]"
  by (auto simp: reported_at_def)

lemma reported_at_time: "t \<in> reported_at nid ops \<Longrightarrow> t \<in> fst ` set ops"
  by (force simp: reported_at_def)

text \<open>A peer has been silent since the time it is recorded down.\<close>

lemma down_since_silent:
  assumes "sorted (map fst ops)" and "hm_get (down_since (health_run hb ops)) nid = Some t"
  shows "t \<in> fst ` set ops \<and> (\<forall>u \<in> reported_at nid ops. u \<le> t)"
  using assms
proof (induction ops arbitrary: t rule: rev_induct)
  case Nil
  then show ?case by (simp add: health_run_def health_new_def)
next
  case (snoc y ops)
  obtain now x where y: "y = (now, x)" by (cases y)
  have ok: "hm_ok (peers (health_run hb ops))" using health_run_ok [of hb ops] by (simp add: health_ok_def)
  note step = health_step_down_since [OF ok snoc.prems(2) [unfolded y health_run_snoc]]
  have le: "\<forall>u \<in> fst ` set ops. u \<le> now" using snoc.prems(1) by (auto simp: y sorted_append)
  have rep: "reported_at nid (ops @ [y]) = reported_at nid ops" using step(2) by (simp add: reported_at_snoc [of nid ops] y)
  from step(1) show ?case
  proof
    assume "hm_get (down_since (health_run hb ops)) nid = Some t"
    with snoc.IH snoc.prems(1) rep show ?thesis by (simp add: sorted_append)
  next
    assume "t = now"
    with le rep show ?thesis by (auto simp: y dest: reported_at_time)
  qed
qed

lemma reported_not_ready:
  assumes "st \<noteq> Down"
  shows "nid \<notin> set (peers_ready_for_ownership_release grace now (note_peer nid st ld ca ma t t' h))"
proof -
  have "set (peers_ready_for_ownership_release grace now h') \<subseteq> fst ` set (down_since h')" for h'
    by (auto simp: peers_ready_for_ownership_release_def)
  moreover have "down_since (note_peer nid st ld ca ma t t' h) = hm_remove nid (down_since h)"
    using assms by (simp add: note_peer_def Let_def)
  moreover have "nid \<notin> fst ` set (hm_remove nid (down_since h))" by (simp add: map_of_eq_None_iff [symmetric])
  ultimately show ?thesis by fastforce
qed



end
