(* ===== verification/Admission.thy ===== *)
theory Admission
  imports Health
begin

text \<open>
  Admission of new publishers and players (\<open>src/src/cluster/admission.rs\<close>): draining by load, with
  hysteresis, and draining by an operator. The controller shares the health tracker of the node; its
  operations act on both. Of the cluster configuration it reads three numbers.
\<close>

section \<open>Model\<close>

record admission_config =
  drain_threshold :: f64
  resume_threshold :: f64
  capacity :: f64

record admission_controller =
  ac_config :: admission_config
  load_draining :: bool
  manual_drain :: bool
  ac_load :: f64

type_synonym admission_state = "admission_controller \<times> health_tracker"

definition admission_new :: "admission_config \<Rightarrow> admission_controller" where
  "admission_new cfg = \<lparr>ac_config = cfg, load_draining = False, manual_drain = False, ac_load = Some 0\<rparr>"

definition update_load :: "f64 \<Rightarrow> admission_state \<Rightarrow> admission_state" where
  "update_load ld s =
     (let (a0, h) = s;
          l = clamp01 ld;
          a = a0\<lparr>ac_load := l\<rparr>
      in if \<not> load_draining a \<and> f64_le (drain_threshold (ac_config a)) l then
           (a\<lparr>load_draining := True\<rparr>, if local_health h = Ready then set_local Draining h else h)
         else if load_draining a \<and> f64_le l (resume_threshold (ac_config a)) then
           (a\<lparr>load_draining := False\<rparr>,
            if \<not> manual_drain a \<and> local_health h = Draining then set_local Ready h else h)
         else (a, h))"

definition force_drain :: "admission_state \<Rightarrow> admission_state" where
  "force_drain s =
     (let (a, h) = s
      in (a\<lparr>manual_drain := True\<rparr>,
          if local_health h = Ready \<or> local_health h = Draining then set_local Draining h else h))"

definition force_resume :: "admission_state \<Rightarrow> admission_state" where
  "force_resume s =
     (let (a, h) = s
      in (a\<lparr>manual_drain := False, load_draining := False\<rparr>,
          if local_health h = Draining then set_local Ready h else h))"

definition should_accept_new_publish :: "admission_state \<Rightarrow> bool" where
  "should_accept_new_publish s =
     (let (a, h) = s
      in if f64_le (capacity (ac_config a)) (Some 0) \<or> f64_le (capacity (ac_config a)) (ac_load a) then False
         else local_health h = Ready \<and> \<not> load_draining a \<and> \<not> manual_drain a)"

definition should_accept_new_play :: "admission_state \<Rightarrow> bool" where
  "should_accept_new_play s = (local_health (snd s) \<notin> {Down, Isolated, Leaving})"

section \<open>Histories\<close>

text \<open>What happens to the controller: load samples, the operator, and the health sweep, which may set any
  local state.\<close>

datatype admission_op = Load f64 | OperatorDrain | OperatorResume | LocalHealth node_health_state

fun admission_step :: "admission_op \<Rightarrow> admission_state \<Rightarrow> admission_state" where
  "admission_step (Load l) s = update_load l s"
| "admission_step OperatorDrain s = force_drain s"
| "admission_step OperatorResume s = force_resume s"
| "admission_step (LocalHealth st) (a, h) = (a, set_local st h)"

definition admission_run :: "admission_op list \<Rightarrow> admission_state \<Rightarrow> admission_state" where
  "admission_run ops s = foldl (\<lambda>s x. admission_step x s) s ops"

lemma admission_run_simps:
  "admission_run [] s = s" "admission_run (x # xs) s = admission_run xs (admission_step x s)"
  "admission_run (xs @ ys) s = admission_run ys (admission_run xs s)"
  by (simp_all add: admission_run_def)

lemma step_manual:
  "manual_drain (fst (admission_step x s)) =
     (case x of OperatorDrain \<Rightarrow> True | OperatorResume \<Rightarrow> False | _ \<Rightarrow> manual_drain (fst s))"
  by (cases x; cases s) (simp_all add: update_load_def force_drain_def force_resume_def Let_def)

lemma run_manual: "OperatorResume \<notin> set ops \<Longrightarrow> manual_drain (fst s) \<Longrightarrow> manual_drain (fst (admission_run ops s))"
proof (induction ops arbitrary: s)
  case (Cons x ops)
  then have "manual_drain (fst (admission_step x s))" by (auto simp: step_manual split: admission_op.split)
  with Cons show ?case by (simp add: admission_run_simps)
qed (simp add: admission_run_simps)

text \<open>The load samples that decide: those at or past one of the two thresholds.\<close>

definition decisive :: "admission_config \<Rightarrow> f64 list \<Rightarrow> f64 list" where
  "decisive cfg ls =
     filter (\<lambda>l. f64_le (drain_threshold cfg) (clamp01 l) \<or> f64_le (clamp01 l) (resume_threshold cfg)) ls"

text \<open>The specification of the hysteresis: the last decisive sample was at or above the upper threshold.\<close>

definition drained_by :: "admission_config \<Rightarrow> f64 list \<Rightarrow> bool" where
  "drained_by cfg ls \<longleftrightarrow> decisive cfg ls \<noteq> [] \<and> f64_le (drain_threshold cfg) (clamp01 (last (decisive cfg ls)))"

lemma update_load_fields:
  "ac_config (fst (update_load l s)) = ac_config (fst s)"
  "ac_load (fst (update_load l s)) = clamp01 l"
  "load_draining (fst (update_load l s)) =
     (if load_draining (fst s) then \<not> f64_le (clamp01 l) (resume_threshold (ac_config (fst s)))
      else f64_le (drain_threshold (ac_config (fst s))) (clamp01 l))"
  by (cases s; simp add: update_load_def Let_def)+

lemma f64_thresholds:
  assumes "drain_threshold cfg = Some d" and "resume_threshold cfg = Some r" and "r < d"
  shows "\<not> (f64_le (drain_threshold cfg) l \<and> f64_le l (resume_threshold cfg))"
  using assms by (auto simp: f64_le_def split: option.splits)

lemma decisive_snoc:
  "decisive cfg (ls @ [l]) = decisive cfg ls @
     (if f64_le (drain_threshold cfg) (clamp01 l) \<or> f64_le (clamp01 l) (resume_threshold cfg) then [l] else [])"
  by (simp add: decisive_def)

lemma load_hysteresis:
  assumes "drain_threshold cfg = Some d" and "resume_threshold cfg = Some r" and "r < d"
  shows "load_draining (fst (admission_run (map Load ls) (admission_new cfg, h))) = drained_by cfg ls \<and>
    ac_config (fst (admission_run (map Load ls) (admission_new cfg, h))) = cfg"
proof (induction ls rule: rev_induct)
  case Nil
  then show ?case by (simp add: admission_run_simps admission_new_def drained_by_def decisive_def)
next
  case (snoc l ls)
  with f64_thresholds [OF assms, of "clamp01 l"] show ?case
    by (auto simp: admission_run_simps update_load_fields drained_by_def decisive_snoc)
qed



section \<open>Addresses of the nodes\<close>

text \<open>\<open>ClusterMeta\<close> of \<open>src/src/cluster/state.rs\<close>.\<close>

type_synonym cluster_meta = "(node_id, string \<times> string) hmap"

definition meta_set_addrs :: "node_id \<Rightarrow> string \<Rightarrow> string \<Rightarrow> cluster_meta \<Rightarrow> cluster_meta" where
  "meta_set_addrs nid control media m = hm_insert nid (control, media) m"

definition meta_get :: "cluster_meta \<Rightarrow> node_id \<Rightarrow> (string \<times> string) option" where
  "meta_get m nid = hm_get m nid"

definition meta_all :: "cluster_meta \<Rightarrow> (node_id \<times> string \<times> string) list" where
  "meta_all m = m"

definition meta_remove :: "node_id \<Rightarrow> cluster_meta \<Rightarrow> cluster_meta" where
  "meta_remove nid m = hm_remove nid m"

end
