(* ===== verification/Database.thy ===== *)
theory Database
  imports Db_Rows
begin

text \<open>
  The database (\<open>src/src/db.rs\<close>): its tables, the statements the server runs on them, and the
  operations on settings, streams, play keys and stream owners.

  A table is the list of its rows. Of SQLite the model has what the code relies on: a statement
  either violates a constraint of the schema (primary key, unique column, foreign key) and changes
  nothing, or has its documented effect; deleting a stream deletes the rows that refer to it; a
  transaction that is not committed changes nothing. Failures of the storage itself are not
  modelled, so the \<open>Db\<close> outcomes below are exactly those the code reports for a violated constraint
  or for inconsistent arguments.
\<close>

section \<open>Tables\<close>

record stream_row = stream +
  pending_delete :: bool
  delete_token :: string

record stat_sample =
  st_stream_id :: string
  st_bitrate_in_kbps :: f64_bits
  st_fps :: f64_bits
  st_width :: u32
  st_height :: u32
  st_video_codec :: string
  st_audio_codec :: string
  st_player_count :: int
  st_ts :: int

text \<open>\<open>KeySnapshot\<close>: the enabled keys as of a generation of the two key tables.\<close>

record key_snapshot =
  ks_generation :: "nat option"
  ks_play :: "(string, stream_viewer \<times> stream) hmap"
  ks_publish :: "(string, stream) hmap"

text \<open>
  \<open>Db\<close>: the tables, the session counts and queued statistics kept in memory, and the cache of
  keys with the counter of writes to the key tables. That counter does not wrap here: at one
  write per nanosecond its 64 bits last for centuries.
\<close>

record db =
  settings :: "(string, string) hmap"
  stream_rows :: "stream_row list"
  viewer_rows :: "stream_viewer list"
  owner_rows :: "stream_owner list"
  publisher_rows :: "publisher list"
  player_rows :: "player list"
  stat_rows :: "stat_sample list"
  active_player_counts :: "(string, nat) hmap"
  unpersisted_player_counts :: "(string, nat) hmap"
  pending_publishers :: "(string, publisher) hmap"
  pending_players :: "(string, player) hmap"
  auth_generation :: nat
  access_keys :: key_snapshot

section \<open>Statements\<close>

datatype sql_error = ConstraintPrimaryKey | ConstraintUnique | ConstraintForeignKey

text \<open>The update hook: one tick per row written in \<open>streams\<close> or \<open>stream_viewers\<close>.\<close>

definition bump :: "nat \<Rightarrow> db \<Rightarrow> db" where
  "bump n d = d\<lparr>auth_generation := auth_generation d + n\<rparr>"

definition has_stream :: "db \<Rightarrow> string \<Rightarrow> bool" where
  "has_stream d sid = list_ex (\<lambda>r. s_id r = sid) (stream_rows d)"

definition insert_stream_row :: "stream_row \<Rightarrow> db \<Rightarrow> sql_error + db" where
  "insert_stream_row n d =
     (if list_ex (\<lambda>r. s_id r = s_id n) (stream_rows d) then Inl ConstraintPrimaryKey
      else if list_ex (\<lambda>r. s_publish_key r = s_publish_key n \<or> s_play_key r = s_play_key n \<or>
                           s_stats_key r = s_stats_key n) (stream_rows d)
        then Inl ConstraintUnique
      else Inr (bump 1 (d\<lparr>stream_rows := stream_rows d @ [n]\<rparr>)))"

definition insert_viewer_row :: "stream_viewer \<Rightarrow> db \<Rightarrow> sql_error + db" where
  "insert_viewer_row v d =
     (if list_ex (\<lambda>r. v_id r = v_id v) (viewer_rows d) then Inl ConstraintPrimaryKey
      else if list_ex (\<lambda>r. v_play_key r = v_play_key v) (viewer_rows d) then Inl ConstraintUnique
      else if \<not> has_stream d (v_stream_id v) then Inl ConstraintForeignKey
      else Inr (bump 1 (d\<lparr>viewer_rows := viewer_rows d @ [v]\<rparr>)))"

definition insert_owner_row :: "stream_owner \<Rightarrow> db \<Rightarrow> sql_error + db" where
  "insert_owner_row w d =
     (if list_ex (\<lambda>r. o_stream_id r = o_stream_id w) (owner_rows d) then Inl ConstraintPrimaryKey
      else if \<not> has_stream d (o_stream_id w) then Inl ConstraintForeignKey
      else Inr (d\<lparr>owner_rows := owner_rows d @ [w]\<rparr>))"

definition insert_publisher_row :: "publisher \<Rightarrow> db \<Rightarrow> sql_error + db" where
  "insert_publisher_row p d =
     (if list_ex (\<lambda>r. pub_id r = pub_id p) (publisher_rows d) then Inl ConstraintPrimaryKey
      else if \<not> has_stream d (pub_stream_id p) then Inl ConstraintForeignKey
      else Inr (d\<lparr>publisher_rows := publisher_rows d @ [p]\<rparr>))"

definition insert_player_row :: "player \<Rightarrow> db \<Rightarrow> sql_error + db" where
  "insert_player_row p d =
     (if list_ex (\<lambda>r. pl_id r = pl_id p) (player_rows d) then Inl ConstraintPrimaryKey
      else if \<not> has_stream d (pl_stream_id p) then Inl ConstraintForeignKey
      else Inr (d\<lparr>player_rows := player_rows d @ [p]\<rparr>))"

definition insert_stat_row :: "stat_sample \<Rightarrow> db \<Rightarrow> sql_error + db" where
  "insert_stat_row s d =
     (if \<not> has_stream d (st_stream_id s) then Inl ConstraintForeignKey
      else Inr (d\<lparr>stat_rows := stat_rows d @ [s]\<rparr>))"

text \<open>\<open>UPDATE streams SET ... WHERE ...\<close> and the number of rows it wrote; no unique column is set.\<close>

definition update_stream_rows :: "(stream_row \<Rightarrow> bool) \<Rightarrow> (stream_row \<Rightarrow> stream_row) \<Rightarrow> db \<Rightarrow> nat \<times> db" where
  "update_stream_rows P f d =
     (let n = length (filter P (stream_rows d))
      in (n, bump n (d\<lparr>stream_rows := map (\<lambda>r. if P r then f r else r) (stream_rows d)\<rparr>)))"

text \<open>\<open>DELETE FROM streams WHERE ...\<close>, with \<open>ON DELETE CASCADE\<close> on the five tables that refer to it.\<close>

definition delete_stream_rows :: "(stream_row \<Rightarrow> bool) \<Rightarrow> db \<Rightarrow> nat \<times> db" where
  "delete_stream_rows P d =
     (let gone = map s_id (filter P (stream_rows d));
          kept = (\<lambda>sid. sid \<notin> set gone)
      in (length gone,
          bump (length gone)
            (d\<lparr>stream_rows := filter (\<lambda>r. \<not> P r) (stream_rows d),
               viewer_rows := filter (\<lambda>v. kept (v_stream_id v)) (viewer_rows d),
               owner_rows := filter (\<lambda>w. kept (o_stream_id w)) (owner_rows d),
               publisher_rows := filter (\<lambda>p. kept (pub_stream_id p)) (publisher_rows d),
               player_rows := filter (\<lambda>p. kept (pl_stream_id p)) (player_rows d),
               stat_rows := filter (\<lambda>s. kept (st_stream_id s)) (stat_rows d)\<rparr>)))"

definition delete_viewer_rows :: "(stream_viewer \<Rightarrow> bool) \<Rightarrow> db \<Rightarrow> nat \<times> db" where
  "delete_viewer_rows P d =
     (let n = length (filter P (viewer_rows d))
      in (n, bump n (d\<lparr>viewer_rows := filter (\<lambda>v. \<not> P v) (viewer_rows d)\<rparr>)))"

section \<open>Settings\<close>

definition nonempty :: "string option \<Rightarrow> string option" where
  "nonempty v = (case v of Some [] \<Rightarrow> None | w \<Rightarrow> w)"

definition setting_get :: "string \<Rightarrow> db \<Rightarrow> string option" where
  "setting_get key d = nonempty (hm_get (settings d) key)"

definition setting_set :: "string \<Rightarrow> string \<Rightarrow> db \<Rightarrow> db" where
  "setting_set key val d = d\<lparr>settings := hm_insert key val (settings d)\<rparr>"

definition token_get :: "db \<Rightarrow> string option" where
  "token_get d = nonempty (hm_get (settings d) ''api_token'')"

definition token_set :: "string \<Rightarrow> db \<Rightarrow> bool \<times> db" where
  "token_set token d =
     (case hm_get (settings d) ''api_token'' of
        Some (c # cs) \<Rightarrow> (False, d)
      | _ \<Rightarrow> (True, d\<lparr>settings := hm_insert ''api_token'' token (settings d)\<rparr>))"

definition token_replace :: "string \<Rightarrow> db \<Rightarrow> db" where
  "token_replace token d = d\<lparr>settings := hm_insert ''api_token'' token (settings d)\<rparr>"

section \<open>Streams\<close>

definition key_globally_in_use :: "db \<Rightarrow> string \<Rightarrow> bool" where
  "key_globally_in_use d key =
     (is_valid_access_key key \<and>
      (list_ex (\<lambda>r. s_publish_key r = key \<or> s_play_key r = key \<or> s_stats_key r = key) (stream_rows d) \<or>
       list_ex (\<lambda>v. v_play_key v = key) (viewer_rows d)))"

definition new_stream_row :: "stream \<Rightarrow> string \<Rightarrow> stream_row" where
  "new_stream_row s token = stream.extend s \<lparr>pending_delete = False, delete_token = token\<rparr>"

text \<open>\<open>fresh\<close> is the random value SQLite generates when no token is given.\<close>

definition stream_insert_only_with_token ::
    "stream \<Rightarrow> string option \<Rightarrow> string \<Rightarrow> db \<Rightarrow> stream_add_error + db" where
  "stream_insert_only_with_token s token fresh d =
     (if list_ex (key_globally_in_use d) [s_publish_key s, s_play_key s, s_stats_key s] then Inl StreamDuplicate
      else case insert_stream_row (new_stream_row s (case token of Some t \<Rightarrow> t | None \<Rightarrow> fresh)) d of
        Inr d' \<Rightarrow> Inr d'
      | Inl _ \<Rightarrow> Inl StreamDuplicate)"

definition stream_add_with_viewer_with_token ::
    "stream \<Rightarrow> stream_viewer \<Rightarrow> string \<Rightarrow> db \<Rightarrow> stream_add_error + db" where
  "stream_add_with_viewer_with_token s viewer token d =
     (if v_stream_id viewer \<noteq> s_id s \<or> v_play_key viewer \<noteq> s_play_key s then Inl StreamDb
      else if list_ex (key_globally_in_use d) [s_publish_key s, s_play_key s, s_stats_key s] then Inl StreamDuplicate
      else case insert_stream_row (new_stream_row s token) d of
        Inl _ \<Rightarrow> Inl StreamDuplicate
      | Inr d1 \<Rightarrow> (case insert_viewer_row viewer d1 of Inl _ \<Rightarrow> Inl StreamDb | Inr d2 \<Rightarrow> Inr d2))"

text \<open>The caller's two random values, a viewer id and a delete identity, are arguments; either may be missing.\<close>

definition stream_add_with_viewer ::
    "stream \<Rightarrow> stream_viewer \<Rightarrow> string option \<Rightarrow> db \<Rightarrow> stream_add_error + db" where
  "stream_add_with_viewer s viewer token d =
     stream_add_with_viewer_with_token s viewer
       (case token of Some t \<Rightarrow> t | None \<Rightarrow> legacy_delete_token (s_id s) (s_publish_key s)) d"

definition stream_add ::
    "stream \<Rightarrow> string option \<Rightarrow> string option \<Rightarrow> db \<Rightarrow> stream_add_error + (stream_viewer \<times> db)" where
  "stream_add s viewer_id token d =
     (case viewer_id of
        None \<Rightarrow> Inl StreamDb
      | Some vid \<Rightarrow>
          let viewer = \<lparr>v_id = vid, v_stream_id = s_id s, v_name = ''Player 1'', v_play_key = s_play_key s,
                        v_enabled = True, v_created_at = s_created_at s\<rparr>
          in case stream_add_with_viewer s viewer token d of Inl e \<Rightarrow> Inl e | Inr d' \<Rightarrow> Inr (viewer, d'))"

definition find_stream :: "(stream_row \<Rightarrow> bool) \<Rightarrow> db \<Rightarrow> stream_row option" where
  "find_stream P d = List.find P (stream_rows d)"

definition lookup_of :: "'a option \<Rightarrow> 'a db_lookup" where
  "lookup_of x = (case x of Some v \<Rightarrow> LookupOk v | None \<Rightarrow> Missing)"

definition stream_get :: "string \<Rightarrow> db \<Rightarrow> stream db_lookup" where
  "stream_get sid d = lookup_of (map_option stream.truncate (find_stream (\<lambda>r. s_id r = sid) d))"

definition stream_get_with_token :: "string \<Rightarrow> db \<Rightarrow> (stream \<times> string) db_lookup" where
  "stream_get_with_token sid d =
     lookup_of (map_option (\<lambda>r. (stream.truncate r, delete_token r)) (find_stream (\<lambda>r. s_id r = sid) d))"

definition stream_get_by_app :: "string \<Rightarrow> string \<Rightarrow> db \<Rightarrow> stream db_lookup" where
  "stream_get_by_app app stream_name d =
     lookup_of (map_option stream.truncate (find_stream (\<lambda>r. s_app r = app \<and> s_name r = stream_name) d))"

datatype key_column = ByPublishKey | ByStatsKey

definition stream_find_by :: "key_column \<Rightarrow> string \<Rightarrow> db \<Rightarrow> stream db_lookup" where
  "stream_find_by column key d =
     (if \<not> is_valid_access_key key then Missing
      else lookup_of (map_option stream.truncate
        (find_stream (\<lambda>r. (case column of ByPublishKey \<Rightarrow> s_publish_key r | ByStatsKey \<Rightarrow> s_stats_key r) = key \<and> s_enabled r) d)))"

definition stream_find_by_publish_key_any :: "string \<Rightarrow> db \<Rightarrow> stream db_lookup" where
  "stream_find_by_publish_key_any key d =
     (if \<not> is_valid_access_key key then Missing
      else lookup_of (map_option stream.truncate (find_stream (\<lambda>r. s_publish_key r = key) d)))"

definition matches_identity :: "string \<Rightarrow> int option \<Rightarrow> string option \<Rightarrow> stream_row \<Rightarrow> bool" where
  "matches_identity sid created_at token r \<longleftrightarrow>
     s_id r = sid \<and> (case created_at of Some c \<Rightarrow> s_created_at r = c | None \<Rightarrow> True) \<and>
     (case token of Some t \<Rightarrow> delete_token r = t | None \<Rightarrow> True)"

definition stream_disable_expecting ::
    "string \<Rightarrow> int option \<Rightarrow> string option \<Rightarrow> db \<Rightarrow> stream_disable_outcome \<times> db" where
  "stream_disable_expecting sid expected_created_at expected_token d =
     (let (n, d') = update_stream_rows (matches_identity sid expected_created_at expected_token)
                      (\<lambda>r. r\<lparr>s_enabled := False, pending_delete := True\<rparr>) d
      in if 0 < n then (Disabled, d')
         else if has_stream d' sid then (DisableStale, d') else (DisableMissing, d'))"

definition stream_disable :: "string \<Rightarrow> db \<Rightarrow> bool \<times> db" where
  "stream_disable sid d =
     (case stream_disable_expecting sid None None d of (outcome, d') \<Rightarrow> (outcome = Disabled, d'))"

definition stream_delete_tokens :: "db \<Rightarrow> (string \<times> string) list" where
  "stream_delete_tokens d = map (\<lambda>r. (s_id r, delete_token r)) (stream_rows d)"

definition stream_set_enabled :: "string \<Rightarrow> bool \<Rightarrow> db \<Rightarrow> bool \<times> db" where
  "stream_set_enabled sid enabled d =
     (let (n, d') = update_stream_rows (\<lambda>r. s_id r = sid) (\<lambda>r. r\<lparr>s_enabled := enabled, pending_delete := False\<rparr>) d
      in (0 < n, d'))"

definition stream_ids_pending_delete :: "db \<Rightarrow> string list" where
  "stream_ids_pending_delete d = map s_id (filter pending_delete (stream_rows d))"

definition stream_pending_delete :: "string \<Rightarrow> db \<Rightarrow> bool option" where
  "stream_pending_delete sid d = map_option pending_delete (find_stream (\<lambda>r. s_id r = sid) d)"

definition stream_delete_if_pending :: "string \<Rightarrow> db \<Rightarrow> bool \<times> db" where
  "stream_delete_if_pending sid d =
     (let (n, d') = delete_stream_rows (\<lambda>r. s_id r = sid \<and> pending_delete r) d in (0 < n, d'))"

text \<open>The rows of the session tables are deleted first; the statement on \<open>streams\<close> then cascades.\<close>

definition stream_delete :: "string \<Rightarrow> db \<Rightarrow> bool \<times> db" where
  "stream_delete sid d =
     (let d1 = d\<lparr>publisher_rows := filter (\<lambda>p. pub_stream_id p \<noteq> sid) (publisher_rows d),
                 player_rows := filter (\<lambda>p. pl_stream_id p \<noteq> sid) (player_rows d),
                 stat_rows := filter (\<lambda>s. st_stream_id s \<noteq> sid) (stat_rows d)\<rparr>;
          (n, d') = delete_stream_rows (\<lambda>r. s_id r = sid) d1
      in (0 < n, d'))"

definition stream_list :: "db \<Rightarrow> stream list" where
  "stream_list d = map stream.truncate (sort_key s_created_at (stream_rows d))"

definition stream_ids :: "db \<Rightarrow> string set" where
  "stream_ids d = set (map s_id (stream_rows d))"

section \<open>Play keys\<close>

definition viewer_add :: "stream_viewer \<Rightarrow> db \<Rightarrow> viewer_add_error + db" where
  "viewer_add v d =
     (let parent_play = map_option s_play_key (find_stream (\<lambda>r. s_id r = v_stream_id v) d);
          is_default_play = (parent_play = Some (v_play_key v));
          taken = (if is_default_play then list_ex (\<lambda>w. v_play_key w = v_play_key v) (viewer_rows d)
                   else key_globally_in_use d (v_play_key v))
      in if taken then Inl ViewerDuplicate
         else if \<not> list_ex (\<lambda>r. s_id r = v_stream_id v \<and> \<not> pending_delete r) (stream_rows d) then Inl ParentUnavailable
         else case insert_viewer_row v d of
           Inr d' \<Rightarrow> Inr d'
         | Inl ConstraintForeignKey \<Rightarrow> Inl ViewerDb
         | Inl _ \<Rightarrow> Inl ViewerDuplicate)"

definition viewer_list :: "string \<Rightarrow> db \<Rightarrow> stream_viewer list" where
  "viewer_list sid d = sort_key v_created_at (filter (\<lambda>v. v_stream_id v = sid) (viewer_rows d))"

definition viewer_find_by_play_key :: "string \<Rightarrow> db \<Rightarrow> stream_viewer db_lookup" where
  "viewer_find_by_play_key key d =
     (if \<not> is_valid_access_key key then Missing
      else lookup_of (List.find (\<lambda>v. v_play_key v = key \<and> v_enabled v) (viewer_rows d)))"

text \<open>The join of the two tables on \<open>stream_viewers.stream_id = streams.id\<close>.\<close>

definition viewer_join :: "db \<Rightarrow> (stream_viewer \<times> stream_row) list" where
  "viewer_join d = concat (map (\<lambda>v. map (Pair v) (filter (\<lambda>r. s_id r = v_stream_id v) (stream_rows d))) (viewer_rows d))"

definition viewer_and_stream_by_play_key :: "string \<Rightarrow> db \<Rightarrow> (stream_viewer \<times> stream) db_lookup" where
  "viewer_and_stream_by_play_key key d =
     (if \<not> is_valid_access_key key then Missing
      else lookup_of (map_option (map_prod (\<lambda>v. v) stream.truncate)
             (List.find (\<lambda>(v, _). v_play_key v = key \<and> v_enabled v) (viewer_join d))))"

definition viewer_get :: "string \<Rightarrow> string \<Rightarrow> db \<Rightarrow> stream_viewer db_lookup" where
  "viewer_get sid vid d = lookup_of (List.find (\<lambda>v. v_stream_id v = sid \<and> v_id v = vid) (viewer_rows d))"

definition viewer_exists :: "string \<Rightarrow> db \<Rightarrow> bool" where
  "viewer_exists vid d = list_ex (\<lambda>v. v_id v = vid) (viewer_rows d)"

definition viewer_delete :: "string \<Rightarrow> string \<Rightarrow> db \<Rightarrow> bool \<times> db" where
  "viewer_delete sid vid d =
     (let (n, d') = delete_viewer_rows (\<lambda>v. v_stream_id v = sid \<and> v_id v = vid) d in (0 < n, d'))"

definition viewer_delete_if_not_last :: "string \<Rightarrow> string \<Rightarrow> db \<Rightarrow> viewer_delete_result \<times> db" where
  "viewer_delete_if_not_last sid vid d =
     (let count = length (filter (\<lambda>v. v_stream_id v = sid) (viewer_rows d))
      in if \<not> list_ex (\<lambda>v. v_stream_id v = sid \<and> v_id v = vid) (viewer_rows d) then (NotFound, d)
         else if count \<le> 1 then (LastRemaining, d)
         else
           let (n, d') = delete_viewer_rows (\<lambda>v. v_stream_id v = sid \<and> v_id v = vid) d
           in if 0 < n then (Deleted, d') else (NotFound, d'))"

definition viewer_list_all :: "db \<Rightarrow> stream_viewer list" where
  "viewer_list_all d = sort_key v_created_at (viewer_rows d)"

section \<open>The cache of keys\<close>

definition cached_play_key :: "string \<Rightarrow> db \<Rightarrow> (stream_viewer \<times> stream) option" where
  "cached_play_key key d =
     (if ks_generation (access_keys d) \<noteq> Some (auth_generation d) then None
      else hm_get (ks_play (access_keys d)) key)"

definition cached_publish_key :: "string \<Rightarrow> db \<Rightarrow> stream option" where
  "cached_publish_key key d =
     (if ks_generation (access_keys d) \<noteq> Some (auth_generation d) then None
      else hm_get (ks_publish (access_keys d)) key)"

text \<open>\<open>collect\<close> into a hash map: a later pair replaces an earlier one with its key.\<close>

definition collect_map :: "('k \<times> 'v) list \<Rightarrow> ('k, 'v) hmap" where
  "collect_map kvs = foldl (\<lambda>m (k, v). hm_insert k v m) [] kvs"

definition refresh_key_cache :: "db \<Rightarrow> db" where
  "refresh_key_cache d =
     (if ks_generation (access_keys d) = Some (auth_generation d) then d
      else d\<lparr>access_keys :=
        \<lparr>ks_generation = Some (auth_generation d),
         ks_play = collect_map (map (\<lambda>(v, r). (v_play_key v, (v, stream.truncate r)))
                     (filter (\<lambda>(v, _). v_enabled v) (viewer_join d))),
         ks_publish = collect_map (map (\<lambda>r. (s_publish_key r, stream.truncate r)) (filter s_enabled (stream_rows d)))\<rparr>\<rparr>)"

section \<open>Stream owners\<close>

text \<open>Epochs and node ids are stored as signed 64-bit integers with the same bits.\<close>

definition stream_owner_get :: "string \<Rightarrow> db \<Rightarrow> stream_owner option" where
  "stream_owner_get sid d = List.find (\<lambda>w. o_stream_id w = sid) (owner_rows d)"

definition stream_owner_list :: "db \<Rightarrow> stream_owner list" where
  "stream_owner_list d = owner_rows d"

definition stream_owner_acquire :: "string \<Rightarrow> u64 \<Rightarrow> u64 \<Rightarrow> int \<Rightarrow> db \<Rightarrow> owner_error + (u64 \<times> db)" where
  "stream_owner_acquire sid node_id epoch acquired_at d =
     (case find_stream (\<lambda>r. s_id r = sid) d of
        None \<Rightarrow> Inl OwnerNotFound
      | Some r \<Rightarrow>
          if \<not> (s_enabled r \<and> \<not> pending_delete r) then Inl OwnerNotFound
          else case stream_owner_get sid d of
            Some w \<Rightarrow>
              if o_owner_node_id w \<noteq> node_id then Inl OwnerConflict
              else Inr (epoch, d\<lparr>owner_rows := map (\<lambda>w. if o_stream_id w = sid
                              then w\<lparr>o_epoch := epoch, o_acquired_at := acquired_at\<rparr> else w) (owner_rows d)\<rparr>)
          | None \<Rightarrow>
              (case insert_owner_row \<lparr>o_stream_id = sid, o_owner_node_id = node_id, o_epoch = epoch,
                      o_acquired_at = acquired_at\<rparr> d of
                 Inl _ \<Rightarrow> Inl OwnerDb
               | Inr d' \<Rightarrow> Inr (epoch, d')))"

definition stream_owner_release :: "string \<Rightarrow> u64 \<Rightarrow> db \<Rightarrow> bool \<times> db" where
  "stream_owner_release sid epoch d =
     (let hit = (\<lambda>w. o_stream_id w = sid \<and> o_epoch w = epoch)
      in (list_ex hit (owner_rows d), d\<lparr>owner_rows := filter (\<lambda>w. \<not> hit w) (owner_rows d)\<rparr>))"

text \<open>\<open>i64::try_from(max_epoch).unwrap_or(i64::MAX)\<close>; the comparison in SQL is signed.\<close>

definition clamp_i64 :: "u64 \<Rightarrow> int" where
  "clamp_i64 e = (if unat e < 2 ^ 63 then int (unat e) else 2 ^ 63 - 1)"

definition stream_owners_release_for_node :: "u64 \<Rightarrow> u64 \<Rightarrow> db \<Rightarrow> nat \<times> db" where
  "stream_owners_release_for_node node_id max_epoch d =
     (let hit = (\<lambda>w. o_owner_node_id w = node_id \<and> sint (o_epoch w) \<le> clamp_i64 max_epoch)
      in (length (filter hit (owner_rows d)), d\<lparr>owner_rows := filter (\<lambda>w. \<not> hit w) (owner_rows d)\<rparr>))"

definition has_populated_app_state :: "db \<Rightarrow> bool" where
  "has_populated_app_state d \<longleftrightarrow> stream_rows d \<noteq> []"

section \<open>Opening the database\<close>

text \<open>Every key with the stream it belongs to, in the order of the query of the audit.\<close>

definition all_keys :: "db \<Rightarrow> (string \<times> string) list" where
  "all_keys d =
     map (\<lambda>r. (s_publish_key r, s_id r)) (stream_rows d) @
     map (\<lambda>r. (s_play_key r, s_id r)) (stream_rows d) @
     map (\<lambda>r. (s_stats_key r, s_id r)) (stream_rows d) @
     map (\<lambda>v. (v_play_key v, v_stream_id v)) (viewer_rows d)"

definition audit_cross_stream_key_collisions :: "db \<Rightarrow> nat" where
  "audit_cross_stream_key_collisions d =
     length (filter (\<lambda>key. 1 < length (remdups (map snd (filter (\<lambda>(k, _). k = key) (all_keys d)))))
       (remdups (map fst (all_keys d))))"

text \<open>
  What opening does to the rows of an existing database: a stream without a delete identity gets the
  derived one, sessions of the previous run are marked inactive, and nothing is kept in memory.
\<close>

definition backfill_delete_tokens :: "db \<Rightarrow> db" where
  "backfill_delete_tokens d =
     snd (update_stream_rows (\<lambda>r. delete_token r = [])
       (\<lambda>r. r\<lparr>delete_token := legacy_delete_token (s_id r) (s_publish_key r)\<rparr>) d)"

definition open_existing :: "db \<Rightarrow> db" where
  "open_existing d =
     (let d1 = backfill_delete_tokens d
      in d1\<lparr>publisher_rows := map (pub_active_update (\<lambda>_. False)) (publisher_rows d1),
            player_rows := map (pl_active_update (\<lambda>_. False)) (player_rows d1),
            active_player_counts := [], unpersisted_player_counts := [], pending_publishers := [],
            pending_players := [], access_keys := \<lparr>ks_generation = None, ks_play = [], ks_publish = []\<rparr>\<rparr>)"

end
