(* ===== verification/Sessions.thy ===== *)
theory Sessions
  imports Database
begin

text \<open>
  Publisher and player sessions (\<open>src/src/db.rs\<close>, lines 649 to 662 and 2134 to 3032): the rows of the
  two tables, the in-memory counts that enforce the limit of connections per play key, and the
  queue of statistics. The same limits on SQLite as in the theory of the tables apply.
\<close>

section \<open>Counts\<close>

definition decr_count :: "string \<Rightarrow> (string, nat) hmap \<Rightarrow> (string, nat) hmap" where
  "decr_count key counts =
     (case hm_get counts key of
        Some c \<Rightarrow> if c \<le> 1 then hm_remove key counts else hm_insert key (c - 1) counts
      | None \<Rightarrow> counts)"

text \<open>The entry that \<open>or_insert(0)\<close> makes stays only if the count is raised: the limit is not 0.\<close>

definition try_incr_count :: "string \<Rightarrow> (string, nat) hmap \<Rightarrow> bool \<times> (string, nat) hmap" where
  "try_incr_count viewer_id counts =
     (let c = (case hm_get counts viewer_id of Some c \<Rightarrow> c | None \<Rightarrow> 0)
      in if MAX_CONNECTIONS_PER_PLAY_KEY \<le> c
         then (False, if c = 0 then hm_remove viewer_id counts else counts)
         else (True, hm_insert viewer_id (c + 1) counts))"

definition player_count_decr :: "string \<Rightarrow> db \<Rightarrow> db" where
  "player_count_decr viewer_id d = d\<lparr>active_player_counts := decr_count viewer_id (active_player_counts d)\<rparr>"

definition player_count_try_incr :: "string \<Rightarrow> db \<Rightarrow> bool \<times> db" where
  "player_count_try_incr viewer_id d =
     (let (ok, c) = try_incr_count viewer_id (active_player_counts d) in (ok, d\<lparr>active_player_counts := c\<rparr>))"

text \<open>\<open>i64::try_from\<close> of an unsigned counter.\<close>

definition fits_i64 :: "u64 \<Rightarrow> bool" where
  "fits_i64 n \<longleftrightarrow> unat n < 2 ^ 63"

section \<open>Publishers\<close>

definition active_publishers :: "string \<Rightarrow> db \<Rightarrow> publisher list" where
  "active_publishers sid d = filter (\<lambda>p. pub_stream_id p = sid \<and> pub_active p) (publisher_rows d)"

definition publisher_try_acquire :: "publisher \<Rightarrow> db \<Rightarrow> bool \<times> db" where
  "publisher_try_acquire p d =
     (if \<not> fits_i64 (pub_bytes_in p) then (False, d)
      else if 0 < length (active_publishers (pub_stream_id p) d) then (False, d)
      else case insert_publisher_row (p\<lparr>pub_active := True\<rparr>) d of
        Inl _ \<Rightarrow> (False, d)
      | Inr d' \<Rightarrow> (True, d'))"

text \<open>\<open>UPDATE publishers SET ... WHERE id=?\<close>: everything but the id and the time of connection.\<close>

definition update_publisher_rows :: "string \<Rightarrow> publisher \<Rightarrow> db \<Rightarrow> nat \<times> db" where
  "update_publisher_rows rid p d =
     (let n = length (filter (\<lambda>r. pub_id r = rid) (publisher_rows d))
      in if 0 < n \<and> \<not> has_stream d (pub_stream_id p) then (0, d)
         else (n, d\<lparr>publisher_rows := map (\<lambda>r. if pub_id r = rid
                then p\<lparr>pub_id := pub_id r, pub_connected_at := pub_connected_at r\<rparr> else r) (publisher_rows d)\<rparr>))"

definition publisher_update :: "string \<Rightarrow> publisher \<Rightarrow> db \<Rightarrow> bool \<times> db" where
  "publisher_update rid p d0 =
     (if \<not> fits_i64 (pub_bytes_in p) then (False, d0)
      else
        let d = d0\<lparr>pending_publishers := hm_remove rid (pending_publishers d0)\<rparr>;
            current = List.find (\<lambda>r. pub_id r = rid) (publisher_rows d);
            is_transition = (case current of
                Some r \<Rightarrow> \<not> (pub_active r \<and> pub_stream_id r = pub_stream_id p)
              | None \<Rightarrow> True);
            other_active = length (filter (\<lambda>r. pub_id r \<noteq> rid) (active_publishers (pub_stream_id p) d))
        in if pub_active p \<and> is_transition \<and> 0 < other_active then (False, d)
           else let (n, d') = update_publisher_rows rid p d in (0 < n, d'))"

definition write_publisher_stats :: "string \<Rightarrow> publisher \<Rightarrow> db \<Rightarrow> nat \<times> db" where
  "write_publisher_stats rid p d =
     (if \<not> fits_i64 (pub_bytes_in p) then (0, d)
      else
        (length (filter (\<lambda>r. pub_id r = rid \<and> pub_active r) (publisher_rows d)),
         d\<lparr>publisher_rows := map (\<lambda>r. if pub_id r = rid \<and> pub_active r
             then r\<lparr>pub_video_codec := pub_video_codec p, pub_audio_codec := pub_audio_codec p,
                    pub_video_width := pub_video_width p, pub_video_height := pub_video_height p,
                    pub_fps := pub_fps p, pub_audio_sample_rate := pub_audio_sample_rate p,
                    pub_audio_channels := pub_audio_channels p, pub_bytes_in := pub_bytes_in p,
                    pub_bitrate_kbps := pub_bitrate_kbps p, pub_rtt_ms := pub_rtt_ms p\<rparr>
             else r) (publisher_rows d)\<rparr>))"

definition publisher_update_stats :: "string \<Rightarrow> publisher \<Rightarrow> db \<Rightarrow> bool \<times> db" where
  "publisher_update_stats rid p d = (let (n, d') = write_publisher_stats rid p d in (0 < n, d'))"

definition publisher_exists :: "string \<Rightarrow> db \<Rightarrow> bool" where
  "publisher_exists rid d = list_ex (\<lambda>r. pub_id r = rid) (publisher_rows d)"

definition publisher_remove :: "string \<Rightarrow> db \<Rightarrow> db" where
  "publisher_remove rid d = d\<lparr>publisher_rows := filter (\<lambda>r. pub_id r \<noteq> rid) (publisher_rows d)\<rparr>"

definition publisher_list :: "string option \<Rightarrow> db \<Rightarrow> publisher list" where
  "publisher_list sid d =
     (case sid of
        Some s \<Rightarrow> filter (\<lambda>p. pub_stream_id p = s \<and> pub_active p) (publisher_rows d)
      | None \<Rightarrow> filter pub_active (publisher_rows d))"

section \<open>Players\<close>

definition insert_active_player :: "player \<Rightarrow> db \<Rightarrow> bool \<times> db" where
  "insert_active_player p d =
     (case insert_player_row (p\<lparr>pl_active := True\<rparr>) d of Inl _ \<Rightarrow> (False, d) | Inr d' \<Rightarrow> (True, d'))"

definition player_try_acquire :: "player \<Rightarrow> db \<Rightarrow> bool \<times> db" where
  "player_try_acquire p d =
     (if pl_viewer_id p = [] then (False, d)
      else if \<not> fits_i64 (pl_bytes_out p) then (False, d)
      else
        let (ok, d1) = player_count_try_incr (pl_viewer_id p) d
        in if \<not> ok then (False, d1)
           else
             let (inserted, d2) = insert_active_player p d1
             in (inserted, if inserted then d2 else player_count_decr (pl_viewer_id p) d2))"

definition player_reserve :: "string \<Rightarrow> db \<Rightarrow> bool \<times> db" where
  "player_reserve viewer_id d =
     (if viewer_id = [] then (False, d)
      else
        let (ok, d1) = player_count_try_incr viewer_id d
        in if \<not> ok then (False, d1)
           else
             let c = (case hm_get (unpersisted_player_counts d1) viewer_id of Some c \<Rightarrow> c | None \<Rightarrow> 0)
             in (True, d1\<lparr>unpersisted_player_counts := hm_insert viewer_id (c + 1) (unpersisted_player_counts d1)\<rparr>))"

definition player_unreserve :: "string \<Rightarrow> db \<Rightarrow> db" where
  "player_unreserve viewer_id d =
     d\<lparr>unpersisted_player_counts := decr_count viewer_id (unpersisted_player_counts d)\<rparr>"

definition player_insert_reserved :: "player \<Rightarrow> db \<Rightarrow> bool \<times> db" where
  "player_insert_reserved p d =
     (let (inserted, d1) = (if fits_i64 (pl_bytes_out p) then insert_active_player p d else (False, d));
          d2 = player_unreserve (pl_viewer_id p) d1
      in (inserted, if inserted then d2 else player_count_decr (pl_viewer_id p) d2))"

definition player_cancel_reservation :: "string \<Rightarrow> db \<Rightarrow> db" where
  "player_cancel_reservation viewer_id d = player_count_decr viewer_id (player_unreserve viewer_id d)"

definition update_player_rows :: "string \<Rightarrow> player \<Rightarrow> db \<Rightarrow> nat \<times> db" where
  "update_player_rows rid p d =
     (let n = length (filter (\<lambda>r. pl_id r = rid) (player_rows d))
      in if 0 < n \<and> \<not> has_stream d (pl_stream_id p) then (0, d)
         else (n, d\<lparr>player_rows := map (\<lambda>r. if pl_id r = rid
                then p\<lparr>pl_id := pl_id r, pl_connected_at := pl_connected_at r\<rparr> else r) (player_rows d)\<rparr>))"

text \<open>The last part of \<open>player_update\<close>: the counts follow the write.\<close>

definition settle_counts :: "bool \<Rightarrow> bool \<Rightarrow> (bool \<times> string) option \<Rightarrow> player \<Rightarrow> db \<Rightarrow> db" where
  "settle_counts updated reserved current p d =
     (if updated then
        (case current of
           Some (True, old) \<Rightarrow>
             if \<not> pl_active p then player_count_decr old d
             else if old \<noteq> pl_viewer_id p then player_count_decr old d
             else d
         | _ \<Rightarrow> d)
      else if reserved then player_count_decr (pl_viewer_id p) d
      else d)"

definition player_update :: "string \<Rightarrow> player \<Rightarrow> db \<Rightarrow> bool \<times> db" where
  "player_update rid p d0 =
     (if \<not> fits_i64 (pl_bytes_out p) then (False, d0)
      else
        let d = d0\<lparr>pending_players := hm_remove rid (pending_players d0)\<rparr>;
            current = map_option (\<lambda>r. (pl_active r, pl_viewer_id r)) (List.find (\<lambda>r. pl_id r = rid) (player_rows d));
            is_transition = (current \<noteq> Some (True, pl_viewer_id p))
        in if pl_active p \<and> pl_viewer_id p = [] then (False, d)
           else
             let (ok, d1) = (if pl_active p \<and> is_transition then player_count_try_incr (pl_viewer_id p) d else (True, d))
             in if \<not> ok then (False, d1)
                else
                  let (n, d2) = update_player_rows rid p d1
                  in (0 < n, settle_counts (0 < n) (pl_active p \<and> is_transition) current p d2))"

definition player_exists :: "string \<Rightarrow> db \<Rightarrow> bool" where
  "player_exists rid d = list_ex (\<lambda>r. pl_id r = rid) (player_rows d)"

definition write_player_stats :: "string \<Rightarrow> player \<Rightarrow> db \<Rightarrow> nat \<times> db" where
  "write_player_stats rid p d =
     (if \<not> fits_i64 (pl_bytes_out p) then (0, d)
      else
        (length (filter (\<lambda>r. pl_id r = rid \<and> pl_active r) (player_rows d)),
         d\<lparr>player_rows := map (\<lambda>r. if pl_id r = rid \<and> pl_active r
             then r\<lparr>pl_bytes_out := pl_bytes_out p, pl_bitrate_kbps := pl_bitrate_kbps p, pl_rtt_ms := pl_rtt_ms p\<rparr>
             else r) (player_rows d)\<rparr>))"

definition player_update_stats :: "string \<Rightarrow> player \<Rightarrow> db \<Rightarrow> bool \<times> db" where
  "player_update_stats rid p d = (let (n, d') = write_player_stats rid p d in (0 < n, d'))"

definition player_remove :: "string \<Rightarrow> db \<Rightarrow> db" where
  "player_remove rid d = d\<lparr>player_rows := filter (\<lambda>r. pl_id r \<noteq> rid) (player_rows d)\<rparr>"

definition player_list :: "string option \<Rightarrow> db \<Rightarrow> player list" where
  "player_list sid d =
     (case sid of
        Some s \<Rightarrow> filter (\<lambda>p. pl_stream_id p = s \<and> pl_active p) (player_rows d)
      | None \<Rightarrow> filter pl_active (player_rows d))"

definition player_active_count_for_viewer :: "string \<Rightarrow> db \<Rightarrow> nat" where
  "player_active_count_for_viewer viewer_id d =
     (case hm_get (active_player_counts d) viewer_id of Some c \<Rightarrow> c | None \<Rightarrow> 0)"

definition players_deactivate_for_viewer :: "string \<Rightarrow> db \<Rightarrow> db" where
  "players_deactivate_for_viewer viewer_id d =
     (let pending = (case hm_get (unpersisted_player_counts d) viewer_id of Some c \<Rightarrow> c | None \<Rightarrow> 0)
      in d\<lparr>player_rows := map (\<lambda>r. if pl_viewer_id r = viewer_id \<and> pl_active r then r\<lparr>pl_active := False\<rparr> else r) (player_rows d),
           active_player_counts := (if pending = 0 then hm_remove viewer_id (active_player_counts d)
                                    else hm_insert viewer_id pending (active_player_counts d))\<rparr>)"

section \<open>Queued statistics\<close>

definition queue_publisher_stats :: "string \<Rightarrow> publisher \<Rightarrow> db \<Rightarrow> db" where
  "queue_publisher_stats rid p d = d\<lparr>pending_publishers := hm_insert rid p (pending_publishers d)\<rparr>"

definition queue_player_stats :: "string \<Rightarrow> player \<Rightarrow> db \<Rightarrow> db" where
  "queue_player_stats rid p d = d\<lparr>pending_players := hm_insert rid p (pending_players d)\<rparr>"

definition flush_pending_stats :: "db \<Rightarrow> nat \<times> db" where
  "flush_pending_stats d =
     (if pending_publishers d = [] \<and> pending_players d = [] then (0, d)
      else
        (length (pending_publishers d) + length (pending_players d),
         foldl (\<lambda>d (rid, p). snd (write_player_stats rid p d))
           (foldl (\<lambda>d (rid, p). snd (write_publisher_stats rid p d))
              (d\<lparr>pending_publishers := [], pending_players := []\<rparr>) (pending_publishers d))
           (pending_players d)))"

section \<open>Group commit\<close>

text \<open>\<open>SELECT viewer_id, COUNT( * ) FROM players WHERE active=1 GROUP BY viewer_id\<close>, then the reservations.\<close>

definition resync_active_player_counts :: "db \<Rightarrow> db" where
  "resync_active_player_counts d =
     (let active = map pl_viewer_id (filter pl_active (player_rows d));
          counts = map (\<lambda>vid. (vid, length (filter (\<lambda>w. w = vid) active))) (remdups active);
          add = (\<lambda>m (vid, n). hm_insert vid ((case hm_get m vid of Some c \<Rightarrow> c | None \<Rightarrow> 0) + n) m)
      in d\<lparr>active_player_counts := foldl add counts (unpersisted_player_counts d)\<rparr>)"

text \<open>A failed commit restores the tables; what is kept in memory stays, and the counts are rebuilt.\<close>

definition batch :: "(db \<Rightarrow> 'r \<times> db) \<Rightarrow> bool \<Rightarrow> db \<Rightarrow> ('r \<times> bool) \<times> db" where
  "batch f commit_ok d =
     (let (r, d') = f d
      in if commit_ok then ((r, True), d')
         else ((r, False),
               resync_active_player_counts
                 (d'\<lparr>settings := settings d, stream_rows := stream_rows d, viewer_rows := viewer_rows d,
                     owner_rows := owner_rows d, publisher_rows := publisher_rows d, player_rows := player_rows d,
                     stat_rows := stat_rows d\<rparr>)))"

section \<open>Samples\<close>

definition stat_add :: "stat_sample \<Rightarrow> db \<Rightarrow> bool \<times> db" where
  "stat_add s d = (case insert_stat_row s d of Inl _ \<Rightarrow> (False, d) | Inr d' \<Rightarrow> (True, d'))"

text \<open>\<open>ORDER BY ts DESC LIMIT ?\<close>; a negative limit is no limit.\<close>

definition stat_recent :: "string \<Rightarrow> int \<Rightarrow> db \<Rightarrow> stat_sample list" where
  "stat_recent sid limit d =
     (let rows = sort_key (\<lambda>s. - st_ts s) (filter (\<lambda>s. st_stream_id s = sid) (stat_rows d))
      in if limit < 0 then rows else take (nat limit) rows)"

end
