(* ===== verification/Session_Props.thy ===== *)
theory Session_Props
  imports Sessions
begin

text \<open>
  What holds of sessions whatever happens to them: a stream has at most one active publisher, and a
  play key never has more than its number of connections, rows not written yet included.
\<close>

section \<open>One row among the rows of a table\<close>

lemma unique_split:
  assumes "distinct (map f rows)" and "r \<in> set rows"
  obtains xs ys where "rows = xs @ r # ys" and "\<forall>x \<in> set xs \<union> set ys. f x \<noteq> f r"
proof -
  from assms(2) obtain xs ys where s: "rows = xs @ r # ys" by (meson split_list)
  have "f r \<notin> f ` set xs" "f r \<notin> f ` set ys" using assms(1) unfolding s by auto
  then have "\<forall>x \<in> set xs \<union> set ys. f x \<noteq> f r" by (metis Un_iff imageI)
  with s show ?thesis by (rule that)
qed

lemma map_if_other: "\<forall>x \<in> set xs. \<not> P x \<Longrightarrow> map (\<lambda>x. if P x then g x else x) xs = xs"
  by (induction xs) auto

lemma find_Some_mem: "List.find P xs = Some x \<Longrightarrow> x \<in> set xs \<and> P x"
  by (auto simp: find_Some_iff)

lemma find_None_mem: "List.find P xs = None \<Longrightarrow> x \<in> set xs \<Longrightarrow> \<not> P x"
  by (auto simp: find_None_iff)

definition empty_db :: db where
  "empty_db = \<lparr>settings = [], stream_rows = [], viewer_rows = [], owner_rows = [], publisher_rows = [], player_rows = [],
     stat_rows = [], active_player_counts = [], unpersisted_player_counts = [], pending_publishers = [],
     pending_players = [], auth_generation = 0,
     access_keys = \<lparr>ks_generation = None, ks_play = [], ks_publish = []\<rparr>\<rparr>"

definition demo_db :: db where
  "demo_db = empty_db\<lparr>stream_rows := [\<lparr>s_id = ''s'', s_name = ''s'', s_app = ''live'', s_publish_key = ''pk'',
     s_play_key = ''yk'', s_stats_key = ''tk'', s_enabled = True, s_created_at = 0, pending_delete = False,
     delete_token = ''t''\<rparr>]\<rparr>"

definition demo_publisher :: "string \<Rightarrow> publisher" where
  "demo_publisher rid = \<lparr>pub_id = rid, pub_stream_id = ''s'', pub_app = ''live'', pub_stream_name = ''s'',
     pub_video_codec = [], pub_audio_codec = [], pub_video_width = 0, pub_video_height = 0, pub_fps = 0,
     pub_audio_sample_rate = 0, pub_audio_channels = 0, pub_bytes_in = 0, pub_bitrate_kbps = 0, pub_rtt_ms = 0,
     pub_connected_at = 0, pub_active = True\<rparr>"

section \<open>Publishers\<close>

definition publishers_ok :: "db \<Rightarrow> bool" where
  "publishers_ok d \<longleftrightarrow> distinct (map pub_id (publisher_rows d)) \<and> (\<forall>sid. length (active_publishers sid d) \<le> 1)"

datatype publisher_op =
    PubAcquire publisher
  | PubUpdate string publisher
  | PubStats string publisher
  | PubQueue string publisher
  | PubFlush
  | PubRemove string
  | PubStreamDeleted string

fun publisher_step :: "publisher_op \<Rightarrow> db \<Rightarrow> db" where
  "publisher_step (PubAcquire p) d = snd (publisher_try_acquire p d)"
| "publisher_step (PubUpdate rid p) d = snd (publisher_update rid p d)"
| "publisher_step (PubStats rid p) d = snd (publisher_update_stats rid p d)"
| "publisher_step (PubQueue rid p) d = queue_publisher_stats rid p d"
| "publisher_step PubFlush d = snd (flush_pending_stats d)"
| "publisher_step (PubRemove rid) d = publisher_remove rid d"
| "publisher_step (PubStreamDeleted sid) d = snd (stream_delete_if_pending sid d)"

text \<open>Only the ids, the streams and the active flags of the rows matter.\<close>

definition pub_key :: "publisher \<Rightarrow> string \<times> string \<times> bool" where
  "pub_key p = (pub_id p, pub_stream_id p, pub_active p)"

definition keys_ok :: "(string \<times> string \<times> bool) list \<Rightarrow> bool" where
  "keys_ok ks \<longleftrightarrow> distinct (map fst ks) \<and> (\<forall>sid. length (filter (\<lambda>(_, s, a). s = sid \<and> a) ks) \<le> 1)"

lemma publishers_ok_keys: "publishers_ok d \<longleftrightarrow> keys_ok (map pub_key (publisher_rows d))"
proof -
  have "length (filter (\<lambda>(_, s, a). s = sid \<and> a) (map pub_key rows)) =
      length (filter (\<lambda>p. pub_stream_id p = sid \<and> pub_active p) rows)" for sid rows
    by (induction rows) (auto simp: pub_key_def)
  moreover have "map fst (map pub_key rows) = map pub_id rows" for rows
    by (simp add: pub_key_def)
  ultimately show ?thesis by (simp only: publishers_ok_def keys_ok_def active_publishers_def)
qed

lemma publishers_ok_filter:
  assumes ok: "publishers_ok d" and rows: "publisher_rows d' = filter P (publisher_rows d)"
  shows "publishers_ok d'"
proof -
  have le: "length (filter Q (filter P rows)) \<le> length (filter Q rows)" for Q and rows :: "publisher list"
    by (induction rows) auto
  have "length (active_publishers sid d') \<le> 1" for sid
  proof -
    have "length (active_publishers sid d') \<le> length (active_publishers sid d)"
      unfolding active_publishers_def rows by (rule le)
    also have "\<dots> \<le> 1" using ok by (simp add: publishers_ok_def)
    finally show ?thesis .
  qed
  then show ?thesis using ok by (simp add: publishers_ok_def rows distinct_map_filter)
qed

lemma publishers_ok_same: "publishers_ok d \<Longrightarrow> map pub_key (publisher_rows d') = map pub_key (publisher_rows d) \<Longrightarrow> publishers_ok d'"
  by (simp add: publishers_ok_keys)

lemma write_publisher_stats_keys: "map pub_key (publisher_rows (snd (write_publisher_stats rid p d))) = map pub_key (publisher_rows d)"
  by (simp add: write_publisher_stats_def pub_key_def)

lemma write_player_stats_publishers: "publisher_rows (snd (write_player_stats rid p d)) = publisher_rows d"
  by (simp add: write_player_stats_def)

lemma flush_keys: "map pub_key (publisher_rows (snd (flush_pending_stats d))) = map pub_key (publisher_rows d)"
proof -
  have "map pub_key (publisher_rows (foldl (\<lambda>d (rid, p). snd (write_publisher_stats rid p d)) e xs)) = map pub_key (publisher_rows e)"
    for e and xs :: "(string \<times> publisher) list"
    by (induction xs arbitrary: e) (auto simp: write_publisher_stats_keys)
  moreover have "publisher_rows (foldl (\<lambda>d (rid, p). snd (write_player_stats rid p d)) e ys) = publisher_rows e"
    for e and ys :: "(string \<times> player) list"
    by (induction ys arbitrary: e) (auto simp: write_player_stats_publishers)
  ultimately show ?thesis by (simp add: flush_pending_stats_def)
qed

lemma publisher_update_ok: "publishers_ok d \<Longrightarrow> publishers_ok (snd (publisher_update rid p d))"
proof -
  assume ok: "publishers_ok d"
  let ?rows = "publisher_rows d"
  let ?d = "d\<lparr>pending_publishers := hm_remove rid (pending_publishers d)\<rparr>"
  have same: "publishers_ok ?d" using ok by (simp add: publishers_ok_def active_publishers_def)
  show ?thesis
  proof (cases "publisher_rows (snd (publisher_update rid p d)) = ?rows")
    case True
    with ok show ?thesis by (simp add: publishers_ok_def active_publishers_def)
  next
    case False
    then obtain r where find: "List.find (\<lambda>r. pub_id r = rid) ?rows = Some r"
      and free: "pub_active p \<Longrightarrow> \<not> (pub_active r \<and> pub_stream_id r = pub_stream_id p) \<Longrightarrow>
        filter (\<lambda>r. pub_id r \<noteq> rid) (active_publishers (pub_stream_id p) d) = []"
      and rows: "publisher_rows (snd (publisher_update rid p d)) =
        map (\<lambda>r. if pub_id r = rid then p\<lparr>pub_id := pub_id r, pub_connected_at := pub_connected_at r\<rparr> else r) ?rows"
      using map_if_other [of ?rows "\<lambda>r. pub_id r = rid" "\<lambda>r. p\<lparr>pub_id := pub_id r, pub_connected_at := pub_connected_at r\<rparr>"]
      by (cases "List.find (\<lambda>r. pub_id r = rid) ?rows")
        (auto simp: publisher_update_def update_publisher_rows_def active_publishers_def Let_def find_None_iff split: if_splits)
    have r: "r \<in> set ?rows" "pub_id r = rid" using find_Some_mem [OF find] by auto
    have dist: "distinct (map pub_id ?rows)" using ok by (simp add: publishers_ok_def)
    obtain xs ys where split: "?rows = xs @ r # ys" and other: "\<forall>x \<in> set xs \<union> set ys. pub_id x \<noteq> rid"
      using unique_split [OF dist r(1)] r(2) by metis
    let ?r = "p\<lparr>pub_id := rid, pub_connected_at := pub_connected_at r\<rparr>"
    have new: "publisher_rows (snd (publisher_update rid p d)) = xs @ ?r # ys"
      unfolding rows split using r(2) other by (simp add: map_if_other)
    have "length (active_publishers sid (snd (publisher_update rid p d))) \<le> 1" for sid
    proof -
      let ?act = "\<lambda>zs. filter (\<lambda>x. pub_stream_id x = sid \<and> pub_active x) zs"
      have old: "length (?act xs) + length (?act [r]) + length (?act ys) \<le> 1"
        using ok unfolding publishers_ok_def active_publishers_def split by (auto dest: spec [of _ sid])
      have "?act xs = [] \<and> ?act ys = []" if "pub_active p" "pub_stream_id p = sid"
      proof (cases "pub_active r \<and> pub_stream_id r = sid")
        case True
        with old show ?thesis by simp
      next
        case False
        with free that other show ?thesis
          unfolding active_publishers_def split by (auto simp: filter_empty_conv)
      qed
      with old show ?thesis unfolding active_publishers_def new by auto
    qed
    moreover have "distinct (map pub_id (xs @ ?r # ys))" using dist unfolding split using r(2) by simp
    ultimately show ?thesis by (simp add: publishers_ok_def new)
  qed
qed

lemma publisher_acquire_ok: "publishers_ok d \<Longrightarrow> publishers_ok (snd (publisher_try_acquire p d))"
  by (auto simp: publisher_try_acquire_def insert_publisher_row_def publishers_ok_def active_publishers_def list_ex_iff
      split: sum.splits if_splits)

lemma publisher_step_ok: "publishers_ok d \<Longrightarrow> publishers_ok (publisher_step x d)"
proof (cases x)
  case (PubStats rid p)
  assume "publishers_ok d"
  then show ?thesis
    by (rule publishers_ok_same) (simp add: PubStats publisher_update_stats_def split_beta write_publisher_stats_keys Let_def)
next
  case (PubQueue rid p)
  assume "publishers_ok d"
  then show ?thesis by (rule publishers_ok_same) (simp add: PubQueue queue_publisher_stats_def)
next
  case PubFlush
  assume "publishers_ok d"
  then show ?thesis by (rule publishers_ok_same) (simp add: PubFlush flush_keys)
next
  case (PubRemove rid)
  assume "publishers_ok d"
  then show ?thesis by (rule publishers_ok_filter) (simp add: PubRemove publisher_remove_def)
next
  case (PubStreamDeleted sid)
  assume "publishers_ok d"
  then show ?thesis
    by (rule publishers_ok_filter)
      (simp add: PubStreamDeleted stream_delete_if_pending_def delete_stream_rows_def bump_def Let_def)
qed (simp_all add: publisher_acquire_ok publisher_update_ok)

text \<open>
  C31. A stream never has two active publishers. Whatever sequence of acquisitions, updates, statistics
  (queued or direct), removals and stream deletions is run on the sessions, no stream has more than
  one active publisher; in particular a late flush of queued statistics does not revive a released
  session.
\<close>

theorem one_publisher_per_stream:
  assumes "publisher_rows d = []"
  shows "length (active_publishers sid (foldl (\<lambda>d x. publisher_step x d) d ops)) \<le> 1"
proof -
  have "publishers_ok d" using assms by (simp add: publishers_ok_def active_publishers_def)
  then have "publishers_ok (foldl (\<lambda>d x. publisher_step x d) d ops)"
    by (induction ops arbitrary: d) (simp_all add: publisher_step_ok)
  then show ?thesis by (simp add: publishers_ok_def)
qed

theorem one_publisher_per_stream_witness:
  "length (active_publishers ''s'' (foldl (\<lambda>d x. publisher_step x d) demo_db
     [PubAcquire (demo_publisher ''a''), PubAcquire (demo_publisher ''b'')])) \<le> 1"
  by (rule one_publisher_per_stream) (simp add: demo_db_def empty_db_def)

section \<open>Players\<close>

definition cnt :: "(string, nat) hmap \<Rightarrow> string \<Rightarrow> nat" where
  "cnt m k = (case hm_get m k of Some c \<Rightarrow> c | None \<Rightarrow> 0)"

lemma cnt_insert [simp]: "cnt (hm_insert k v m) l = (if l = k then v else cnt m l)"
  by (simp add: cnt_def)

lemma cnt_remove [simp]: "cnt (hm_remove k m) l = (if l = k then 0 else cnt m l)"
  by (simp add: cnt_def)

definition active_rows :: "string \<Rightarrow> db \<Rightarrow> nat" where
  "active_rows vid d = length (filter (\<lambda>r. pl_viewer_id r = vid \<and> pl_active r) (player_rows d))"

text \<open>Every active row and every reservation is counted, and no count is above the limit.\<close>

definition players_ok :: "db \<Rightarrow> bool" where
  "players_ok d \<longleftrightarrow> distinct (map pl_id (player_rows d)) \<and>
     (\<forall>vid. active_rows vid d + cnt (unpersisted_player_counts d) vid \<le> cnt (active_player_counts d) vid \<and>
            cnt (active_player_counts d) vid \<le> MAX_CONNECTIONS_PER_PLAY_KEY)"

lemma players_okD:
  assumes "players_ok d"
  shows "active_rows vid d + cnt (unpersisted_player_counts d) vid \<le> cnt (active_player_counts d) vid"
    and "cnt (active_player_counts d) vid \<le> MAX_CONNECTIONS_PER_PLAY_KEY"
    and "distinct (map pl_id (player_rows d))"
  using assms by (simp_all add: players_ok_def)

lemma cnt_decr: "cnt (decr_count k m) l = (if l = k then cnt m l - 1 else cnt m l)"
  by (auto simp: decr_count_def cnt_def split: option.splits)

lemma try_incr_ok: "fst (try_incr_count k m) \<longleftrightarrow> cnt m k < MAX_CONNECTIONS_PER_PLAY_KEY"
  by (simp add: try_incr_count_def Let_def not_less flip: cnt_def)

lemma cnt_try_incr: "cnt (snd (try_incr_count k m)) l = (if l = k \<and> cnt m k < MAX_CONNECTIONS_PER_PLAY_KEY then cnt m l + 1 else cnt m l)"
  by (auto simp: try_incr_count_def Let_def simp flip: cnt_def)

lemma count_ops_fields:
  "player_rows (player_count_decr vid d) = player_rows d"
  "unpersisted_player_counts (player_count_decr vid d) = unpersisted_player_counts d"
  "active_player_counts (player_count_decr vid d) = decr_count vid (active_player_counts d)"
  "player_rows (snd (player_count_try_incr vid d)) = player_rows d"
  "unpersisted_player_counts (snd (player_count_try_incr vid d)) = unpersisted_player_counts d"
  "active_player_counts (snd (player_count_try_incr vid d)) = snd (try_incr_count vid (active_player_counts d))"
  "stream_rows (snd (player_count_try_incr vid d)) = stream_rows d"
  "fst (player_count_try_incr vid d) = (cnt (active_player_counts d) vid < MAX_CONNECTIONS_PER_PLAY_KEY)"
  "player_rows (player_unreserve vid d) = player_rows d"
  "active_player_counts (player_unreserve vid d) = active_player_counts d"
  "unpersisted_player_counts (player_unreserve vid d) = decr_count vid (unpersisted_player_counts d)"
  by (simp_all add: player_count_decr_def player_count_try_incr_def player_unreserve_def Let_def split_beta try_incr_ok)

lemma active_rows_cong: "player_rows d' = player_rows d \<Longrightarrow> active_rows vid d' = active_rows vid d"
  by (simp add: active_rows_def)

lemma insert_active_player_cases:
  obtains "insert_active_player p d = (False, d)"
  | d' where "insert_active_player p d = (True, d')" and "player_rows d' = player_rows d @ [p\<lparr>pl_active := True\<rparr>]"
      and "active_player_counts d' = active_player_counts d" and "unpersisted_player_counts d' = unpersisted_player_counts d"
      and "\<forall>r \<in> set (player_rows d). pl_id r \<noteq> pl_id p"
  by (cases "insert_player_row (p\<lparr>pl_active := True\<rparr>) d")
    (auto simp: insert_active_player_def insert_player_row_def list_ex_iff split: if_splits)

lemma active_rows_snoc:
  "player_rows d' = player_rows d @ [p\<lparr>pl_active := True\<rparr>] \<Longrightarrow>
   active_rows vid d' = active_rows vid d + (if vid = pl_viewer_id p then 1 else 0)"
  by (simp add: active_rows_def)

text \<open>The counts go from \<open>d\<close> to \<open>d'\<close> as the rows and reservations do.\<close>

lemma players_ok_step:
  assumes ok: "players_ok d" and ids: "distinct (map pl_id (player_rows d'))"
    and other: "\<And>w. w \<noteq> v \<Longrightarrow> active_rows w d' = active_rows w d \<and>
      cnt (unpersisted_player_counts d') w = cnt (unpersisted_player_counts d) w \<and>
      cnt (active_player_counts d') w = cnt (active_player_counts d) w"
    and this_one: "active_rows v d' + cnt (unpersisted_player_counts d') v \<le> cnt (active_player_counts d') v"
    and limit: "cnt (active_player_counts d') v \<le> MAX_CONNECTIONS_PER_PLAY_KEY"
  shows "players_ok d'"
  unfolding players_ok_def
proof (intro conjI allI ids)
  fix w
  show "active_rows w d' + cnt (unpersisted_player_counts d') w \<le> cnt (active_player_counts d') w"
    using this_one other [of w] players_okD(1) [OF ok, of w] by (cases "w = v") auto
  show "cnt (active_player_counts d') w \<le> MAX_CONNECTIONS_PER_PLAY_KEY"
    using limit other [of w] players_okD(2) [OF ok, of w] by (cases "w = v") auto
qed

lemma players_ok_incr_full:
  "players_ok d \<Longrightarrow> \<not> cnt (active_player_counts d) v < MAX_CONNECTIONS_PER_PLAY_KEY \<Longrightarrow>
   players_ok (snd (player_count_try_incr v d))"
  by (rule players_ok_step [of d _ v])
    (simp_all add: players_okD active_rows_cong [of "snd (player_count_try_incr v d)" d] count_ops_fields cnt_try_incr)

lemma player_try_acquire_ok: "players_ok d \<Longrightarrow> players_ok (snd (player_try_acquire p d))"
proof -
  assume ok: "players_ok d"
  let ?v = "pl_viewer_id p"
  let ?d1 = "snd (player_count_try_incr ?v d)"
  note le = players_okD [OF ok]
  show ?thesis
  proof (cases "cnt (active_player_counts d) ?v < MAX_CONNECTIONS_PER_PLAY_KEY \<and> ?v \<noteq> [] \<and> fits_i64 (pl_bytes_out p)")
    case False
    then have "snd (player_try_acquire p d) = d \<or> snd (player_try_acquire p d) = ?d1 \<and>
        \<not> cnt (active_player_counts d) ?v < MAX_CONNECTIONS_PER_PLAY_KEY"
      by (auto simp: player_try_acquire_def Let_def split_beta count_ops_fields)
    with ok players_ok_incr_full show ?thesis by metis
  next
    case room: True
    then have res: "snd (player_try_acquire p d) =
        (let (ins, d2) = insert_active_player p ?d1 in if ins then d2 else player_count_decr ?v d2)"
      by (simp add: player_try_acquire_def Let_def split_beta count_ops_fields)
    have rows: "active_rows w ?d1 = active_rows w d" for w by (rule active_rows_cong) (simp add: count_ops_fields)
    show ?thesis
    proof (cases rule: insert_active_player_cases [of p ?d1])
      case 1
      have "active_rows w (player_count_decr ?v ?d1) = active_rows w d" for w
        by (rule active_rows_cong) (simp add: count_ops_fields)
      with 1 room le show ?thesis
        unfolding res by (intro players_ok_step [OF ok, of _ ?v]) (simp_all add: count_ops_fields cnt_decr cnt_try_incr)
    next
      case (2 d')
      with room le rows show ?thesis
        unfolding res by (intro players_ok_step [OF ok, of _ ?v])
          (auto simp: active_rows_snoc [OF 2(2)] count_ops_fields cnt_try_incr)
    qed
  qed
qed

lemma player_reserve_ok: "players_ok d \<Longrightarrow> players_ok (snd (player_reserve vid d))"
proof -
  assume ok: "players_ok d"
  note le = players_okD [OF ok]
  show ?thesis
  proof (cases "vid = [] \<or> \<not> cnt (active_player_counts d) vid < MAX_CONNECTIONS_PER_PLAY_KEY")
    case True
    then have "snd (player_reserve vid d) = d \<or> snd (player_reserve vid d) = snd (player_count_try_incr vid d) \<and>
        \<not> cnt (active_player_counts d) vid < MAX_CONNECTIONS_PER_PLAY_KEY"
      by (auto simp: player_reserve_def Let_def split_beta count_ops_fields)
    with ok players_ok_incr_full show ?thesis by metis
  next
    case False
    then have res: "snd (player_reserve vid d) = (let d1 = snd (player_count_try_incr vid d) in
        d1\<lparr>unpersisted_player_counts := hm_insert vid (cnt (unpersisted_player_counts d1) vid + 1) (unpersisted_player_counts d1)\<rparr>)"
      by (simp add: player_reserve_def Let_def split_beta count_ops_fields cnt_def)
    have rows: "player_rows (snd (player_reserve vid d)) = player_rows d" by (simp add: res Let_def count_ops_fields)
    from False le show ?thesis
      by (intro players_ok_step [OF ok, of _ vid])
        (simp_all add: rows active_rows_cong [OF rows], simp_all add: res Let_def count_ops_fields cnt_try_incr)
  qed
qed

lemma player_cancel_ok:
  assumes ok: "players_ok d" and res: "0 < cnt (unpersisted_player_counts d) vid"
  shows "players_ok (player_cancel_reservation vid d)"
proof -
  have rows: "player_rows (player_cancel_reservation vid d) = player_rows d"
    by (simp add: player_cancel_reservation_def count_ops_fields)
  from res players_okD(1,2) [OF ok, of vid] players_okD(3) [OF ok] show ?thesis
    by (intro players_ok_step [OF ok, of _ vid])
      (simp_all add: rows active_rows_cong [OF rows], simp_all add: player_cancel_reservation_def count_ops_fields cnt_decr)
qed

lemma player_insert_reserved_ok:
  assumes ok: "players_ok d" and res: "0 < cnt (unpersisted_player_counts d) (pl_viewer_id p)"
  shows "players_ok (snd (player_insert_reserved p d))"
proof -
  let ?v = "pl_viewer_id p"
  note le = players_okD [OF ok]
  have failed: "players_ok (player_count_decr ?v (player_unreserve ?v d))"
    using player_cancel_ok [OF ok res] by (simp add: player_cancel_reservation_def)
  show ?thesis
  proof (cases rule: insert_active_player_cases [of p d])
    case 1
    then show ?thesis using failed by (simp add: player_insert_reserved_def)
  next
    case (2 d')
    show ?thesis
    proof (cases "fits_i64 (pl_bytes_out p)")
      case False
      with failed show ?thesis by (simp add: player_insert_reserved_def)
    next
      case True
      with 2(1) have eq: "snd (player_insert_reserved p d) = player_unreserve ?v d'"
        by (simp add: player_insert_reserved_def)
      have rows: "active_rows w (player_unreserve ?v d') = active_rows w d + (if w = ?v then 1 else 0)" for w
        using active_rows_snoc [OF 2(2)] by (simp add: active_rows_cong [OF count_ops_fields(9)])
      from 2 res le(1,2) [of ?v] le(3) show ?thesis
        unfolding eq by (intro players_ok_step [OF ok, of _ ?v]) (auto simp: rows count_ops_fields cnt_decr)
    qed
  qed
qed

lemma deactivated_rows:
  "length (filter (\<lambda>r. pl_viewer_id r = w \<and> pl_active r)
     (map (\<lambda>r. if pl_viewer_id r = vid \<and> pl_active r then r\<lparr>pl_active := False\<rparr> else r) rows)) =
   (if w = vid then 0 else length (filter (\<lambda>r. pl_viewer_id r = w \<and> pl_active r) rows))"
  by (simp add: filter_map comp_def) (auto simp: filter_empty_conv intro!: arg_cong [where f = length] filter_cong)

lemma players_deactivate_ok:
  assumes ok: "players_ok d" shows "players_ok (players_deactivate_for_viewer vid d)"
proof (rule players_ok_step [OF ok, of _ vid])
  let ?d' = "players_deactivate_for_viewer vid d"
  note le = players_okD [OF ok]
  have rows: "active_rows w ?d' = (if w = vid then 0 else active_rows w d)" for w
    using deactivated_rows [of w vid "player_rows d"] unfolding active_rows_def players_deactivate_for_viewer_def Let_def
    by simp
  have unp: "unpersisted_player_counts ?d' = unpersisted_player_counts d"
    by (simp add: players_deactivate_for_viewer_def Let_def)
  have counts: "cnt (active_player_counts ?d') w =
      (if w = vid then cnt (unpersisted_player_counts d) vid else cnt (active_player_counts d) w)" for w
    unfolding players_deactivate_for_viewer_def Let_def by (simp flip: cnt_def)
  show "distinct (map pl_id (player_rows ?d'))"
    using le(3) unfolding players_deactivate_for_viewer_def Let_def by (simp add: comp_def if_distrib cong: if_cong)
  show "active_rows vid ?d' + cnt (unpersisted_player_counts ?d') vid \<le> cnt (active_player_counts ?d') vid"
    by (simp add: rows unp counts)
  show "cnt (active_player_counts ?d') vid \<le> MAX_CONNECTIONS_PER_PLAY_KEY"
    using le(1,2) [of vid] by (simp add: counts)
  show "active_rows w ?d' = active_rows w d \<and>
      cnt (unpersisted_player_counts ?d') w = cnt (unpersisted_player_counts d) w \<and>
      cnt (active_player_counts ?d') w = cnt (active_player_counts d) w" if "w \<noteq> vid" for w
    using that by (simp add: rows unp counts)
qed

lemma players_ok_filter:
  assumes ok: "players_ok d" and rows: "player_rows d' = filter P (player_rows d)"
    and "active_player_counts d' = active_player_counts d" and "unpersisted_player_counts d' = unpersisted_player_counts d"
  shows "players_ok d'"
proof -
  have le: "length (filter Q (filter P rows)) \<le> length (filter Q rows)" for Q and rows :: "player list"
    by (induction rows) auto
  have "active_rows vid d' \<le> active_rows vid d" for vid unfolding active_rows_def rows by (rule le)
  then have "active_rows vid d' + cnt (unpersisted_player_counts d) vid \<le> cnt (active_player_counts d) vid" for vid
    using ok unfolding players_ok_def by (meson add_le_mono1 le_trans)
  with ok assms show ?thesis by (simp add: players_ok_def distinct_map_filter)
qed

lemma players_ok_same:
  "players_ok d \<Longrightarrow> player_rows d' = player_rows d \<Longrightarrow> active_player_counts d' = active_player_counts d \<Longrightarrow>
   unpersisted_player_counts d' = unpersisted_player_counts d \<Longrightarrow> players_ok d'"
  by (simp add: players_ok_def active_rows_def)

abbreviation holds :: "player \<Rightarrow> string \<Rightarrow> nat" where
  "holds r w \<equiv> (if pl_active r \<and> pl_viewer_id r = w then 1 else 0)"

lemma update_player_rows_none:
  "List.find (\<lambda>r. pl_id r = rid) (player_rows d) = None \<or> \<not> has_stream d (pl_stream_id p) \<Longrightarrow>
   update_player_rows rid p d = (0, d)"
  by (auto simp: update_player_rows_def find_None_iff filter_empty_conv map_if_other)

lemma update_player_rows_some:
  assumes ids: "distinct (map pl_id (player_rows d))" and found: "List.find (\<lambda>r. pl_id r = rid) (player_rows d) = Some r"
    and fk: "has_stream d (pl_stream_id p)"
  obtains d' where "update_player_rows rid p d = (1, d')" and "distinct (map pl_id (player_rows d'))"
    and "\<And>w. active_rows w d' + holds r w = active_rows w d + holds p w"
    and "active_player_counts d' = active_player_counts d" and "unpersisted_player_counts d' = unpersisted_player_counts d"
proof -
  have r: "r \<in> set (player_rows d)" "pl_id r = rid" using find_Some_mem [OF found] by auto
  obtain xs ys where split: "player_rows d = xs @ r # ys" and other: "\<forall>x \<in> set xs \<union> set ys. pl_id x \<noteq> rid"
    using unique_split [OF ids r(1)] r(2) by metis
  have n: "filter (\<lambda>r. pl_id r = rid) (player_rows d) = [r]"
    unfolding split using r(2) other by (simp add: filter_empty_conv)
  let ?d' = "d\<lparr>player_rows := xs @ p\<lparr>pl_id := rid, pl_connected_at := pl_connected_at r\<rparr> # ys\<rparr>"
  have "update_player_rows rid p d = (1, ?d')"
    unfolding update_player_rows_def n using fk r(2) other by (simp add: split map_if_other)
  moreover have "distinct (map pl_id (player_rows ?d'))" using ids unfolding split using r(2) by simp
  moreover have "active_rows w ?d' + holds r w = active_rows w d + holds p w" for w
    by (simp add: active_rows_def split)
  ultimately show ?thesis by (intro that [of ?d']) simp_all
qed

lemma settle_counts_fields:
  "player_rows (settle_counts u res cur p d) = player_rows d"
  "unpersisted_player_counts (settle_counts u res cur p d) = unpersisted_player_counts d"
  "cnt (active_player_counts (settle_counts u res cur p d)) w =
     (if u then (case cur of Some (True, old) \<Rightarrow>
          if w = old \<and> (pl_active p \<longrightarrow> old \<noteq> pl_viewer_id p) then cnt (active_player_counts d) w - 1
          else cnt (active_player_counts d) w
        | _ \<Rightarrow> cnt (active_player_counts d) w)
      else if res \<and> w = pl_viewer_id p then cnt (active_player_counts d) w - 1 else cnt (active_player_counts d) w)"
  by (auto simp: settle_counts_def count_ops_fields cnt_decr split: option.splits prod.splits bool.splits)

text \<open>The two halves of an update: the row that is there is overwritten, or nothing is written.\<close>

lemma update_written_ok:
  assumes ok: "players_ok d" and found: "List.find (\<lambda>r. pl_id r = rid) (player_rows d) = Some r"
    and rows: "\<And>w. active_rows w d' + holds r w = active_rows w d + holds p w"
    and ids: "distinct (map pl_id (player_rows d'))"
    and unp: "unpersisted_player_counts d' = unpersisted_player_counts d"
    and counts: "\<And>w. cnt (active_player_counts d') w = cnt (active_player_counts d) w +
      (if pl_active p \<and> \<not> (pl_active r \<and> pl_viewer_id r = pl_viewer_id p) \<and> w = pl_viewer_id p then 1 else 0)"
    and room: "pl_active p \<Longrightarrow> \<not> (pl_active r \<and> pl_viewer_id r = pl_viewer_id p) \<Longrightarrow>
      cnt (active_player_counts d) (pl_viewer_id p) < MAX_CONNECTIONS_PER_PLAY_KEY"
  shows "players_ok (settle_counts True res (Some (pl_active r, pl_viewer_id r)) p d')"
    (is "players_ok ?d")
proof -
  note le = players_okD [OF ok]
  have act: "active_rows w ?d = active_rows w d'" for w by (rule active_rows_cong) (simp add: settle_counts_fields)
  have "active_rows w d' + cnt (unpersisted_player_counts d) w \<le> cnt (active_player_counts ?d) w \<and>
      cnt (active_player_counts ?d) w \<le> MAX_CONNECTIONS_PER_PLAY_KEY" for w
    using le(1,2) [of w] rows [of w] room
    by (cases "pl_active r"; cases "pl_active p"; cases "pl_viewer_id r = w"; cases "pl_viewer_id p = w")
      (simp_all add: settle_counts_fields counts split: if_splits, arith+)
  then show ?thesis by (simp add: players_ok_def act ids settle_counts_fields(1,2) unp)
qed

lemma update_refused_ok:
  assumes ok: "players_ok d" and rows: "player_rows d' = player_rows d"
    and unp: "unpersisted_player_counts d' = unpersisted_player_counts d"
    and counts: "\<And>w. cnt (active_player_counts d') w = cnt (active_player_counts d) w + (if res \<and> w = pl_viewer_id p then 1 else 0)"
  shows "players_ok (settle_counts False res cur p d')"
  using players_okD [OF ok] active_rows_cong [of "settle_counts False res cur p d'" d]
  by (simp add: players_ok_def settle_counts_fields rows unp counts)

lemma player_update_ok: "players_ok d \<Longrightarrow> players_ok (snd (player_update rid p d))"
proof -
  assume ok0: "players_ok d"
  define e where "e = d\<lparr>pending_players := hm_remove rid (pending_players d)\<rparr>"
  have ok: "players_ok e" by (rule players_ok_same [OF ok0]) (simp_all add: e_def)
  define cur where "cur = map_option (\<lambda>r. (pl_active r, pl_viewer_id r)) (List.find (\<lambda>r. pl_id r = rid) (player_rows e))"
  define res where "res \<longleftrightarrow> pl_active p \<and> cur \<noteq> Some (True, pl_viewer_id p)"
  define f where "f = (if res then snd (player_count_try_incr (pl_viewer_id p) e) else e)"
  let ?full = "res \<and> \<not> cnt (active_player_counts e) (pl_viewer_id p) < MAX_CONNECTIONS_PER_PLAY_KEY"
  let ?upd = "update_player_rows rid p f"
  have eq: "snd (player_update rid p d) =
      (if \<not> fits_i64 (pl_bytes_out p) then d else if pl_active p \<and> pl_viewer_id p = [] then e
       else if ?full then f else settle_counts (0 < fst ?upd) res cur p (snd ?upd))"
    unfolding player_update_def Let_def e_def [symmetric] cur_def [symmetric]
    by (simp add: res_def f_def split_beta count_ops_fields)
  have rows: "player_rows f = player_rows e" and unp: "unpersisted_player_counts f = unpersisted_player_counts e"
    and ids: "distinct (map pl_id (player_rows f))"
    using players_okD(3) [OF ok] by (simp_all add: f_def count_ops_fields)
  have counts: "cnt (active_player_counts f) w = cnt (active_player_counts e) w + (if res \<and> w = pl_viewer_id p then 1 else 0)"
    if "\<not> ?full" for w using that by (simp add: f_def count_ops_fields cnt_try_incr)
  have full: "players_ok f" if ?full using that players_ok_incr_full [OF ok] by (simp add: f_def)
  have "players_ok (settle_counts (0 < fst ?upd) res cur p (snd ?upd))" if room: "\<not> ?full"
  proof (cases "List.find (\<lambda>r. pl_id r = rid) (player_rows f) = None \<or> \<not> has_stream f (pl_stream_id p)")
    case True
    then show ?thesis
      using update_refused_ok [OF ok rows unp, of res p] counts [OF room] by (simp add: update_player_rows_none)
  next
    case False
    then obtain r where r: "List.find (\<lambda>r. pl_id r = rid) (player_rows f) = Some r" and fk: "has_stream f (pl_stream_id p)"
      by auto
    have cur: "cur = Some (pl_active r, pl_viewer_id r)" using r by (simp add: cur_def rows)
    obtain d' where d': "?upd = (1, d')" "distinct (map pl_id (player_rows d'))"
      "\<And>w. active_rows w d' + holds r w = active_rows w f + holds p w"
      "active_player_counts d' = active_player_counts f" "unpersisted_player_counts d' = unpersisted_player_counts f"
      using update_player_rows_some [OF ids r fk] by metis
    have "players_ok (settle_counts True res (Some (pl_active r, pl_viewer_id r)) p d')"
      using d' room r counts [OF room]
      by (intro update_written_ok [OF ok, of rid]) (auto simp: rows unp active_rows_cong [OF rows] res_def cur)
    then show ?thesis by (simp add: d' cur)
  qed
  then show ?thesis using ok0 ok full unfolding eq by simp
qed

lemma write_player_stats_ok:
  assumes ok: "players_ok d" shows "players_ok (snd (write_player_stats rid p d))"
proof -
  let ?d = "snd (write_player_stats rid p d)"
  have "active_rows w ?d = active_rows w d" for w
    by (simp add: active_rows_def write_player_stats_def filter_map comp_def)
      (auto intro!: arg_cong [where f = length] filter_cong)
  moreover have "map pl_id (player_rows ?d) = map pl_id (player_rows d)"
    by (simp add: write_player_stats_def comp_def if_distrib cong: if_cong)
  ultimately show ?thesis using ok by (simp add: write_player_stats_def players_ok_def)
qed

lemma write_publisher_stats_players: "players_ok d \<Longrightarrow> players_ok (snd (write_publisher_stats rid p d))"
  by (erule players_ok_same) (simp_all add: write_publisher_stats_def)

lemma flush_players_ok: "players_ok d \<Longrightarrow> players_ok (snd (flush_pending_stats d))"
proof -
  assume ok: "players_ok d"
  have pubs: "players_ok e \<Longrightarrow> players_ok (foldl (\<lambda>d (rid, p). snd (write_publisher_stats rid p d)) e xs)" for e xs
    by (induction xs arbitrary: e) (auto simp: write_publisher_stats_players)
  have plays: "players_ok e \<Longrightarrow> players_ok (foldl (\<lambda>d (rid, p). snd (write_player_stats rid p d)) e xs)" for e xs
    by (induction xs arbitrary: e) (auto simp: write_player_stats_ok)
  have "players_ok (d\<lparr>pending_publishers := [], pending_players := []\<rparr>)" by (rule players_ok_same [OF ok]) simp_all
  then show ?thesis using ok pubs plays by (simp add: flush_pending_stats_def)
qed

text \<open>
  What a server does to the player table. A reserved row is inserted, and a reservation given back, only by the
  connection that holds the reservation.
\<close>

inductive player_step :: "db \<Rightarrow> db \<Rightarrow> bool" where
  acquire: "player_step d (snd (player_try_acquire p d))"
| reserve: "player_step d (snd (player_reserve vid d))"
| insert_reserved: "0 < cnt (unpersisted_player_counts d) (pl_viewer_id p) \<Longrightarrow> player_step d (snd (player_insert_reserved p d))"
| cancel: "0 < cnt (unpersisted_player_counts d) vid \<Longrightarrow> player_step d (player_cancel_reservation vid d)"
| update: "player_step d (snd (player_update rid p d))"
| stats: "player_step d (snd (player_update_stats rid p d))"
| queue: "player_step d (queue_player_stats rid p d)"
| flush: "player_step d (snd (flush_pending_stats d))"
| remove: "player_step d (player_remove rid d)"
| deactivate: "player_step d (players_deactivate_for_viewer vid d)"
| stream_deleted: "player_step d (snd (stream_delete_if_pending sid d))"

lemma player_step_ok: "player_step d d' \<Longrightarrow> players_ok d \<Longrightarrow> players_ok d'"
proof (induction rule: player_step.induct)
  case (queue d rid p)
  then show ?case by (rule players_ok_same) (simp_all add: queue_player_stats_def)
next
  case (remove d rid)
  then show ?case by (rule players_ok_filter) (simp_all add: player_remove_def)
next
  case (stream_deleted d sid)
  then show ?case
    by (rule players_ok_filter) (simp_all add: stream_delete_if_pending_def delete_stream_rows_def bump_def Let_def)
qed (simp_all add: player_try_acquire_ok player_reserve_ok player_insert_reserved_ok player_cancel_ok player_update_ok
    player_update_stats_def split_beta Let_def write_player_stats_ok flush_players_ok players_deactivate_ok)

definition demo_player :: "string \<Rightarrow> player" where
  "demo_player rid = \<lparr>pl_id = rid, pl_stream_id = ''s'', pl_viewer_id = ''v'', pl_app = ''live'', pl_stream_name = ''s'',
     pl_bytes_out = 0, pl_bitrate_kbps = 0, pl_rtt_ms = 0, pl_connected_at = 0, pl_active = True\<rparr>"




end
