(* ===== verification/Raft_Command.thy ===== *)
theory Raft_Command
  imports Sessions
begin

text \<open>
  The commands replicated through Raft (\<open>src/src/cluster/command.rs\<close>) and what a node does to its
  tables when it applies one (\<open>SqliteStateMachine::apply_command\<close> in
  \<open>src/src/cluster/raft/state_machine.rs\<close>). Next to it stands the coordinator of
  \<open>src/src/state.rs\<close>, whose standalone branch performs the same operations without Raft.
\<close>

section \<open>Commands, responses, effects\<close>

datatype cluster_command =
    CreateStream stream stream_viewer string
  | BeginDeleteStream string "int option" "string option"
  | FinalizeDeleteStream string
  | SetStreamEnabled string bool
  | CreateViewer stream_viewer
  | DeleteViewer string string
  | SetApiToken string
  | AcquireStreamOwner string u64 u64 int
  | ReleaseStreamOwner string u64
  | ReleaseOwnersForNode u64 u64
  | SeedFromStandalone "stream list" "stream_viewer list" "(string \<times> string) list" "string option" "string list"
  | SetClusterId string

datatype cluster_response =
    RespOk
  | RespDuplicate
  | RespNotFound
  | RespConflict
  | OwnerEpoch u64
  | Released u64
  | RespError string

datatype state_effect =
    DrainStream string
  | ClearDrainStream string
  | RevokeViewer string
  | ApiToken string
  | OwnershipChanged

text \<open>The default of \<open>max_epoch\<close> for entries written before the field existed.\<close>

definition unbounded_owners_epoch :: u64 where
  "unbounded_owners_epoch = - 1"

definition requires_admin_proof :: "cluster_command \<Rightarrow> bool" where
  "requires_admin_proof cmd = True"

datatype coord_error = CoordDuplicate | CoordNotFound | CoordConflict | CoordDb | CoordCluster string

fun into_coord_result :: "cluster_response \<Rightarrow> coord_error + unit" where
  "into_coord_result RespOk = Inr ()"
| "into_coord_result (OwnerEpoch e) = Inr ()"
| "into_coord_result (Released i) = Inr ()"
| "into_coord_result RespDuplicate = Inl CoordDuplicate"
| "into_coord_result RespNotFound = Inl CoordNotFound"
| "into_coord_result RespConflict = Inl CoordConflict"
| "into_coord_result (RespError msg) = Inl (CoordCluster msg)"

definition into_owner_epoch :: "cluster_response \<Rightarrow> coord_error + u64" where
  "into_owner_epoch r =
     (case r of
        OwnerEpoch e \<Rightarrow> Inr e
      | RespOk \<Rightarrow> Inl (CoordCluster ''missing owner epoch'')
      | other \<Rightarrow> (case into_coord_result other of Inl e \<Rightarrow> Inl e | Inr _ \<Rightarrow> Inr 0))"

section \<open>Applying a command\<close>

text \<open>The two loops of \<open>SeedFromStandalone\<close>; an error leaves what was written before it.\<close>

fun seed_streams :: "(string, string) hmap \<Rightarrow> stream list \<Rightarrow> db \<Rightarrow> db" where
  "seed_streams tokens [] d = d"
| "seed_streams tokens (s # ss) d =
     (let token = (case hm_get tokens (s_id s) of Some t \<Rightarrow> t | None \<Rightarrow> legacy_delete_token (s_id s) (s_publish_key s))
      in case stream_insert_only_with_token s (Some token) [] d of
           Inr d' \<Rightarrow> seed_streams tokens ss d'
         | Inl _ \<Rightarrow> seed_streams tokens ss d)"

fun seed_viewers :: "stream_viewer list \<Rightarrow> db \<Rightarrow> bool \<times> db" where
  "seed_viewers [] d = (True, d)"
| "seed_viewers (v # vs) d =
     (case viewer_add v d of
        Inr d' \<Rightarrow> seed_viewers vs d'
      | Inl ViewerDuplicate \<Rightarrow> seed_viewers vs d
      | Inl _ \<Rightarrow> (False, d))"

definition seed_from_standalone ::
    "stream list \<Rightarrow> stream_viewer list \<Rightarrow> (string \<times> string) list \<Rightarrow> string option \<Rightarrow> string list \<Rightarrow> db \<Rightarrow>
     cluster_response \<times> state_effect list \<times> db" where
  "seed_from_standalone streams viewers delete_tokens api_token pending d =
     (let d1 = seed_streams (collect_map delete_tokens) streams d;
          (ok, d2) = seed_viewers viewers d1
      in if \<not> ok then (RespError ''viewer_add failed during SeedFromStandalone'', [], d2)
         else
           let d3 = (case api_token of Some t \<Rightarrow> token_replace t d2 | None \<Rightarrow> d2);
               d4 = foldl (\<lambda>d sid. snd (stream_disable sid d)) d3 pending
           in (RespOk, (case api_token of Some t \<Rightarrow> [ApiToken t] | None \<Rightarrow> []) @ map DrainStream pending, d4))"

definition delete_viewer_fenced :: "string \<Rightarrow> string \<Rightarrow> db \<Rightarrow> cluster_response \<times> state_effect list \<times> db" where
  "delete_viewer_fenced sid vid d =
     (let viewers = viewer_list sid d
      in if length viewers = 1 \<and> list_ex (\<lambda>v. v_id v = vid) viewers then (RespConflict, [], d)
         else if (case stream_get sid d of
                    LookupOk s \<Rightarrow> list_ex (\<lambda>v. v_id v = vid \<and> v_play_key v = s_play_key s) viewers
                  | _ \<Rightarrow> False) then (RespConflict, [], d)
         else case viewer_delete sid vid d of
           (True, d') \<Rightarrow> (RespOk, [RevokeViewer vid], players_deactivate_for_viewer vid d')
         | (False, d') \<Rightarrow> (RespNotFound, [], d'))"

fun apply_command :: "cluster_command \<Rightarrow> db \<Rightarrow> cluster_response \<times> state_effect list \<times> db" where
  "apply_command (CreateStream s viewer given) d =
     (let token = (if given = [] then legacy_delete_token (s_id s) (s_publish_key s) else given)
      in case stream_add_with_viewer_with_token s viewer token d of
           Inr d' \<Rightarrow> (RespOk, [], d')
         | Inl StreamDuplicate \<Rightarrow> (RespDuplicate, [], d)
         | Inl StreamDb \<Rightarrow> (RespError ''db'', [], d))"
| "apply_command (BeginDeleteStream sid expected_created_at expected_token) d =
     (case stream_disable_expecting sid expected_created_at expected_token d of
        (Disabled, d') \<Rightarrow> (RespOk, [DrainStream sid], d')
      | (DisableMissing, d') \<Rightarrow> (RespNotFound, [], d')
      | (DisableStale, d') \<Rightarrow> (RespConflict, [], d'))"
| "apply_command (FinalizeDeleteStream sid) d =
     (case stream_delete_if_pending sid d of
        (True, d') \<Rightarrow> (RespOk, [ClearDrainStream sid], d')
      | (False, d') \<Rightarrow>
          (case stream_get sid d' of
             Missing \<Rightarrow> (RespNotFound, [], d')
           | LookupFailed \<Rightarrow> (RespError ''db'', [], d')
           | LookupOk _ \<Rightarrow> (RespConflict, [], d')))"
| "apply_command (SetStreamEnabled sid enabled) d =
     (case stream_set_enabled sid enabled d of
        (True, d') \<Rightarrow> (RespOk, [], d')
      | (False, d') \<Rightarrow>
          (case stream_get sid d' of Missing \<Rightarrow> (RespNotFound, [], d') | _ \<Rightarrow> (RespError ''db'', [], d')))"
| "apply_command (CreateViewer v) d =
     (case viewer_add v d of
        Inr d' \<Rightarrow> (RespOk, [], d')
      | Inl ViewerDuplicate \<Rightarrow> (RespDuplicate, [], d)
      | Inl ParentUnavailable \<Rightarrow> (RespConflict, [], d)
      | Inl ViewerDb \<Rightarrow> (RespError ''db'', [], d))"
| "apply_command (DeleteViewer sid vid) d = delete_viewer_fenced sid vid d"
| "apply_command (SetApiToken token) d = (RespOk, [ApiToken token], token_replace token d)"
| "apply_command (AcquireStreamOwner sid node_id epoch acquired_at) d =
     (case stream_owner_acquire sid node_id epoch acquired_at d of
        Inr (ep, d') \<Rightarrow> (OwnerEpoch ep, [], d')
      | Inl OwnerConflict \<Rightarrow> (RespConflict, [], d)
      | Inl OwnerNotFound \<Rightarrow> (RespNotFound, [], d)
      | Inl OwnerDb \<Rightarrow> (RespError ''db'', [], d))"
| "apply_command (ReleaseStreamOwner sid epoch) d =
     (RespOk, [OwnershipChanged], snd (stream_owner_release sid epoch d))"
| "apply_command (ReleaseOwnersForNode node_id max_epoch) d =
     (RespOk, [OwnershipChanged], snd (stream_owners_release_for_node node_id max_epoch d))"
| "apply_command (SeedFromStandalone streams viewers delete_tokens api_token pending) d =
     seed_from_standalone streams viewers delete_tokens api_token pending d"
| "apply_command (SetClusterId cid) d = (RespOk, [], setting_set ''cluster_id'' cid d)"

end
