(* ===== verification/State_Machine.thy ===== *)
theory State_Machine
  imports Raft_Command "HOL-Library.Option_ord"
begin

text \<open>
  The Raft state machine over the database (\<open>src/src/cluster/raft/state_machine.rs\<close>): applying log
  entries, the position it has reached, building, installing and publishing snapshots, and
  restarting from disk.

  What is stored as JSON in the \<open>raft_meta\<close> and \<open>raft_snapshots\<close> tables is kept here as the value
  that was written; only the payload of a snapshot, which travels between nodes, is bytes, and its
  encoder and decoder are arguments. The membership of the Raft library is a type parameter.
\<close>

section \<open>Log positions\<close>

text \<open>A log id is ordered by the leader (term, then node) that wrote it and then by its index.\<close>

datatype log_id = LogId (lid_term: u64) (lid_node: u64) (lid_index: u64)

instantiation log_id :: linorder
begin

definition less_eq_log_id :: "log_id \<Rightarrow> log_id \<Rightarrow> bool" where
  "less_eq_log_id a b \<longleftrightarrow> (lid_term a, lid_node a, lid_index a) \<le> (lid_term b, lid_node b, lid_index b)"

definition less_log_id :: "log_id \<Rightarrow> log_id \<Rightarrow> bool" where
  "less_log_id a b \<longleftrightarrow> (lid_term a, lid_node a, lid_index a) < (lid_term b, lid_node b, lid_index b)"

instance
  by standard (auto simp: less_eq_log_id_def less_log_id_def log_id.expand)

end

definition log_id_ahead_of_boundary :: "log_id option \<Rightarrow> log_id option \<Rightarrow> bool" where
  "log_id_ahead_of_boundary current boundary =
     (case (current, boundary) of
        (Some c, Some b) \<Rightarrow> b < c
      | (Some _, None) \<Rightarrow> True
      | _ \<Rightarrow> False)"

section \<open>Snapshots of the tables\<close>

record app_snapshot =
  snap_streams :: "stream list"
  snap_viewers :: "stream_viewer list"
  snap_owners :: "stream_owner list"
  snap_api_token :: "string option"
  snap_cluster_id :: "string option"
  snap_last_applied_index :: "u64 option"
  snap_pending :: "string list"
  snap_delete_tokens :: "(string \<times> string) list"

definition read_replicated_snapshot ::
    "db \<Rightarrow> stream list \<times> stream_viewer list \<times> stream_owner list \<times> string option \<times> string option \<times> string list" where
  "read_replicated_snapshot d =
     (stream_list d, viewer_list_all d, stream_owner_list d, nonempty (hm_get (settings d) ''api_token''),
      nonempty (hm_get (settings d) ''cluster_id''), stream_ids_pending_delete d)"

definition build_app_snapshot :: "log_id option \<Rightarrow> db \<Rightarrow> app_snapshot" where
  "build_app_snapshot last_applied d =
     (let (streams, viewers, owners, api_token, cluster_id, pending) = read_replicated_snapshot d
      in \<lparr>snap_streams = streams, snap_viewers = viewers, snap_owners = owners, snap_api_token = api_token,
          snap_cluster_id = cluster_id, snap_last_applied_index = map_option lid_index last_applied,
          snap_pending = pending, snap_delete_tokens = stream_delete_tokens d\<rparr>)"

text \<open>
  The transaction of \<open>install_app_snapshot\<close>. The rows of local sessions are read first, the three
  replicated tables are emptied (which cascades to the sessions), the snapshot is inserted, and the
  session rows whose parents are still there are inserted again. Any constraint that fails aborts the
  transaction.
\<close>

definition wipe_replicated :: "db \<Rightarrow> db" where
  "wipe_replicated d = snd (delete_stream_rows (\<lambda>_. True) (d\<lparr>owner_rows := [], viewer_rows := []\<rparr>))"

definition restore_tokens :: "(string \<times> string) list \<Rightarrow> db \<Rightarrow> db" where
  "restore_tokens tokens d =
     backfill_delete_tokens
       (foldl (\<lambda>d (sid, token). snd (update_stream_rows (\<lambda>r. s_id r = sid) (\<lambda>r. r\<lparr>delete_token := token\<rparr>) d)) d tokens)"

definition restore_pending :: "string list \<Rightarrow> db \<Rightarrow> db" where
  "restore_pending pending d =
     foldl (\<lambda>d sid. snd (update_stream_rows (\<lambda>r. s_id r = sid) (\<lambda>r. r\<lparr>pending_delete := True\<rparr>) d)) d pending"

definition restore_settings :: "app_snapshot \<Rightarrow> db \<Rightarrow> db" where
  "restore_settings snap d =
     (let d1 = (case snap_api_token snap of
                  Some token \<Rightarrow> setting_set ''api_token'' token d
                | None \<Rightarrow> d\<lparr>settings := hm_remove ''api_token'' (settings d)\<rparr>)
      in case snap_cluster_id snap of Some cid \<Rightarrow> setting_set ''cluster_id'' cid d1 | None \<Rightarrow> d1)"

text \<open>\<open>i64::try_from(n).unwrap_or(i64::MAX)\<close>\<close>

definition clamp_counter :: "u64 \<Rightarrow> u64" where
  "clamp_counter n = (if fits_i64 n then n else 2 ^ 63 - 1)"

definition install_tx :: "app_snapshot \<Rightarrow> db \<Rightarrow> sql_error + db" where
  "install_tx snap d =
     (case fold_res (\<lambda>s. insert_stream_row (new_stream_row s [])) (snap_streams snap) (wipe_replicated d) of
        Inl e \<Rightarrow> Inl e
      | Inr d1 \<Rightarrow>
      case fold_res insert_viewer_row (snap_viewers snap)
             (restore_pending (snap_pending snap) (restore_tokens (snap_delete_tokens snap) d1)) of
        Inl e \<Rightarrow> Inl e
      | Inr d2 \<Rightarrow>
      case fold_res (\<lambda>p. insert_publisher_row (p\<lparr>pub_bytes_in := clamp_counter (pub_bytes_in p)\<rparr>))
             (filter (\<lambda>p. has_stream d2 (pub_stream_id p)) (publisher_rows d)) d2 of
        Inl e \<Rightarrow> Inl e
      | Inr d3 \<Rightarrow>
      case fold_res (\<lambda>p. insert_player_row (p\<lparr>pl_bytes_out := clamp_counter (pl_bytes_out p)\<rparr>))
             (filter (\<lambda>p. has_stream d2 (pl_stream_id p) \<and> viewer_exists (pl_viewer_id p) d2) (player_rows d)) d3 of
        Inl e \<Rightarrow> Inl e
      | Inr d4 \<Rightarrow>
      case fold_res insert_stat_row (filter (\<lambda>s. has_stream d2 (st_stream_id s)) (stat_rows d)) d4 of
        Inl e \<Rightarrow> Inl e
      | Inr d5 \<Rightarrow>
      case fold_res insert_owner_row (snap_owners snap) d5 of
        Inl e \<Rightarrow> Inl e
      | Inr d6 \<Rightarrow> Inr (restore_settings snap d6))"

text \<open>Which local sessions the snapshot no longer authorises, in the order the code collects them.\<close>

definition drained_streams :: "app_snapshot \<Rightarrow> db \<Rightarrow> string list" where
  "drained_streams snap d =
     (let kept = (\<lambda>sid. list_ex (\<lambda>s. s_id s = sid) (snap_streams snap))
      in snap_pending snap @
         map pub_stream_id (filter (\<lambda>p. \<not> kept (pub_stream_id p)) (publisher_rows d)) @
         map pl_stream_id (filter (\<lambda>p. \<not> kept (pl_stream_id p)) (player_rows d)))"

definition revoked_viewers :: "app_snapshot \<Rightarrow> db \<Rightarrow> string list" where
  "revoked_viewers snap d =
     map pl_viewer_id (filter (\<lambda>p. list_ex (\<lambda>s. s_id s = pl_stream_id p) (snap_streams snap) \<and>
       \<not> list_ex (\<lambda>v. v_id v = pl_viewer_id p) (snap_viewers snap)) (player_rows d))"

definition dropped_player_viewers :: "app_snapshot \<Rightarrow> db \<Rightarrow> string list" where
  "dropped_player_viewers snap d =
     map pl_viewer_id (filter (\<lambda>p. pl_active p \<and>
       \<not> (list_ex (\<lambda>s. s_id s = pl_stream_id p) (snap_streams snap) \<and>
          list_ex (\<lambda>v. v_id v = pl_viewer_id p) (snap_viewers snap))) (player_rows d))"

definition install_app_snapshot :: "app_snapshot \<Rightarrow> db \<Rightarrow> sql_error + (state_effect list \<times> db)" where
  "install_app_snapshot snap d =
     (case install_tx snap (bump 1 d) of
        Inl e \<Rightarrow> Inl e
      | Inr d' \<Rightarrow>
          Inr (map DrainStream (drained_streams snap d) @ map RevokeViewer (revoked_viewers snap d) @
               [ApiToken (case snap_api_token snap of Some t \<Rightarrow> t | None \<Rightarrow> []), OwnershipChanged],
               foldl (\<lambda>d vid. players_deactivate_for_viewer vid d) d' (dropped_player_viewers snap d)))"

section \<open>The machine\<close>

datatype 'm entry_payload = Blank | Normal cluster_command | Membership 'm

record 'm raft_entry =
  e_log_id :: log_id
  e_payload :: "'m entry_payload"

text \<open>\<open>StoredMembership\<close>: a membership and the entry that set it.\<close>

type_synonym 'm stored_membership = "log_id option \<times> 'm"

text \<open>The id of a snapshot prints the position it covers and a running number.\<close>

record 'm snapshot_meta =
  meta_last_log_id :: "log_id option"
  meta_membership :: "'m stored_membership"
  meta_snapshot_id :: "log_id option \<times> u64"

type_synonym 'm stored_snapshot = "'m snapshot_meta \<times> bytes"

text \<open>
  \<open>SqliteStateMachine\<close>: the database, what is held in memory, the effects sent so far, and the rows of
  \<open>raft_meta\<close> and \<open>raft_snapshots\<close>.
\<close>

record 'm machine =
  sm_db :: db
  last_applied :: "log_id option"
  last_membership :: "'m stored_membership"
  current_snapshot :: "'m stored_snapshot option"
  snapshot_idx :: u64
  sent_effects :: "state_effect list"
  meta_last_applied :: "log_id option"
  meta_last_membership :: "'m stored_membership option"
  stored_snapshot_row :: "'m stored_snapshot option"

text \<open>\<open>new\<close> on an opened database; the membership of a fresh node is an argument.\<close>

definition machine_new :: "'m \<Rightarrow> 'm machine \<Rightarrow> 'm machine" where
  "machine_new mem0 m =
     m\<lparr>sm_db := bump 2 (sm_db m), last_applied := meta_last_applied m,
       last_membership := (case meta_last_membership m of Some s \<Rightarrow> s | None \<Rightarrow> (None, mem0)),
       current_snapshot := None, snapshot_idx := 0, sent_effects := []\<rparr>"

definition emit_effects :: "state_effect list \<Rightarrow> 'm machine \<Rightarrow> 'm machine" where
  "emit_effects fx m = m\<lparr>sent_effects := sent_effects m @ fx\<rparr>"

definition persist_applied_tx :: "log_id \<Rightarrow> 'm stored_membership option \<Rightarrow> 'm machine \<Rightarrow> 'm machine" where
  "persist_applied_tx lid mem m =
     m\<lparr>sm_db := bump 1 (sm_db m), meta_last_applied := Some lid,
       meta_last_membership := (case mem of Some s \<Rightarrow> Some s | None \<Rightarrow> meta_last_membership m),
       last_applied := Some lid\<rparr>"

section \<open>Applying log entries\<close>

definition apply_normal :: "u64 \<Rightarrow> cluster_command \<Rightarrow> db \<Rightarrow> cluster_response \<times> state_effect list \<times> db" where
  "apply_normal index cmd d =
     (case cmd of
        AcquireStreamOwner sid node_id _ acquired_at \<Rightarrow>
          (case stream_owner_acquire sid node_id (max index 1) acquired_at d of
             Inr (ep, d') \<Rightarrow> (OwnerEpoch ep, [OwnershipChanged], d')
           | Inl OwnerConflict \<Rightarrow> (RespConflict, [], d)
           | Inl OwnerNotFound \<Rightarrow> (RespNotFound, [], d)
           | Inl OwnerDb \<Rightarrow> (RespError ''db'', [], d))
      | ReleaseOwnersForNode _ _ \<Rightarrow>
          (case apply_command cmd d of
             (RespOk, fx, d') \<Rightarrow> (Released (max index 1), fx, d')
           | other \<Rightarrow> other)
      | other \<Rightarrow> apply_command other d)"

text \<open>One entry: the storage error, if there is one, and otherwise the response.\<close>

definition apply_entry :: "'m raft_entry \<Rightarrow> 'm machine \<Rightarrow> (string + cluster_response) \<times> 'm machine" where
  "apply_entry e m =
     (case e_payload e of
        Blank \<Rightarrow> (Inr RespOk, persist_applied_tx (e_log_id e) None m)
      | Normal cmd \<Rightarrow>
          (let (resp, fx, d') = apply_normal (lid_index (e_log_id e)) cmd (sm_db m);
               m' = emit_effects fx (m\<lparr>sm_db := d'\<rparr>)
           in case resp of
                RespError msg \<Rightarrow> (Inl msg, m')
              | _ \<Rightarrow> (Inr resp, persist_applied_tx (e_log_id e) None m'))
      | Membership mem \<Rightarrow>
          (let stored = (Some (e_log_id e), mem)
           in (Inr RespOk, (persist_applied_tx (e_log_id e) (Some stored) m)\<lparr>last_membership := stored\<rparr>)))"

fun apply_entries :: "'m raft_entry list \<Rightarrow> 'm machine \<Rightarrow> (string + cluster_response list) \<times> 'm machine" where
  "apply_entries [] m = (Inr [], m)"
| "apply_entries (e # es) m =
     (case apply_entry e m of
        (Inl msg, m') \<Rightarrow> (Inl msg, m')
      | (Inr resp, m') \<Rightarrow>
          (case apply_entries es m' of
             (Inl msg, m'') \<Rightarrow> (Inl msg, m'')
           | (Inr resps, m'') \<Rightarrow> (Inr (resp # resps), m'')))"

definition applied_state :: "'m machine \<Rightarrow> log_id option \<times> 'm stored_membership" where
  "applied_state m = (last_applied m, last_membership m)"

section \<open>Building a snapshot\<close>

text \<open>
  The three parts of one turn of the loop in \<open>build_snapshot\<close>. The capture and the publication run under
  \<open>apply_lock\<close>; between them, unless the lock is kept, other tasks may apply entries or install a snapshot.
\<close>

definition capture :: "'m machine \<Rightarrow> app_snapshot \<times> log_id option \<times> 'm stored_membership" where
  "capture m = (build_app_snapshot (last_applied m) (sm_db m), last_applied m, last_membership m)"

definition number_snapshot ::
    "(app_snapshot \<Rightarrow> bytes) \<Rightarrow> app_snapshot \<times> log_id option \<times> 'm stored_membership \<Rightarrow> 'm machine \<Rightarrow>
     'm stored_snapshot \<times> 'm machine" where
  "number_snapshot encode cap m =
     (case cap of (data, applied, membership) \<Rightarrow>
        let idx = snapshot_idx m + 1
        in ((\<lparr>meta_last_log_id = applied, meta_membership = membership, meta_snapshot_id = (applied, idx)\<rparr>, encode data),
            m\<lparr>snapshot_idx := idx\<rparr>))"

text \<open>None: the machine has moved on, the loop turns again.\<close>

definition publish :: "'m stored_snapshot \<Rightarrow> 'm machine \<Rightarrow> 'm stored_snapshot option \<times> 'm machine" where
  "publish snap m =
     (let fresh = (if log_id_ahead_of_boundary (last_applied m) (meta_last_log_id (fst snap)) then (None, m)
                   else (Some snap, m\<lparr>current_snapshot := Some snap, sm_db := bump 1 (sm_db m),
                                      stored_snapshot_row := Some snap\<rparr>))
      in case current_snapshot m of
           Some existing \<Rightarrow>
             if meta_last_log_id (fst snap) < meta_last_log_id (fst existing) then (Some existing, m) else fresh
         | None \<Rightarrow> fresh)"

definition MAX_UNLOCKED_ATTEMPTS :: nat where
  "MAX_UNLOCKED_ATTEMPTS = 2"

text \<open>
  The loop. What other tasks do is an argument: \<open>before r\<close> is what runs while turn \<open>r\<close> waits for the lock,
  \<open>during r\<close> what runs while its capture is encoded without the lock.
\<close>

partial_function (option) build_loop ::
    "(app_snapshot \<Rightarrow> bytes) \<Rightarrow> (nat \<Rightarrow> 'm machine \<Rightarrow> 'm machine) \<Rightarrow> (nat \<Rightarrow> 'm machine \<Rightarrow> 'm machine) \<Rightarrow> nat \<Rightarrow>
     'm machine \<Rightarrow> ('m stored_snapshot \<times> 'm machine) option" where
  "build_loop encode before during retries m =
     (let m1 = before retries m;
          cap = capture m1;
          m2 = (if retries < MAX_UNLOCKED_ATTEMPTS then during retries m1 else m1);
          (snap, m3) = number_snapshot encode cap m2
      in case publish snap m3 of
           (Some s, m4) \<Rightarrow> Some (s, m4)
         | (None, m4) \<Rightarrow> build_loop encode before during (retries + 1) m4)"

definition build_snapshot ::
    "(app_snapshot \<Rightarrow> bytes) \<Rightarrow> (nat \<Rightarrow> 'm machine \<Rightarrow> 'm machine) \<Rightarrow> (nat \<Rightarrow> 'm machine \<Rightarrow> 'm machine) \<Rightarrow>
     'm machine \<Rightarrow> ('m stored_snapshot \<times> 'm machine) option" where
  "build_snapshot encode before during m = build_loop encode before during 0 m"

section \<open>Installing a snapshot\<close>

definition install_snapshot ::
    "(bytes \<Rightarrow> app_snapshot option) \<Rightarrow> 'm snapshot_meta \<Rightarrow> bytes \<Rightarrow> 'm machine \<Rightarrow> bool \<times> 'm machine" where
  "install_snapshot decode meta data m =
     (case decode data of
        None \<Rightarrow> (False, m)
      | Some app \<Rightarrow>
          (case install_app_snapshot app (sm_db m) of
             Inl _ \<Rightarrow> (False, m\<lparr>sm_db := bump 1 (sm_db m)\<rparr>)
           | Inr (fx, d') \<Rightarrow>
               (let m1 = (emit_effects fx (m\<lparr>sm_db := d'\<rparr>))\<lparr>last_membership := meta_membership meta\<rparr>;
                    m2 = (case meta_last_log_id meta of
                            Some lid \<Rightarrow> persist_applied_tx lid (Some (meta_membership meta)) m1
                          | None \<Rightarrow> m1\<lparr>sm_db := bump 1 (sm_db m1), meta_last_membership := Some (meta_membership meta),
                                        meta_last_applied := None, last_applied := None\<rparr>)
                in (True, m2\<lparr>current_snapshot := Some (meta, data), sm_db := bump 1 (sm_db m2),
                             stored_snapshot_row := Some (meta, data)\<rparr>))))"

definition get_current_snapshot :: "'m machine \<Rightarrow> 'm stored_snapshot option \<times> 'm machine" where
  "get_current_snapshot m =
     (case current_snapshot m of
        Some snap \<Rightarrow> (Some snap, m)
      | None \<Rightarrow>
          (let m1 = m\<lparr>sm_db := bump 1 (sm_db m)\<rparr>
           in case stored_snapshot_row m1 of
                Some snap \<Rightarrow> (Some snap, m1\<lparr>current_snapshot := Some snap\<rparr>)
              | None \<Rightarrow> (None, m1)))"

end
