(* ===== verification/Replicated_State.thy ===== *)
theory Replicated_State
  imports Raft_Command
begin

text \<open>
  What Raft replicates, as finite maps: streams and play keys by their id, owners by their stream,
  the API token and the identity of the cluster. The theory relates the tables of a node to these
  maps and gives each command its meaning on them; that the code implements this meaning is proved
  in the theory that follows.
\<close>

section \<open>Rows by their key\<close>

definition by_key :: "('r \<Rightarrow> 'k) \<Rightarrow> 'r list \<Rightarrow> 'k \<rightharpoonup> 'r" where
  "by_key f rows = map_of (map (\<lambda>r. (f r, r)) rows)"

named_theorems by_key_rules

lemma by_key_Nil [simp]: "by_key f [] = Map.empty"
  by (simp add: by_key_def)

lemma by_key_Cons: "by_key f (r # rows) = (by_key f rows)(f r \<mapsto> r)"
  by (simp add: by_key_def)

lemma by_key_find: "List.find (\<lambda>r. f r = k) rows = by_key f rows k"
  by (induction rows) (auto simp: by_key_Cons)

lemma by_key_SomeD: "by_key f rows k = Some r \<Longrightarrow> r \<in> set rows \<and> f r = k"
  by (auto simp: by_key_def dest: map_of_SomeD)

lemma by_key_None: "by_key f rows k = None \<longleftrightarrow> k \<notin> f ` set rows"
  by (simp add: by_key_def map_of_eq_None_iff image_image)

lemma by_key_mem: "distinct (map f rows) \<Longrightarrow> r \<in> set rows \<Longrightarrow> by_key f rows (f r) = Some r"
  by (induction rows) (auto simp: by_key_Cons rev_image_eqI)

lemma by_key_Some: "distinct (map f rows) \<Longrightarrow> by_key f rows k = Some r \<longleftrightarrow> r \<in> set rows \<and> f r = k"
  by (metis by_key_SomeD by_key_mem)

lemma ran_by_key: "distinct (map f rows) \<Longrightarrow> ran (by_key f rows) = set rows"
  by (auto simp: ran_def by_key_Some)

lemma by_key_snoc: "f n \<notin> f ` set rows \<Longrightarrow> by_key f (rows @ [n]) = (by_key f rows)(f n \<mapsto> n)"
  by (induction rows) (auto simp: by_key_Cons fun_upd_twist)

lemma by_key_map: "(\<And>r. f (g r) = f r) \<Longrightarrow> by_key f (map g rows) = (\<lambda>k. map_option g (by_key f rows k))"
  by (induction rows) (auto simp: by_key_Cons)

lemma by_key_filter:
  "distinct (map f rows) \<Longrightarrow>
   by_key f (filter P rows) = (\<lambda>k. case by_key f rows k of Some r \<Rightarrow> if P r then Some r else None | None \<Rightarrow> None)"
proof (induction rows)
  case (Cons r rows)
  from Cons.prems have "by_key f rows (f r) = None" by (simp add: by_key_None)
  with Cons show ?case by (auto simp: by_key_Cons)
qed simp

lemma by_key_permute:
  assumes "distinct (map f rows)" and "distinct (map f rows')" and "set rows' = set rows"
  shows "by_key f rows' = by_key f rows"
proof
  fix k
  have "by_key f rows' k = Some r \<longleftrightarrow> by_key f rows k = Some r" for r
    using assms by (simp add: by_key_Some)
  then show "by_key f rows' k = by_key f rows k" by (cases "by_key f rows k"; cases "by_key f rows' k") auto
qed

lemma by_key_sort: "distinct (map f rows) \<Longrightarrow> by_key f (sort_key g rows) = by_key f rows"
  by (rule by_key_permute) (auto simp: distinct_map)

lemma ball_neq_image: "(\<forall>r \<in> S. f r \<noteq> k) \<longleftrightarrow> k \<notin> f ` S"
  by auto

lemma bex_eq_image: "(\<exists>r \<in> S. f r = k) \<longleftrightarrow> k \<in> f ` S"
  by auto

lemmas as_image = ball_neq_image bex_eq_image

lemma list_ex_by_key: "distinct (map f rows) \<Longrightarrow> list_ex P rows \<longleftrightarrow> (\<exists>r \<in> ran (by_key f rows). P r)"
  by (simp add: ran_by_key list_ex_iff)

lemma list_ex_id: "list_ex (\<lambda>r. f r = k) rows \<longleftrightarrow> k \<in> dom (by_key f rows)"
  by (simp add: list_ex_iff domIff by_key_None as_image)

section \<open>The replicated state\<close>

record app_state =
  a_streams :: "string \<rightharpoonup> stream_row"
  a_viewers :: "string \<rightharpoonup> stream_viewer"
  a_owners :: "string \<rightharpoonup> stream_owner"
  a_token :: "string option"
  a_cluster :: "string option"

definition replicated :: "db \<Rightarrow> app_state" where
  "replicated d = \<lparr>a_streams = by_key s_id (stream_rows d), a_viewers = by_key v_id (viewer_rows d),
     a_owners = by_key o_stream_id (owner_rows d), a_token = token_get d, a_cluster = setting_get ''cluster_id'' d\<rparr>"

text \<open>The constraints of the schema on the replicated tables.\<close>

definition tables_ok :: "db \<Rightarrow> bool" where
  "tables_ok d \<longleftrightarrow>
     distinct (map s_id (stream_rows d)) \<and> distinct (map s_publish_key (stream_rows d)) \<and>
     distinct (map s_play_key (stream_rows d)) \<and> distinct (map s_stats_key (stream_rows d)) \<and>
     distinct (map v_id (viewer_rows d)) \<and> distinct (map v_play_key (viewer_rows d)) \<and>
     distinct (map o_stream_id (owner_rows d)) \<and>
     v_stream_id ` set (viewer_rows d) \<subseteq> s_id ` set (stream_rows d) \<and>
     o_stream_id ` set (owner_rows d) \<subseteq> s_id ` set (stream_rows d)"

section \<open>The meaning of a command\<close>

definition row_keys :: "'a stream_scheme \<Rightarrow> string set" where
  "row_keys s = {s_publish_key s, s_play_key s, s_stats_key s}"

definition key_used :: "app_state \<Rightarrow> string \<Rightarrow> bool" where
  "key_used A k \<longleftrightarrow> is_valid_access_key k \<and>
     ((\<exists>r \<in> ran (a_streams A). k \<in> row_keys r) \<or> (\<exists>v \<in> ran (a_viewers A). v_play_key v = k))"

definition stream_clash :: "app_state \<Rightarrow> stream \<Rightarrow> bool" where
  "stream_clash A s \<longleftrightarrow> (\<exists>k \<in> row_keys s. key_used A k) \<or> s_id s \<in> dom (a_streams A) \<or>
     (\<exists>r \<in> ran (a_streams A). s_publish_key r = s_publish_key s \<or> s_play_key r = s_play_key s \<or> s_stats_key r = s_stats_key s)"

definition viewer_clash :: "app_state \<Rightarrow> stream_viewer \<Rightarrow> bool" where
  "viewer_clash A v \<longleftrightarrow> v_id v \<in> dom (a_viewers A) \<or> (\<exists>w \<in> ran (a_viewers A). v_play_key w = v_play_key v)"

definition put_stream :: "stream \<Rightarrow> string \<Rightarrow> app_state \<Rightarrow> app_state" where
  "put_stream s token A = A\<lparr>a_streams := (a_streams A)(s_id s \<mapsto> new_stream_row s token)\<rparr>"

definition put_viewer :: "stream_viewer \<Rightarrow> app_state \<Rightarrow> app_state" where
  "put_viewer v A = A\<lparr>a_viewers := (a_viewers A)(v_id v \<mapsto> v)\<rparr>"

definition modify_stream :: "string \<Rightarrow> (stream_row \<Rightarrow> stream_row) \<Rightarrow> app_state \<Rightarrow> app_state" where
  "modify_stream sid f A = A\<lparr>a_streams := (a_streams A)(sid := map_option f (a_streams A sid))\<rparr>"

definition drop_stream :: "string \<Rightarrow> app_state \<Rightarrow> app_state" where
  "drop_stream sid A = A\<lparr>a_streams := (a_streams A)(sid := None),
     a_viewers := (\<lambda>k. case a_viewers A k of Some v \<Rightarrow> if v_stream_id v = sid then None else Some v | None \<Rightarrow> None),
     a_owners := (a_owners A)(sid := None)\<rparr>"

definition spec_add_viewer :: "stream_viewer \<Rightarrow> app_state \<Rightarrow> viewer_add_error + app_state" where
  "spec_add_viewer v A =
     (case a_streams A (v_stream_id v) of
        None \<Rightarrow> if key_used A (v_play_key v) then Inl ViewerDuplicate else Inl ParentUnavailable
      | Some r \<Rightarrow>
          if (if s_play_key r = v_play_key v then \<exists>w \<in> ran (a_viewers A). v_play_key w = v_play_key v
              else key_used A (v_play_key v)) then Inl ViewerDuplicate
          else if pending_delete r then Inl ParentUnavailable
          else if viewer_clash A v then Inl ViewerDuplicate
          else Inr (put_viewer v A))"

definition spec_seed_stream :: "(string, string) hmap \<Rightarrow> stream \<Rightarrow> app_state \<Rightarrow> app_state" where
  "spec_seed_stream tokens s A =
     (if stream_clash A s then A
      else put_stream s (case hm_get tokens (s_id s) of Some t \<Rightarrow> t
                         | None \<Rightarrow> legacy_delete_token (s_id s) (s_publish_key s)) A)"

fun spec_seed_viewers :: "stream_viewer list \<Rightarrow> app_state \<Rightarrow> bool \<times> app_state" where
  "spec_seed_viewers [] A = (True, A)"
| "spec_seed_viewers (v # vs) A =
     (case spec_add_viewer v A of
        Inr A' \<Rightarrow> spec_seed_viewers vs A'
      | Inl ViewerDuplicate \<Rightarrow> spec_seed_viewers vs A
      | Inl _ \<Rightarrow> (False, A))"

definition mark_deleted :: "stream_row \<Rightarrow> stream_row" where
  "mark_deleted r = r\<lparr>s_enabled := False, pending_delete := True\<rparr>"

definition viewers_of :: "app_state \<Rightarrow> string \<Rightarrow> string set" where
  "viewers_of A sid = {vid. \<exists>v. a_viewers A vid = Some v \<and> v_stream_id v = sid}"

definition is_default_viewer :: "app_state \<Rightarrow> string \<Rightarrow> string \<Rightarrow> bool" where
  "is_default_viewer A sid vid \<longleftrightarrow>
     (\<exists>r v. a_streams A sid = Some r \<and> a_viewers A vid = Some v \<and> v_play_key v = s_play_key r)"

fun spec_command :: "cluster_command \<Rightarrow> app_state \<Rightarrow> cluster_response \<times> app_state" where
  "spec_command (CreateStream s v token) A =
     (if v_stream_id v \<noteq> s_id s \<or> v_play_key v \<noteq> s_play_key s then (RespError ''db'', A)
      else if stream_clash A s then (RespDuplicate, A)
      else if viewer_clash A v then (RespError ''db'', A)
      else (RespOk, put_viewer v (put_stream s (if token = [] then legacy_delete_token (s_id s) (s_publish_key s) else token) A)))"
| "spec_command (BeginDeleteStream sid created_at token) A =
     (case a_streams A sid of
        None \<Rightarrow> (RespNotFound, A)
      | Some r \<Rightarrow> if matches_identity sid created_at token r then (RespOk, modify_stream sid mark_deleted A)
                  else (RespConflict, A))"
| "spec_command (FinalizeDeleteStream sid) A =
     (case a_streams A sid of
        None \<Rightarrow> (RespNotFound, A)
      | Some r \<Rightarrow> if pending_delete r then (RespOk, drop_stream sid A) else (RespConflict, A))"
| "spec_command (SetStreamEnabled sid enabled) A =
     (if sid \<in> dom (a_streams A)
      then (RespOk, modify_stream sid (\<lambda>r. r\<lparr>s_enabled := enabled, pending_delete := False\<rparr>) A)
      else (RespNotFound, A))"
| "spec_command (CreateViewer v) A =
     (case spec_add_viewer v A of
        Inr A' \<Rightarrow> (RespOk, A')
      | Inl ViewerDuplicate \<Rightarrow> (RespDuplicate, A)
      | Inl ParentUnavailable \<Rightarrow> (RespConflict, A)
      | Inl ViewerDb \<Rightarrow> (RespError ''db'', A))"
| "spec_command (DeleteViewer sid vid) A =
     (if vid \<notin> viewers_of A sid then (RespNotFound, A)
      else if viewers_of A sid = {vid} \<or> is_default_viewer A sid vid then (RespConflict, A)
      else (RespOk, A\<lparr>a_viewers := (a_viewers A)(vid := None)\<rparr>))"
| "spec_command (SetApiToken token) A = (RespOk, A\<lparr>a_token := nonempty (Some token)\<rparr>)"
| "spec_command (AcquireStreamOwner sid node_id epoch acquired_at) A =
     (case a_streams A sid of
        None \<Rightarrow> (RespNotFound, A)
      | Some r \<Rightarrow>
          if \<not> s_enabled r \<or> pending_delete r then (RespNotFound, A)
          else if \<exists>w. a_owners A sid = Some w \<and> o_owner_node_id w \<noteq> node_id then (RespConflict, A)
          else (OwnerEpoch epoch, A\<lparr>a_owners := (a_owners A)(sid \<mapsto>
                 \<lparr>o_stream_id = sid, o_owner_node_id = node_id, o_epoch = epoch, o_acquired_at = acquired_at\<rparr>)\<rparr>))"
| "spec_command (ReleaseStreamOwner sid epoch) A =
     (RespOk, if \<exists>w. a_owners A sid = Some w \<and> o_epoch w = epoch then A\<lparr>a_owners := (a_owners A)(sid := None)\<rparr> else A)"
| "spec_command (ReleaseOwnersForNode node_id max_epoch) A =
     (RespOk, A\<lparr>a_owners := (\<lambda>k. case a_owners A k of
        Some w \<Rightarrow> if o_owner_node_id w = node_id \<and> sint (o_epoch w) \<le> clamp_i64 max_epoch then None else Some w
      | None \<Rightarrow> None)\<rparr>)"
| "spec_command (SeedFromStandalone streams viewers delete_tokens api_token pending) A =
     (let A1 = fold (spec_seed_stream (collect_map delete_tokens)) streams A;
          (ok, A2) = spec_seed_viewers viewers A1
      in if \<not> ok then (RespError ''viewer_add failed during SeedFromStandalone'', A2)
         else (RespOk, fold (\<lambda>sid. modify_stream sid mark_deleted) pending
                (case api_token of Some t \<Rightarrow> A2\<lparr>a_token := nonempty (Some t)\<rparr> | None \<Rightarrow> A2)))"
| "spec_command (SetClusterId cid) A = (RespOk, A\<lparr>a_cluster := nonempty (Some cid)\<rparr>)"

end
