(* ===== verification/Raft_Refinement.thy ===== *)
theory Raft_Refinement
  imports Replicated_State
begin

text \<open>
  The tables of a node implement the replicated maps: every command keeps the constraints of the
  schema, does to the maps what it means, and answers what its meaning says.
\<close>

section \<open>Single operations\<close>

lemma tables_okD:
  assumes "tables_ok d"
  shows "distinct (map s_id (stream_rows d))" "distinct (map s_publish_key (stream_rows d))"
    "distinct (map s_play_key (stream_rows d))" "distinct (map s_stats_key (stream_rows d))"
    "distinct (map v_id (viewer_rows d))" "distinct (map v_play_key (viewer_rows d))"
    "distinct (map o_stream_id (owner_rows d))"
    "v_stream_id ` set (viewer_rows d) \<subseteq> s_id ` set (stream_rows d)"
    "o_stream_id ` set (owner_rows d) \<subseteq> s_id ` set (stream_rows d)"
  using assms by (simp_all add: tables_ok_def)

lemma replicated_simps [simp]:
  "a_streams (replicated d) = by_key s_id (stream_rows d)"
  "a_viewers (replicated d) = by_key v_id (viewer_rows d)"
  "a_owners (replicated d) = by_key o_stream_id (owner_rows d)"
  "a_token (replicated d) = token_get d"
  "a_cluster (replicated d) = setting_get ''cluster_id'' d"
  by (simp_all add: replicated_def)

lemma replicated_cong:
  "stream_rows d' = stream_rows d \<Longrightarrow> viewer_rows d' = viewer_rows d \<Longrightarrow> owner_rows d' = owner_rows d \<Longrightarrow>
   settings d' = settings d \<Longrightarrow> replicated d' = replicated d"
  by (simp add: replicated_def token_get_def setting_get_def)

lemma tables_ok_cong:
  "stream_rows d' = stream_rows d \<Longrightarrow> viewer_rows d' = viewer_rows d \<Longrightarrow> owner_rows d' = owner_rows d \<Longrightarrow>
   tables_ok d' = tables_ok d"
  by (simp add: tables_ok_def)

lemma ran_replicated:
  assumes "tables_ok d"
  shows "ran (by_key s_id (stream_rows d)) = set (stream_rows d)" "ran (by_key v_id (viewer_rows d)) = set (viewer_rows d)"
  using tables_okD [OF assms] by (simp_all add: ran_by_key)

lemma has_stream_dom: "has_stream d sid \<longleftrightarrow> sid \<in> dom (by_key s_id (stream_rows d))"
  by (simp add: has_stream_def list_ex_id)

lemma key_in_use_iff: "tables_ok d \<Longrightarrow> key_globally_in_use d k \<longleftrightarrow> key_used (replicated d) k"
  by (auto simp: key_globally_in_use_def key_used_def ran_replicated list_ex_iff row_keys_def)

lemma new_stream_row_simps [simp]:
  "s_id (new_stream_row s t) = s_id s" "s_publish_key (new_stream_row s t) = s_publish_key s"
  "s_play_key (new_stream_row s t) = s_play_key s" "s_stats_key (new_stream_row s t) = s_stats_key s"
  "s_enabled (new_stream_row s t) = s_enabled s" "pending_delete (new_stream_row s t) = False"
  "delete_token (new_stream_row s t) = t" "s_created_at (new_stream_row s t) = s_created_at s"
  by (simp_all add: new_stream_row_def stream.defs)

lemma insert_stream_refines:
  assumes "tables_ok d" and "insert_stream_row (new_stream_row s t) d = Inr d'"
  shows "replicated d' = put_stream s t (replicated d)" and "tables_ok d'"
    and "s_id s \<notin> dom (a_streams (replicated d))"
    and "viewer_rows d' = viewer_rows d" and "stream_rows d' = stream_rows d @ [new_stream_row s t]"
proof -
  from assms(2) have d': "d' = d\<lparr>stream_rows := stream_rows d @ [new_stream_row s t], auth_generation := Suc (auth_generation d)\<rparr>"
    and new: "s_id s \<notin> s_id ` set (stream_rows d)" "s_publish_key s \<notin> s_publish_key ` set (stream_rows d)"
      "s_play_key s \<notin> s_play_key ` set (stream_rows d)" "s_stats_key s \<notin> s_stats_key ` set (stream_rows d)"
    by (auto simp: insert_stream_row_def list_ex_iff bump_def as_image bex_disj_distrib split: if_splits)
  show "replicated d' = put_stream s t (replicated d)"
    using new by (simp add: d' put_stream_def replicated_def by_key_snoc token_get_def setting_get_def)
  show "tables_ok d'" using tables_okD [OF assms(1)] new by (simp add: tables_ok_def d' subset_insertI2)
  show "s_id s \<notin> dom (a_streams (replicated d))" using new by (simp add: domIff by_key_None)
qed (use assms(2) in \<open>auto simp: insert_stream_row_def bump_def split: if_splits\<close>)

lemma insert_stream_clash:
  "tables_ok d \<Longrightarrow>
   (\<exists>e. insert_stream_row (new_stream_row s t) d = Inl e) \<longleftrightarrow>
     s_id s \<in> dom (by_key s_id (stream_rows d)) \<or>
     (\<exists>r \<in> set (stream_rows d). s_publish_key r = s_publish_key s \<or> s_play_key r = s_play_key s \<or> s_stats_key r = s_stats_key s)"
  by (simp add: insert_stream_row_def list_ex_iff by_key_None domIff as_image)

lemma insert_viewer_refines:
  assumes "tables_ok d" and "insert_viewer_row v d = Inr d'"
  shows "replicated d' = put_viewer v (replicated d)" and "tables_ok d'" and "\<not> viewer_clash (replicated d) v"
proof -
  from assms(2) have d': "d' = d\<lparr>viewer_rows := viewer_rows d @ [v], auth_generation := Suc (auth_generation d)\<rparr>"
    and new: "v_id v \<notin> v_id ` set (viewer_rows d)" "v_play_key v \<notin> v_play_key ` set (viewer_rows d)"
      "v_stream_id v \<in> s_id ` set (stream_rows d)"
    by (auto simp: insert_viewer_row_def list_ex_iff bump_def as_image has_stream_def split: if_splits)
  show "replicated d' = put_viewer v (replicated d)"
    using new by (simp add: d' put_viewer_def replicated_def by_key_snoc token_get_def setting_get_def)
  show "tables_ok d'" using tables_okD [OF assms(1)] new by (simp add: tables_ok_def d')
  show "\<not> viewer_clash (replicated d) v"
    using new by (simp add: viewer_clash_def domIff by_key_None ran_replicated [OF assms(1)] as_image)
qed

lemma insert_viewer_clash:
  assumes "tables_ok d" and "insert_viewer_row v d = Inl e" and "has_stream d (v_stream_id v)"
  shows "viewer_clash (replicated d) v" and "e \<noteq> ConstraintForeignKey"
  using assms
  by (auto simp: insert_viewer_row_def list_ex_iff viewer_clash_def ran_replicated by_key_None domIff as_image split: if_splits)

lemma insert_only_refines:
  assumes ok: "tables_ok d"
  shows "case stream_insert_only_with_token s (Some t) fresh d of
      Inr d' \<Rightarrow> \<not> stream_clash (replicated d) s \<and> replicated d' = put_stream s t (replicated d) \<and> tables_ok d'
    | Inl e \<Rightarrow> e = StreamDuplicate \<and> stream_clash (replicated d) s"
proof (cases "list_ex (key_globally_in_use d) [s_publish_key s, s_play_key s, s_stats_key s]")
  case True
  then show ?thesis using key_in_use_iff [OF ok] by (auto simp: stream_insert_only_with_token_def stream_clash_def row_keys_def)
next
  case free: False
  then have keys: "\<not> (\<exists>k \<in> row_keys s. key_used (replicated d) k)" using key_in_use_iff [OF ok] by (simp add: row_keys_def)
  show ?thesis
  proof (cases "insert_stream_row (new_stream_row s t) d")
    case (Inl e)
    with free insert_stream_clash [OF ok, of s t] show ?thesis
      by (auto simp: stream_insert_only_with_token_def stream_clash_def ran_replicated [OF ok])
  next
    case (Inr d')
    with free keys insert_stream_clash [OF ok, of s t] insert_stream_refines [OF ok Inr] show ?thesis
      by (simp add: stream_insert_only_with_token_def stream_clash_def ran_replicated [OF ok])
  qed
qed

lemma update_stream_rows_refines:
  assumes ok: "tables_ok d" and upd: "update_stream_rows P f d = (n, d')" and at: "\<And>r. P r \<Longrightarrow> s_id r = sid"
    and keeps: "\<And>r. s_id (f r) = s_id r" "\<And>r. s_publish_key (f r) = s_publish_key r"
      "\<And>r. s_play_key (f r) = s_play_key r" "\<And>r. s_stats_key (f r) = s_stats_key r"
  shows "tables_ok d'" and "0 < n \<longleftrightarrow> (\<exists>r. a_streams (replicated d) sid = Some r \<and> P r)"
    and "replicated d' = (if 0 < n then modify_stream sid f (replicated d) else replicated d)"
proof -
  let ?g = "\<lambda>r. if P r then f r else r"
  have d': "d' = bump n (d\<lparr>stream_rows := map ?g (stream_rows d)\<rparr>)" and n: "n = length (filter P (stream_rows d))"
    using upd by (auto simp: update_stream_rows_def Let_def)
  have fields: "stream_rows d' = map ?g (stream_rows d)" "viewer_rows d' = viewer_rows d" "owner_rows d' = owner_rows d"
    by (simp_all add: d' bump_def)
  have same: "map s_id (map ?g (stream_rows d)) = map s_id (stream_rows d)"
    "map s_publish_key (map ?g (stream_rows d)) = map s_publish_key (stream_rows d)"
    "map s_play_key (map ?g (stream_rows d)) = map s_play_key (stream_rows d)"
    "map s_stats_key (map ?g (stream_rows d)) = map s_stats_key (stream_rows d)"
    by (simp_all add: keeps)
  have ids: "s_id ` set (map ?g (stream_rows d)) = s_id ` set (stream_rows d)"
    using same(1) by (metis set_map)
  show "tables_ok d'"
    using tables_okD [OF ok] unfolding tables_ok_def fields same ids by simp
  show hit: "0 < n \<longleftrightarrow> (\<exists>r. a_streams (replicated d) sid = Some r \<and> P r)"
    using at by (auto simp: n filter_empty_conv by_key_Some [OF tables_okD(1) [OF ok]])
  have "map_option ?g (by_key s_id (stream_rows d) k) =
      (if 0 < n then ((by_key s_id (stream_rows d))(sid := map_option f (by_key s_id (stream_rows d) sid))) k
       else by_key s_id (stream_rows d) k)" for k
    using hit at by_key_SomeD [of s_id "stream_rows d"] by (cases "by_key s_id (stream_rows d) k") (auto, fastforce+)
  moreover have "by_key s_id (map ?g (stream_rows d)) = (\<lambda>k. map_option ?g (by_key s_id (stream_rows d) k))"
    by (rule by_key_map) (simp add: keeps)
  ultimately show "replicated d' = (if 0 < n then modify_stream sid f (replicated d) else replicated d)"
    by (simp add: d' bump_def replicated_def modify_stream_def token_get_def setting_get_def fun_upd_def)
qed

lemma delete_stream_refines:
  assumes ok: "tables_ok d" and del: "delete_stream_rows (\<lambda>r. s_id r = sid \<and> pending_delete r) d = (n, d')"
  shows "tables_ok d'" and "0 < n \<longleftrightarrow> (\<exists>r. a_streams (replicated d) sid = Some r \<and> pending_delete r)"
    and "replicated d' = (if 0 < n then drop_stream sid (replicated d) else replicated d)"
proof -
  note D = tables_okD [OF ok]
  let ?P = "\<lambda>r. s_id r = sid \<and> pending_delete r"
  have hit: "filter ?P (stream_rows d) = [] \<longleftrightarrow> \<not> (\<exists>r. by_key s_id (stream_rows d) sid = Some r \<and> pending_delete r)"
    by (auto simp: filter_empty_conv by_key_Some [OF D(1)])
  have n: "n = length (filter ?P (stream_rows d))" using del by (simp add: delete_stream_rows_def Let_def)
  then show pos: "0 < n \<longleftrightarrow> (\<exists>r. a_streams (replicated d) sid = Some r \<and> pending_delete r)" using hit by simp
  have gone: "set (map s_id (filter ?P (stream_rows d))) = (if 0 < n then {sid} else {})"
    unfolding n by (auto simp: filter_empty_conv)
  have fields: "stream_rows d' = filter (\<lambda>r. \<not> ?P r) (stream_rows d)" "settings d' = settings d"
    "viewer_rows d' = filter (\<lambda>v. v_stream_id v \<notin> (if 0 < n then {sid} else {})) (viewer_rows d)"
    "owner_rows d' = filter (\<lambda>w. o_stream_id w \<notin> (if 0 < n then {sid} else {})) (owner_rows d)"
    using del gone by (auto simp: delete_stream_rows_def Let_def bump_def)
  have only: "r \<in> set (stream_rows d) \<Longrightarrow> s_id r = sid \<Longrightarrow> 0 < n \<Longrightarrow> pending_delete r" for r
    using pos by_key_mem [OF D(1), of r] by auto
  have fk: "x \<in> s_id ` {r \<in> set (stream_rows d). s_id r = sid \<longrightarrow> \<not> pending_delete r}"
    if "x \<in> s_id ` set (stream_rows d)" "x \<notin> (if 0 < n then {sid} else {})" for x
    using that gone by (cases "0 < n") (auto simp: n filter_empty_conv)
  show "tables_ok d'"
    using D fk unfolding tables_ok_def fields by (auto simp: distinct_map_filter)
  show "replicated d' = (if 0 < n then drop_stream sid (replicated d) else replicated d)"
  proof (cases "0 < n")
    case True
    have "by_key s_id (stream_rows d') = (by_key s_id (stream_rows d))(sid := None)"
      using by_key_SomeD [of s_id "stream_rows d"] only [OF _ _ True]
      by (auto simp: fields by_key_filter [OF D(1)] fun_eq_iff split: option.splits)
    moreover have "by_key v_id (viewer_rows d') =
        (\<lambda>k. case by_key v_id (viewer_rows d) k of Some v \<Rightarrow> if v_stream_id v = sid then None else Some v | None \<Rightarrow> None)"
      using True by (auto simp: fields by_key_filter [OF D(5)] fun_eq_iff split: option.splits)
    moreover have "by_key o_stream_id (owner_rows d') = (by_key o_stream_id (owner_rows d))(sid := None)"
      using True by_key_SomeD [of o_stream_id "owner_rows d"]
      by (auto simp: fields by_key_filter [OF D(7)] fun_eq_iff split: option.splits)
    ultimately show ?thesis
      using True by (simp add: replicated_def drop_stream_def fields(2) token_get_def setting_get_def)
  next
    case False
    then have "filter (\<lambda>r. \<not> ?P r) (stream_rows d) = stream_rows d" by (auto simp: n filter_empty_conv filter_id_conv)
    with False show ?thesis by (simp add: replicated_def fields token_get_def setting_get_def)
  qed
qed

lemma replicated_owners:
  assumes "stream_rows d' = stream_rows d" "viewer_rows d' = viewer_rows d" "settings d' = settings d"
  shows "replicated d' = (replicated d)\<lparr>a_owners := by_key o_stream_id (owner_rows d')\<rparr>"
  using assms by (simp add: replicated_def token_get_def setting_get_def)

lemma tables_ok_owner_rows:
  assumes ok: "tables_ok d" and ids: "map o_stream_id rows = map o_stream_id (owner_rows d)"
  shows "tables_ok (d\<lparr>owner_rows := rows\<rparr>)"
proof -
  have "o_stream_id ` set rows = o_stream_id ` set (owner_rows d)" using ids by (metis set_map)
  with tables_okD [OF ok] ids show ?thesis by (simp add: tables_ok_def)
qed

lemma renewed_owner:
  assumes owned: "by_key o_stream_id rows sid = Some w" and same: "o_owner_node_id w = node_id"
  shows "by_key o_stream_id (map (\<lambda>w. if o_stream_id w = sid then w\<lparr>o_epoch := ep, o_acquired_at := t\<rparr> else w) rows) =
    (by_key o_stream_id rows)(sid \<mapsto> \<lparr>o_stream_id = sid, o_owner_node_id = node_id, o_epoch = ep, o_acquired_at = t\<rparr>)"
proof -
  let ?g = "\<lambda>w. if o_stream_id w = sid then w\<lparr>o_epoch := ep, o_acquired_at := t\<rparr> else w"
  have "by_key o_stream_id (map ?g rows) = (\<lambda>k. map_option ?g (by_key o_stream_id rows k))"
    by (rule by_key_map) simp
  moreover have "?g w = \<lparr>o_stream_id = sid, o_owner_node_id = node_id, o_epoch = ep, o_acquired_at = t\<rparr>"
    using same by_key_SomeD [OF owned] by (simp add: stream_owner.equality)
  moreover have "map_option ?g (by_key o_stream_id rows k) = by_key o_stream_id rows k" if "k \<noteq> sid" for k
    using that by_key_SomeD [of o_stream_id rows k] by (cases "by_key o_stream_id rows k") auto
  ultimately show ?thesis using owned by (simp add: fun_eq_iff)
qed

lemma owner_acquire_refines:
  assumes ok: "tables_ok d"
  shows "case stream_owner_acquire sid node_id epoch acquired_at d of
      Inr (ep, d') \<Rightarrow> ep = epoch \<and> tables_ok d' \<and>
        spec_command (AcquireStreamOwner sid node_id epoch acquired_at) (replicated d) = (OwnerEpoch ep, replicated d')
    | Inl e \<Rightarrow> spec_command (AcquireStreamOwner sid node_id epoch acquired_at) (replicated d) =
        (case e of OwnerConflict \<Rightarrow> RespConflict | OwnerNotFound \<Rightarrow> RespNotFound | OwnerDb \<Rightarrow> RespError ''db'', replicated d)"
proof (cases "by_key s_id (stream_rows d) sid")
  case None
  then show ?thesis by (simp add: stream_owner_acquire_def find_stream_def by_key_find)
next
  case (Some r)
  note D = tables_okD [OF ok]
  let ?w = "\<lparr>o_stream_id = sid, o_owner_node_id = node_id, o_epoch = epoch, o_acquired_at = acquired_at\<rparr>"
  show ?thesis
  proof (cases "s_enabled r \<and> \<not> pending_delete r")
    case False
    with Some show ?thesis by (auto simp: stream_owner_acquire_def find_stream_def by_key_find)
  next
    case usable: True
    show ?thesis
    proof (cases "by_key o_stream_id (owner_rows d) sid")
      case none: None
      then have new: "sid \<notin> o_stream_id ` set (owner_rows d)" by (simp add: by_key_None)
      have fk: "sid \<in> s_id ` set (stream_rows d)" using by_key_SomeD [OF Some] by auto
      let ?d = "d\<lparr>owner_rows := owner_rows d @ [?w]\<rparr>"
      have "stream_owner_acquire sid node_id epoch acquired_at d = Inr (epoch, ?d)"
        using Some usable none fk new
        by (simp add: stream_owner_acquire_def find_stream_def by_key_find stream_owner_get_def insert_owner_row_def
            list_ex_iff has_stream_def as_image)
      moreover have "by_key o_stream_id (owner_rows d @ [?w]) = (by_key o_stream_id (owner_rows d))(sid \<mapsto> ?w)"
        using new by (simp add: by_key_snoc)
      moreover have "tables_ok ?d" using D new fk by (simp add: tables_ok_def)
      ultimately show ?thesis using Some usable none by (simp add: replicated_def token_get_def setting_get_def)
    next
      case owned: (Some w)
      show ?thesis
      proof (cases "o_owner_node_id w = node_id")
        case False
        with Some usable owned show ?thesis
          by (simp add: stream_owner_acquire_def find_stream_def by_key_find stream_owner_get_def)
      next
        case True
        let ?g = "\<lambda>w. if o_stream_id w = sid then w\<lparr>o_epoch := epoch, o_acquired_at := acquired_at\<rparr> else w"
        let ?d = "d\<lparr>owner_rows := map ?g (owner_rows d)\<rparr>"
        have "stream_owner_acquire sid node_id epoch acquired_at d = Inr (epoch, ?d)"
          using Some usable owned True
          by (simp add: stream_owner_acquire_def find_stream_def by_key_find stream_owner_get_def)
        moreover have "tables_ok ?d" by (rule tables_ok_owner_rows [OF ok]) simp
        ultimately show ?thesis using Some usable owned True
          by (simp add: replicated_def token_get_def setting_get_def renewed_owner)
      qed
    qed
  qed
qed

lemma owners_filter_refines:
  assumes ok: "tables_ok d"
  shows "tables_ok (d\<lparr>owner_rows := filter P (owner_rows d)\<rparr>)"
    and "replicated (d\<lparr>owner_rows := filter P (owner_rows d)\<rparr>) = (replicated d)\<lparr>a_owners :=
      (\<lambda>k. case a_owners (replicated d) k of Some w \<Rightarrow> if P w then Some w else None | None \<Rightarrow> None)\<rparr>"
  using tables_okD [OF ok]
  by (auto simp: tables_ok_def replicated_def by_key_filter distinct_map_filter token_get_def setting_get_def)

section \<open>Play keys\<close>

lemma viewer_add_refines:
  assumes ok: "tables_ok d"
  shows "case viewer_add v d of
      Inr d' \<Rightarrow> spec_add_viewer v (replicated d) = Inr (replicated d') \<and> tables_ok d'
    | Inl e \<Rightarrow> spec_add_viewer v (replicated d) = Inl e"
proof (cases "by_key s_id (stream_rows d) (v_stream_id v)")
  case None
  then have "\<not> list_ex (\<lambda>r. s_id r = v_stream_id v \<and> \<not> pending_delete r) (stream_rows d)"
    by (auto simp: by_key_None list_ex_iff rev_image_eqI)
  with None show ?thesis
    by (simp add: viewer_add_def spec_add_viewer_def find_stream_def by_key_find Let_def key_in_use_iff [OF ok])
next
  case (Some r)
  note D = tables_okD [OF ok]
  have one: "q = r" if "q \<in> set (stream_rows d)" "s_id q = v_stream_id v" for q
    using by_key_mem [OF D(1) that(1)] that(2) Some by simp
  have parent: "list_ex (\<lambda>q. s_id q = v_stream_id v \<and> \<not> pending_delete q) (stream_rows d) \<longleftrightarrow> \<not> pending_delete r"
    using by_key_SomeD [OF Some] by (auto simp: list_ex_iff dest: one)
  have fk: "has_stream d (v_stream_id v)" using Some by (auto simp: has_stream_dom)
  have taken: "list_ex (\<lambda>w. v_play_key w = v_play_key v) (viewer_rows d) \<longleftrightarrow>
      (\<exists>w \<in> ran (by_key v_id (viewer_rows d)). v_play_key w = v_play_key v)"
    by (simp add: list_ex_iff ran_replicated [OF ok])
  have eq: "viewer_add v d = (if (if s_play_key r = v_play_key v then list_ex (\<lambda>w. v_play_key w = v_play_key v) (viewer_rows d)
        else key_globally_in_use d (v_play_key v)) then Inl ViewerDuplicate
      else if pending_delete r then Inl ParentUnavailable
      else case insert_viewer_row v d of Inr d' \<Rightarrow> Inr d' | Inl ConstraintForeignKey \<Rightarrow> Inl ViewerDb | Inl _ \<Rightarrow> Inl ViewerDuplicate)"
    using Some by (simp add: viewer_add_def find_stream_def by_key_find Let_def parent)
  show ?thesis
  proof (cases "insert_viewer_row v d")
    case (Inl e)
    with insert_viewer_clash [OF ok Inl fk] Some show ?thesis
      by (cases e) (simp_all add: eq spec_add_viewer_def taken key_in_use_iff [OF ok])
  next
    case (Inr d')
    with insert_viewer_refines [OF ok Inr] Some show ?thesis
      by (simp add: eq spec_add_viewer_def taken key_in_use_iff [OF ok])
  qed
qed

lemma delete_viewer_rows_refines:
  assumes ok: "tables_ok d" and del: "viewer_delete sid vid d = (hit, d')"
  shows "tables_ok d'" and "hit \<longleftrightarrow> vid \<in> viewers_of (replicated d) sid"
    and "replicated d' = (if hit then (replicated d)\<lparr>a_viewers := (by_key v_id (viewer_rows d))(vid := None)\<rparr> else replicated d)"
proof -
  note D = tables_okD [OF ok]
  let ?P = "\<lambda>v. v_stream_id v = sid \<and> v_id v = vid"
  have rows: "viewer_rows d' = filter (\<lambda>v. \<not> ?P v) (viewer_rows d)" "stream_rows d' = stream_rows d"
      "owner_rows d' = owner_rows d" "settings d' = settings d"
    and hit: "hit \<longleftrightarrow> filter ?P (viewer_rows d) \<noteq> []"
    using del by (auto simp: viewer_delete_def delete_viewer_rows_def Let_def bump_def)
  show "tables_ok d'" using D by (auto simp: tables_ok_def rows distinct_map_filter)
  show mem: "hit \<longleftrightarrow> vid \<in> viewers_of (replicated d) sid"
    by (auto simp: hit filter_empty_conv viewers_of_def by_key_Some [OF D(5)])
  have "by_key v_id (viewer_rows d') = (by_key v_id (viewer_rows d))(vid := None)" if hit
    using that mem by_key_SomeD [of v_id "viewer_rows d"]
    by (auto simp: rows by_key_filter [OF D(5)] viewers_of_def fun_eq_iff split: option.splits)
  moreover have "viewer_rows d' = viewer_rows d" if "\<not> hit"
    using that by (auto simp: hit rows filter_empty_conv filter_id_conv)
  ultimately show "replicated d' = (if hit then (replicated d)\<lparr>a_viewers := (by_key v_id (viewer_rows d))(vid := None)\<rparr> else replicated d)"
    by (auto simp: replicated_def rows token_get_def setting_get_def)
qed

lemma players_deactivate_tables:
  "stream_rows (players_deactivate_for_viewer vid d) = stream_rows d"
  "viewer_rows (players_deactivate_for_viewer vid d) = viewer_rows d"
  "owner_rows (players_deactivate_for_viewer vid d) = owner_rows d"
  "settings (players_deactivate_for_viewer vid d) = settings d"
  by (simp_all add: players_deactivate_for_viewer_def Let_def)

lemma single_viewer:
  assumes ok: "tables_ok d"
  shows "length (viewer_list sid d) = 1 \<and> list_ex (\<lambda>v. v_id v = vid) (viewer_list sid d) \<longleftrightarrow>
    viewers_of (replicated d) sid = {vid}"
proof -
  note D = tables_okD [OF ok]
  let ?vs = "filter (\<lambda>v. v_stream_id v = sid) (viewer_rows d)"
  have ids: "v_id ` set ?vs = viewers_of (replicated d) sid"
    by (auto simp: viewers_of_def by_key_Some [OF D(5)])
  have card: "card (v_id ` set ?vs) = length ?vs"
    using D(5) by (metis distinct_card distinct_map_filter length_map set_map)
  have "length (viewer_list sid d) = length ?vs" "set (viewer_list sid d) = set ?vs" by (simp_all add: viewer_list_def)
  then have "length (viewer_list sid d) = 1 \<and> list_ex (\<lambda>v. v_id v = vid) (viewer_list sid d) \<longleftrightarrow>
      card (v_id ` set ?vs) = 1 \<and> vid \<in> v_id ` set ?vs"
    unfolding card list_ex_iff by (simp only: bex_eq_image)
  also have "\<dots> \<longleftrightarrow> v_id ` set ?vs = {vid}" unfolding card_1_singleton_iff One_nat_def by (metis singletonD singletonI)
  finally show ?thesis unfolding ids .
qed

lemma default_viewer:
  assumes ok: "tables_ok d" and mem: "vid \<in> viewers_of (replicated d) sid"
  shows "(case stream_get sid d of
      LookupOk s \<Rightarrow> list_ex (\<lambda>v. v_id v = vid \<and> v_play_key v = s_play_key s) (viewer_list sid d) | _ \<Rightarrow> False) \<longleftrightarrow>
    is_default_viewer (replicated d) sid vid"
proof -
  note D = tables_okD [OF ok]
  obtain v where v: "by_key v_id (viewer_rows d) vid = Some v" "v_stream_id v = sid" using mem by (auto simp: viewers_of_def)
  have "list_ex (\<lambda>w. v_id w = vid \<and> v_play_key w = k) (viewer_list sid d) \<longleftrightarrow> v_play_key v = k" for k
    using v by (auto simp: list_ex_iff viewer_list_def by_key_Some [OF D(5)] dest: inj_onD [of v_id] distinct_map [THEN iffD1])
      (metis D(5) by_key_mem option.inject)
  then show ?thesis
    using v by (auto simp: stream_get_def lookup_of_def find_stream_def by_key_find is_default_viewer_def stream.defs
        split: option.splits)
qed

lemma delete_viewer_refines:
  assumes ok: "tables_ok d" and del: "delete_viewer_fenced sid vid d = (resp, fx, d')"
  shows "spec_command (DeleteViewer sid vid) (replicated d) = (resp, replicated d') \<and> tables_ok d'"
proof -
  obtain hit d1 where vd: "viewer_delete sid vid d = (hit, d1)" by fastforce
  note R = delete_viewer_rows_refines [OF ok vd]
  have same: "replicated (players_deactivate_for_viewer vid d1) = replicated d1"
      "tables_ok (players_deactivate_for_viewer vid d1) = tables_ok d1"
    by (rule replicated_cong tables_ok_cong; rule players_deactivate_tables)+
  show ?thesis
  proof (cases "vid \<in> viewers_of (replicated d) sid")
    case True
    with del vd R ok same single_viewer [OF ok, of sid vid] default_viewer [OF ok True] show ?thesis
      by (auto simp: delete_viewer_fenced_def Let_def split: if_splits)
  next
    case False
    then have no: "\<not> list_ex (\<lambda>v. v_id v = vid) (viewer_list sid d)"
      by (auto simp: list_ex_iff viewer_list_def viewers_of_def by_key_Some [OF tables_okD(5) [OF ok]])
    then have "\<not> list_ex (\<lambda>v. v_id v = vid \<and> v_play_key v = k) (viewer_list sid d)" for k by (auto simp: list_ex_iff)
    with False del vd R no show ?thesis
      by (auto simp: delete_viewer_fenced_def Let_def split: if_splits db_lookup.splits)
  qed
qed

section \<open>Seeding\<close>

lemma seed_streams_refines:
  "tables_ok d \<Longrightarrow> replicated (seed_streams tokens ss d) = fold (spec_seed_stream tokens) ss (replicated d) \<and>
     tables_ok (seed_streams tokens ss d)"
proof (induction ss arbitrary: d)
  case (Cons s ss)
  let ?t = "case hm_get tokens (s_id s) of Some t \<Rightarrow> t | None \<Rightarrow> legacy_delete_token (s_id s) (s_publish_key s)"
  show ?case
    using insert_only_refines [OF Cons.prems, of s ?t "[]"] Cons.IH Cons.prems
    by (cases "stream_insert_only_with_token s (Some ?t) [] d") (auto simp: spec_seed_stream_def Let_def)
qed simp

lemma seed_viewers_refines:
  "tables_ok d \<Longrightarrow> (case seed_viewers vs d of (ok, d') \<Rightarrow> spec_seed_viewers vs (replicated d) = (ok, replicated d') \<and> tables_ok d')"
proof (induction vs arbitrary: d)
  case (Cons v vs)
  show ?case
  proof (cases "viewer_add v d")
    case (Inl e)
    with viewer_add_refines [OF Cons.prems, of v] Cons show ?thesis by (cases e) auto
  next
    case (Inr d')
    with viewer_add_refines [OF Cons.prems, of v] Cons.IH [of d'] show ?thesis by auto
  qed
qed simp

lemma mark_deleted_keeps:
  "s_id (mark_deleted r) = s_id r" "s_publish_key (mark_deleted r) = s_publish_key r"
  "s_play_key (mark_deleted r) = s_play_key r" "s_stats_key (mark_deleted r) = s_stats_key r"
  by (simp_all add: mark_deleted_def)

lemma modify_absent: "a_streams A sid = None \<Longrightarrow> modify_stream sid f A = A"
  by (simp add: modify_stream_def fun_upd_idem)

lemma disable_expecting_refines:
  assumes ok: "tables_ok d" and dis: "stream_disable_expecting sid c t d = (out, d')"
  shows "tables_ok d'" and "case a_streams (replicated d) sid of
      None \<Rightarrow> out = DisableMissing \<and> replicated d' = replicated d
    | Some r \<Rightarrow> if matches_identity sid c t r then out = Disabled \<and> replicated d' = modify_stream sid mark_deleted (replicated d)
               else out = DisableStale \<and> replicated d' = replicated d"
proof -
  obtain n d1 where upd: "update_stream_rows (matches_identity sid c t) mark_deleted d = (n, d1)" by fastforce
  have at: "s_id r = sid" if "matches_identity sid c t r" for r using that by (simp add: matches_identity_def)
  note R = update_stream_rows_refines [OF ok upd at mark_deleted_keeps, simplified]
  have eq: "d' = d1" "out = (if 0 < n then Disabled else if has_stream d1 sid then DisableStale else DisableMissing)"
    using dis upd by (auto simp: stream_disable_expecting_def mark_deleted_def [abs_def] split: if_splits)
  show "tables_ok d'" using R(1) eq by simp
  have there: "has_stream d1 sid \<longleftrightarrow> sid \<in> dom (a_streams (replicated d))"
    using R(3) by (auto simp: has_stream_dom modify_stream_def replicated_def split: if_splits)
  show "case a_streams (replicated d) sid of
      None \<Rightarrow> out = DisableMissing \<and> replicated d' = replicated d
    | Some r \<Rightarrow> if matches_identity sid c t r then out = Disabled \<and> replicated d' = modify_stream sid mark_deleted (replicated d)
               else out = DisableStale \<and> replicated d' = replicated d"
    using R there by (auto simp: eq split: option.splits)
qed

lemma disable_refines:
  "tables_ok d \<Longrightarrow> replicated (snd (stream_disable sid d)) = modify_stream sid mark_deleted (replicated d) \<and>
     tables_ok (snd (stream_disable sid d))"
proof -
  assume ok: "tables_ok d"
  obtain out d' where dis: "stream_disable_expecting sid None None d = (out, d')" by fastforce
  note R = disable_expecting_refines [OF ok dis]
  have "matches_identity sid None None r" if "a_streams (replicated d) sid = Some r" for r
    using by_key_SomeD [of s_id "stream_rows d" sid r] that by (simp add: matches_identity_def)
  then have "replicated d' = modify_stream sid mark_deleted (replicated d)"
    using R(2) by (cases "a_streams (replicated d) sid") (auto simp: modify_absent)
  with R(1) show ?thesis by (simp add: stream_disable_def dis)
qed

lemma settings_refines:
  assumes "tables_ok d"
  shows "replicated (token_replace t d) = (replicated d)\<lparr>a_token := nonempty (Some t)\<rparr>" "tables_ok (token_replace t d)"
    "replicated (setting_set ''cluster_id'' c d) = (replicated d)\<lparr>a_cluster := nonempty (Some c)\<rparr>"
    "tables_ok (setting_set ''cluster_id'' c d)"
  using assms
  by (simp_all add: replicated_def token_replace_def setting_set_def token_get_def setting_get_def tables_ok_def)

lemma seed_refines:
  assumes ok: "tables_ok d" and seed: "seed_from_standalone ss vs tokens api_token pending d = (resp, fx, d')"
  shows "spec_command (SeedFromStandalone ss vs tokens api_token pending) (replicated d) = (resp, replicated d') \<and> tables_ok d'"
proof -
  let ?d1 = "seed_streams (collect_map tokens) ss d"
  note S = seed_streams_refines [OF ok, of "collect_map tokens" ss]
  obtain good d2 where vs: "seed_viewers vs ?d1 = (good, d2)" by fastforce
  with seed_viewers_refines [of ?d1 vs] S
  have V: "spec_seed_viewers vs (replicated ?d1) = (good, replicated d2)" "tables_ok d2" by auto
  have pend: "tables_ok e \<Longrightarrow> replicated (foldl (\<lambda>d sid. snd (stream_disable sid d)) e pending) =
      fold (\<lambda>sid. modify_stream sid mark_deleted) pending (replicated e) \<and>
      tables_ok (foldl (\<lambda>d sid. snd (stream_disable sid d)) e pending)" for e
    by (induction pending arbitrary: e) (auto simp: disable_refines)
  show ?thesis
    using seed V S vs pend [of d2] pend [of "token_replace (the api_token) d2"] settings_refines(1,2) [OF V(2)]
    by (auto simp: seed_from_standalone_def Let_def split: if_splits option.splits)
qed

section \<open>Commands\<close>

lemma create_stream_refines:
  assumes ok: "tables_ok d" and app: "apply_command (CreateStream s v given) d = (resp, fx, d')"
  shows "spec_command (CreateStream s v given) (replicated d) = (resp, replicated d') \<and> tables_ok d'"
proof -
  define t where "t = (if given = [] then legacy_delete_token (s_id s) (s_publish_key s) else given)"
  have eq: "apply_command (CreateStream s v given) d = (case stream_add_with_viewer_with_token s v t d of
      Inr d' \<Rightarrow> (RespOk, [], d') | Inl StreamDuplicate \<Rightarrow> (RespDuplicate, [], d) | Inl StreamDb \<Rightarrow> (RespError ''db'', [], d))"
    by (simp add: t_def Let_def)
  show ?thesis
  proof (cases "v_stream_id v \<noteq> s_id s \<or> v_play_key v \<noteq> s_play_key s")
    case True
    with app ok show ?thesis unfolding eq by (auto simp: stream_add_with_viewer_with_token_def)
  next
    case agree: False
    show ?thesis
    proof (cases "stream_insert_only_with_token s (Some t) [] d")
      case (Inl e)
      with insert_only_refines [OF ok, of s t "[]"] app agree ok show ?thesis
        unfolding eq
        by (auto simp: stream_add_with_viewer_with_token_def stream_insert_only_with_token_def split: sum.splits if_splits)
    next
      case (Inr d1)
      then have ins: "insert_stream_row (new_stream_row s t) d = Inr d1" and free: "\<not> stream_clash (replicated d) s"
        using insert_only_refines [OF ok, of s t "[]"] by (auto simp: stream_insert_only_with_token_def split: sum.splits if_splits)
      note I = insert_stream_refines [OF ok ins]
      have add: "stream_add_with_viewer_with_token s v t d =
          (case insert_viewer_row v d1 of Inl _ \<Rightarrow> Inl StreamDb | Inr d2 \<Rightarrow> Inr d2)"
        using agree Inr ins by (auto simp: stream_add_with_viewer_with_token_def stream_insert_only_with_token_def split: if_splits)
      have clash: "viewer_clash (replicated d1) v = viewer_clash (replicated d) v"
        by (simp add: I(1) viewer_clash_def put_stream_def)
      have fk: "has_stream d1 (v_stream_id v)" using agree I(5) by (simp add: has_stream_def)
      show ?thesis
      proof (cases "insert_viewer_row v d1")
        case (Inl e)
        with insert_viewer_clash [OF I(2) Inl fk] clash app ok free agree show ?thesis unfolding eq add by auto
      next
        case (Inr d2)
        with insert_viewer_refines [OF I(2) Inr] clash app free agree I(1) show ?thesis unfolding eq add by (auto simp: t_def)
      qed
    qed
  qed
qed

lemma begin_delete_refines:
  assumes ok: "tables_ok d" and app: "apply_command (BeginDeleteStream sid c t) d = (resp, fx, d')"
  shows "spec_command (BeginDeleteStream sid c t) (replicated d) = (resp, replicated d') \<and> tables_ok d'"
proof -
  obtain out d1 where dis: "stream_disable_expecting sid c t d = (out, d1)" by fastforce
  from disable_expecting_refines [OF ok dis] app show ?thesis
    by (cases out) (auto simp: dis split: option.splits if_splits)
qed

lemma stream_get_iff:
  "stream_get sid d = Missing \<longleftrightarrow> a_streams (replicated d) sid = None" "stream_get sid d \<noteq> LookupFailed"
  by (auto simp: stream_get_def lookup_of_def find_stream_def by_key_find split: option.splits)

lemma finalize_refines:
  assumes ok: "tables_ok d" and app: "apply_command (FinalizeDeleteStream sid) d = (resp, fx, d')"
  shows "spec_command (FinalizeDeleteStream sid) (replicated d) = (resp, replicated d') \<and> tables_ok d'"
proof -
  obtain n d1 where del: "delete_stream_rows (\<lambda>r. s_id r = sid \<and> pending_delete r) d = (n, d1)" by fastforce
  note R = delete_stream_refines [OF ok del]
  show ?thesis
  proof (cases "0 < n")
    case True
    with R app show ?thesis by (auto simp: stream_delete_if_pending_def del split: option.splits)
  next
    case False
    with R app stream_get_iff [of sid d1] show ?thesis
      by (auto simp: stream_delete_if_pending_def del split: option.splits db_lookup.splits)
  qed
qed

lemma set_enabled_refines:
  assumes ok: "tables_ok d" and app: "apply_command (SetStreamEnabled sid e) d = (resp, fx, d')"
  shows "spec_command (SetStreamEnabled sid e) (replicated d) = (resp, replicated d') \<and> tables_ok d'"
proof -
  let ?f = "\<lambda>r :: stream_row. r\<lparr>s_enabled := e, pending_delete := False\<rparr>"
  obtain n d1 where upd: "update_stream_rows (\<lambda>r. s_id r = sid) ?f d = (n, d1)" by fastforce
  note R = update_stream_rows_refines [OF ok upd, of sid, simplified]
  have here: "s_id r = sid" if "by_key s_id (stream_rows d) sid = Some r" for r using by_key_SomeD [OF that] by simp
  show ?thesis
  proof (cases "0 < n")
    case True
    with R app show ?thesis by (auto simp: stream_set_enabled_def upd domIff)
  next
    case False
    then have "by_key s_id (stream_rows d) sid = None" using R(2) here by (cases "by_key s_id (stream_rows d) sid") auto
    with False R app stream_get_iff [of sid d1] show ?thesis
      by (auto simp: stream_set_enabled_def upd domIff split: db_lookup.splits)
  qed
qed

lemma apply_command_refines:
  assumes ok: "tables_ok d" and app: "apply_command cmd d = (resp, fx, d')"
  shows "spec_command cmd (replicated d) = (resp, replicated d') \<and> tables_ok d'"
proof (cases cmd)
  case (CreateViewer v)
  with viewer_add_refines [OF ok, of v] app ok show ?thesis
    by (cases "viewer_add v d") (auto split: viewer_add_error.splits)
next
  case (AcquireStreamOwner sid node_id epoch t)
  with owner_acquire_refines [OF ok, of sid node_id epoch t] app ok show ?thesis
    by (cases "stream_owner_acquire sid node_id epoch t d") (auto simp del: spec_command.simps split: owner_error.splits)
next
  case (ReleaseStreamOwner sid epoch)
  let ?P = "\<lambda>w. \<not> (o_stream_id w = sid \<and> o_epoch w = epoch)" and ?own = "by_key o_stream_id (owner_rows d)"
  have d': "d' = d\<lparr>owner_rows := filter ?P (owner_rows d)\<rparr>" "resp = RespOk"
    using app ReleaseStreamOwner by (auto simp: stream_owner_release_def Let_def)
  have "(\<lambda>k. case ?own k of Some w \<Rightarrow> if ?P w then Some w else None | None \<Rightarrow> None) =
      (if \<exists>w. ?own sid = Some w \<and> o_epoch w = epoch then ?own(sid := None) else ?own)"
    using by_key_SomeD [of o_stream_id "owner_rows d"] by (fastforce simp: fun_eq_iff split: option.splits)
  moreover have "spec_command cmd (replicated d) = (RespOk, (replicated d)\<lparr>a_owners :=
      (if \<exists>w. ?own sid = Some w \<and> o_epoch w = epoch then ?own(sid := None) else ?own)\<rparr>)"
    by (auto simp: ReleaseStreamOwner replicated_def)
  ultimately show ?thesis using owners_filter_refines [OF ok, of ?P] unfolding d' replicated_simps by simp
next
  case (ReleaseOwnersForNode node_id m)
  let ?P = "\<lambda>w. \<not> (o_owner_node_id w = node_id \<and> sint (o_epoch w) \<le> clamp_i64 m)"
  have "d' = d\<lparr>owner_rows := filter ?P (owner_rows d)\<rparr>" "resp = RespOk"
    using app ReleaseOwnersForNode by (auto simp: stream_owners_release_for_node_def Let_def)
  with ReleaseOwnersForNode owners_filter_refines [OF ok, of ?P] show ?thesis
    by (auto simp: fun_eq_iff split: option.splits)
next
  case (CreateStream s v t)
  show ?thesis using create_stream_refines [OF ok app [unfolded CreateStream]] unfolding CreateStream .
next
  case (BeginDeleteStream sid c t)
  show ?thesis using begin_delete_refines [OF ok app [unfolded BeginDeleteStream]] unfolding BeginDeleteStream .
next
  case (FinalizeDeleteStream sid)
  show ?thesis using finalize_refines [OF ok app [unfolded FinalizeDeleteStream]] unfolding FinalizeDeleteStream .
next
  case (SetStreamEnabled sid e)
  show ?thesis using set_enabled_refines [OF ok app [unfolded SetStreamEnabled]] unfolding SetStreamEnabled .
next
  case (DeleteViewer sid vid)
  have "delete_viewer_fenced sid vid d = (resp, fx, d')" using app DeleteViewer by simp
  then show ?thesis unfolding DeleteViewer by (rule delete_viewer_refines [OF ok])
next
  case (SeedFromStandalone ss vs ts tok pend)
  have "seed_from_standalone ss vs ts tok pend d = (resp, fx, d')" using app SeedFromStandalone by simp
  then show ?thesis unfolding SeedFromStandalone by (rule seed_refines [OF ok])
next
  case (SetApiToken t)
  then show ?thesis using app settings_refines(1,2) [OF ok, of t] by auto
next
  case (SetClusterId c)
  then show ?thesis using app settings_refines(3,4) [OF ok, of c] by auto
qed

end
