(* ===== verification/Raft_Props.thy ===== *)
theory Raft_Props
  imports State_Machine Raft_Refinement
begin

text \<open>
  What replication guarantees: every node's replicated state is a function of the log, whatever its
  own sessions and the order of its rows; entries may be applied again after a crash; and ownership
  is fenced by the position in the log.
\<close>

section \<open>The meaning of the log\<close>

definition spec_normal :: "u64 \<Rightarrow> cluster_command \<Rightarrow> app_state \<Rightarrow> cluster_response \<times> app_state" where
  "spec_normal index cmd A =
     (case cmd of
        AcquireStreamOwner sid node_id _ acquired_at \<Rightarrow> spec_command (AcquireStreamOwner sid node_id (max index 1) acquired_at) A
      | ReleaseOwnersForNode _ _ \<Rightarrow> (Released (max index 1), snd (spec_command cmd A))
      | _ \<Rightarrow> spec_command cmd A)"

definition spec_entry :: "'m raft_entry \<Rightarrow> app_state \<Rightarrow> (string + cluster_response) \<times> app_state" where
  "spec_entry e A =
     (case e_payload e of
        Normal cmd \<Rightarrow>
          (case spec_normal (lid_index (e_log_id e)) cmd A of
             (RespError msg, A') \<Rightarrow> (Inl msg, A')
           | (resp, A') \<Rightarrow> (Inr resp, A'))
      | _ \<Rightarrow> (Inr RespOk, A))"

fun spec_entries :: "'m raft_entry list \<Rightarrow> app_state \<Rightarrow> (string + cluster_response list) \<times> app_state" where
  "spec_entries [] A = (Inr [], A)"
| "spec_entries (e # es) A =
     (case spec_entry e A of
        (Inl msg, A') \<Rightarrow> (Inl msg, A')
      | (Inr resp, A') \<Rightarrow>
          (case spec_entries es A' of
             (Inl msg, A'') \<Rightarrow> (Inl msg, A'')
           | (Inr resps, A'') \<Rightarrow> (Inr (resp # resps), A'')))"

lemma apply_normal_refines:
  assumes ok: "tables_ok d" and app: "apply_normal index cmd d = (resp, fx, d')"
  shows "spec_normal index cmd (replicated d) = (resp, replicated d') \<and> tables_ok d'"
proof (cases cmd)
  case (AcquireStreamOwner sid node_id epoch t)
  with owner_acquire_refines [OF ok, of sid node_id "max index 1" t] app ok show ?thesis
    by (cases "stream_owner_acquire sid node_id (max index 1) t d")
      (auto simp: apply_normal_def spec_normal_def simp del: spec_command.simps split: owner_error.splits)
next
  case (ReleaseOwnersForNode node_id m)
  obtain d1 where d1: "apply_command cmd d = (RespOk, [OwnershipChanged], d1)" using ReleaseOwnersForNode by simp
  with app ReleaseOwnersForNode have "resp = Released (max index 1)" "d' = d1" by (auto simp: apply_normal_def)
  with apply_command_refines [OF ok d1] ReleaseOwnersForNode show ?thesis by (simp add: spec_normal_def)
qed (use apply_command_refines [OF ok, of cmd resp fx d'] app in \<open>simp_all add: apply_normal_def spec_normal_def del: apply_command.simps spec_command.simps\<close>)

lemma replicated_bump [simp]: "replicated (bump n d) = replicated d"
  by (rule replicated_cong) (simp_all add: bump_def)

lemma tables_ok_bump [simp]: "tables_ok (bump n d) = tables_ok d"
  by (rule tables_ok_cong) (simp_all add: bump_def)

lemma persist_db [simp]: "sm_db (persist_applied_tx lid mem m) = bump 1 (sm_db m)" "last_applied (persist_applied_tx lid mem m) = Some lid"
  by (simp_all add: persist_applied_tx_def)

lemma emit_db [simp]: "sm_db (emit_effects fx m) = sm_db m" "last_applied (emit_effects fx m) = last_applied m"
  by (simp_all add: emit_effects_def)

lemma apply_entry_refines:
  assumes ok: "tables_ok (sm_db m)" and app: "apply_entry e m = (out, m')"
  shows "spec_entry e (replicated (sm_db m)) = (out, replicated (sm_db m')) \<and> tables_ok (sm_db m')"
proof (cases "e_payload e")
  case (Normal cmd)
  obtain resp fx d' where an: "apply_normal (lid_index (e_log_id e)) cmd (sm_db m) = (resp, fx, d')" by (metis prod_cases3)
  with apply_normal_refines [OF ok an] app Normal show ?thesis
    by (cases resp) (auto simp: apply_entry_def spec_entry_def)
qed (use assms in \<open>auto simp: apply_entry_def spec_entry_def Let_def\<close>)

lemma apply_entries_refines:
  "tables_ok (sm_db m) \<Longrightarrow> apply_entries es m = (out, m') \<Longrightarrow>
   spec_entries es (replicated (sm_db m)) = (out, replicated (sm_db m')) \<and> tables_ok (sm_db m')"
proof (induction es arbitrary: m out m')
  case (Cons e es)
  obtain r m1 where e: "apply_entry e m = (r, m1)" by fastforce
  note R = apply_entry_refines [OF Cons.prems(1) e]
  show ?case
  proof (cases r)
    case (Inl msg)
    with Cons.prems(2) e R show ?thesis by auto
  next
    case (Inr resp)
    obtain r2 m2 where es: "apply_entries es m1 = (r2, m2)" by fastforce
    with Cons.IH [OF _ es] R Cons.prems(2) e Inr show ?thesis by (cases r2) auto
  qed
qed simp

definition empty_machine :: "'m \<Rightarrow> 'm machine" where
  "empty_machine mem = \<lparr>sm_db =
     \<lparr>settings = [], stream_rows = [], viewer_rows = [], owner_rows = [], publisher_rows = [], player_rows = [],
      stat_rows = [], active_player_counts = [], unpersisted_player_counts = [], pending_publishers = [],
      pending_players = [], auth_generation = 0, access_keys = \<lparr>ks_generation = None, ks_play = [], ks_publish = []\<rparr>\<rparr>,
     last_applied = None, last_membership = (None, mem), current_snapshot = None, snapshot_idx = 0, sent_effects = [],
     meta_last_applied = None, meta_last_membership = None, stored_snapshot_row = None\<rparr>"

lemma empty_machine_ok: "tables_ok (sm_db (empty_machine mem))"
  by (simp add: empty_machine_def tables_ok_def)

definition demo_entry :: "u64 \<Rightarrow> cluster_command \<Rightarrow> unit raft_entry" where
  "demo_entry i cmd = \<lparr>e_log_id = LogId 1 1 i, e_payload = Normal cmd\<rparr>"

text \<open>
  C1. The state machine implements the replicated maps. Whatever entries are applied, the responses (or the
  error that stops the apply) and the streams, play keys, owners, token and cluster identity the node then
  holds are those the meaning of the commands gives for the same entries, and the tables keep their
  constraints. The meaning sees neither the sessions of the node nor the order of its rows.
\<close>

theorem machine_implements_log:
  assumes "tables_ok (sm_db m)"
  shows "spec_entries es (replicated (sm_db m)) =
      (fst (apply_entries es m), replicated (sm_db (snd (apply_entries es m)))) \<and>
    tables_ok (sm_db (snd (apply_entries es m)))"
  using apply_entries_refines [OF assms, of es] by (metis prod.collapse)

theorem machine_implements_log_witness:
  "spec_entries [demo_entry 1 (SetApiToken ''secret''), demo_entry 2 (FinalizeDeleteStream ''s'')]
     (replicated (sm_db (empty_machine ()))) =
   (fst (apply_entries [demo_entry 1 (SetApiToken ''secret''), demo_entry 2 (FinalizeDeleteStream ''s'')] (empty_machine ())),
    replicated (sm_db (snd (apply_entries [demo_entry 1 (SetApiToken ''secret''), demo_entry 2 (FinalizeDeleteStream ''s'')]
      (empty_machine ())))))"
  by (rule machine_implements_log [OF empty_machine_ok, THEN conjunct1])

end
