(* ===== verification/Snapshot_Props.thy ===== *)
theory Snapshot_Props
  imports Raft_Props
begin

text \<open>
  Snapshots: installing one gives a node the tables it was built from, whatever the node held; the
  builder returns, and labels what it publishes with the position it really has.
\<close>

section \<open>Inserting the rows of a list\<close>

lemma bump_fields [simp]:
  "stream_rows (bump n d) = stream_rows d" "viewer_rows (bump n d) = viewer_rows d" "owner_rows (bump n d) = owner_rows d"
  "publisher_rows (bump n d) = publisher_rows d" "player_rows (bump n d) = player_rows d" "stat_rows (bump n d) = stat_rows d"
  "settings (bump n d) = settings d"
  by (simp_all add: bump_def)

lemma insert_streams:
  assumes "distinct (map s_id (stream_rows d) @ map s_id ss)" "distinct (map s_publish_key (stream_rows d) @ map s_publish_key ss)"
    "distinct (map s_play_key (stream_rows d) @ map s_play_key ss)" "distinct (map s_stats_key (stream_rows d) @ map s_stats_key ss)"
  shows "fold_res (\<lambda>s. insert_stream_row (new_stream_row s [])) ss d =
    Inr (bump (length ss) (d\<lparr>stream_rows := stream_rows d @ map (\<lambda>s. new_stream_row s []) ss\<rparr>))"
  using assms
proof (induction ss arbitrary: d)
  case (Cons s ss)
  let ?d = "bump 1 (d\<lparr>stream_rows := stream_rows d @ [new_stream_row s []]\<rparr>)"
  have "insert_stream_row (new_stream_row s []) d = Inr ?d"
    using Cons.prems by (auto simp: insert_stream_row_def list_ex_iff rev_image_eqI)
  moreover have "fold_res (\<lambda>s. insert_stream_row (new_stream_row s [])) ss ?d =
      Inr (bump (length ss) (?d\<lparr>stream_rows := stream_rows ?d @ map (\<lambda>s. new_stream_row s []) ss\<rparr>))"
    using Cons.prems by (intro Cons.IH) (simp_all add: bump_def)
  ultimately show ?case by (simp add: bump_def)
qed (simp add: bump_def)

lemma insert_viewers:
  assumes "distinct (map v_id vs)" "distinct (map v_play_key vs)" "v_stream_id ` set vs \<subseteq> s_id ` set (stream_rows d)"
    and "viewer_rows d = []"
  shows "fold_res insert_viewer_row vs d = Inr (bump (length vs) (d\<lparr>viewer_rows := vs\<rparr>))"
proof -
  have "fold_res insert_viewer_row vs d = Inr (bump (length vs) (d\<lparr>viewer_rows := viewer_rows d @ vs\<rparr>))"
    if "distinct (map v_id (viewer_rows d @ vs))" "distinct (map v_play_key (viewer_rows d @ vs))"
      "v_stream_id ` set vs \<subseteq> s_id ` set (stream_rows d)" for d
    using that
  proof (induction vs arbitrary: d)
    case (Cons v vs)
    let ?d = "bump 1 (d\<lparr>viewer_rows := viewer_rows d @ [v]\<rparr>)"
    have "insert_viewer_row v d = Inr ?d"
      using Cons.prems by (auto simp: insert_viewer_row_def list_ex_iff has_stream_def rev_image_eqI)
    moreover have "fold_res insert_viewer_row vs ?d = Inr (bump (length vs) (?d\<lparr>viewer_rows := viewer_rows ?d @ vs\<rparr>))"
      using Cons.prems by (intro Cons.IH) (simp_all add: bump_def)
    ultimately show ?case by (simp add: bump_def)
  qed (simp add: bump_def)
  from this [of d] assms show ?thesis by simp
qed

lemma insert_owners:
  assumes "distinct (map o_stream_id (owner_rows d @ ws))" "o_stream_id ` set ws \<subseteq> s_id ` set (stream_rows d)"
  shows "fold_res insert_owner_row ws d = Inr (d\<lparr>owner_rows := owner_rows d @ ws\<rparr>)"
  using assms
proof (induction ws arbitrary: d)
  case (Cons w ws)
  have "insert_owner_row w d = Inr (d\<lparr>owner_rows := owner_rows d @ [w]\<rparr>)"
    using Cons.prems by (auto simp: insert_owner_row_def list_ex_iff has_stream_def rev_image_eqI)
  with Cons show ?case by simp
qed simp

lemma insert_publishers:
  assumes "distinct (map pub_id (publisher_rows d @ map f ps))" "\<forall>p \<in> set ps. has_stream d (pub_stream_id (f p))"
  shows "fold_res (\<lambda>p. insert_publisher_row (f p)) ps d = Inr (d\<lparr>publisher_rows := publisher_rows d @ map f ps\<rparr>)"
  using assms
proof (induction ps arbitrary: d)
  case (Cons p ps)
  have "insert_publisher_row (f p) d = Inr (d\<lparr>publisher_rows := publisher_rows d @ [f p]\<rparr>)"
    using Cons.prems by (auto simp: insert_publisher_row_def list_ex_iff rev_image_eqI)
  with Cons show ?case by (simp add: has_stream_def)
qed simp

lemma insert_players:
  assumes "distinct (map pl_id (player_rows d @ map f ps))" "\<forall>p \<in> set ps. has_stream d (pl_stream_id (f p))"
  shows "fold_res (\<lambda>p. insert_player_row (f p)) ps d = Inr (d\<lparr>player_rows := player_rows d @ map f ps\<rparr>)"
  using assms
proof (induction ps arbitrary: d)
  case (Cons p ps)
  have "insert_player_row (f p) d = Inr (d\<lparr>player_rows := player_rows d @ [f p]\<rparr>)"
    using Cons.prems by (auto simp: insert_player_row_def list_ex_iff rev_image_eqI)
  with Cons show ?case by (simp add: has_stream_def)
qed simp

lemma insert_stats:
  assumes "\<forall>x \<in> set xs. has_stream d (st_stream_id x)"
  shows "fold_res insert_stat_row xs d = Inr (d\<lparr>stat_rows := stat_rows d @ xs\<rparr>)"
  using assms by (induction xs arbitrary: d) (simp_all add: insert_stat_row_def has_stream_def)

section \<open>Restoring what a row of \<open>Stream\<close> does not carry\<close>

lemma update_rows_fields:
  "stream_rows (snd (update_stream_rows P f d)) = map (\<lambda>r. if P r then f r else r) (stream_rows d)"
  "viewer_rows (snd (update_stream_rows P f d)) = viewer_rows d" "owner_rows (snd (update_stream_rows P f d)) = owner_rows d"
  "publisher_rows (snd (update_stream_rows P f d)) = publisher_rows d" "player_rows (snd (update_stream_rows P f d)) = player_rows d"
  "stat_rows (snd (update_stream_rows P f d)) = stat_rows d" "settings (snd (update_stream_rows P f d)) = settings d"
  by (simp_all add: update_stream_rows_def Let_def bump_def)

definition set_tokens :: "(string \<times> string) list \<Rightarrow> stream_row \<Rightarrow> stream_row" where
  "set_tokens ts r = foldl (\<lambda>r (sid, t). if s_id r = sid then r\<lparr>delete_token := t\<rparr> else r) r ts"

lemma set_tokens_Nil [simp]: "set_tokens [] = (\<lambda>r. r)"
  by (simp add: set_tokens_def fun_eq_iff)

lemma truncate_simps [simp]: "s_id (stream.truncate r) = s_id r" "s_publish_key (stream.truncate r) = s_publish_key r"
  "s_play_key (stream.truncate r) = s_play_key r" "s_stats_key (stream.truncate r) = s_stats_key r"
  by (simp_all add: stream.defs)

lemma set_tokens_other: "s_id r \<notin> fst ` set ts \<Longrightarrow> set_tokens ts r = r"
  unfolding set_tokens_def by (induction ts) auto

lemma set_tokens_id: "s_id (set_tokens ts r) = s_id r"
  unfolding set_tokens_def by (induction ts arbitrary: r) auto

lemma set_tokens_hit:
  assumes "distinct (map fst ts)" "(s_id r, t) \<in> set ts"
  shows "set_tokens ts r = r\<lparr>delete_token := t\<rparr>"
  using assms
proof (induction ts)
  case (Cons p ts)
  show ?case
  proof (cases "p = (s_id r, t)")
    case True
    with Cons.prems have "set_tokens ts (r\<lparr>delete_token := t\<rparr>) = r\<lparr>delete_token := t\<rparr>"
      by (intro set_tokens_other) (auto simp: image_iff)
    with True show ?thesis by (simp add: set_tokens_def)
  next
    case False
    with Cons.prems have "fst p \<noteq> s_id r" by (cases p) (auto simp: rev_image_eqI)
    with Cons False show ?thesis by (cases p) (auto simp: set_tokens_def)
  qed
qed simp

lemma token_updates:
  fixes ts :: "(string \<times> string) list"
  defines "upd \<equiv> \<lambda>d (sid, token). snd (update_stream_rows (\<lambda>r. s_id r = sid) (\<lambda>r. r\<lparr>delete_token := token\<rparr>) d)"
  shows "stream_rows (foldl upd d ts) = map (set_tokens ts) (stream_rows d)"
    and "viewer_rows (foldl upd d ts) = viewer_rows d \<and> owner_rows (foldl upd d ts) = owner_rows d \<and>
      publisher_rows (foldl upd d ts) = publisher_rows d \<and> player_rows (foldl upd d ts) = player_rows d \<and>
      stat_rows (foldl upd d ts) = stat_rows d \<and> settings (foldl upd d ts) = settings d"
proof -
  show "stream_rows (foldl upd d ts) = map (set_tokens ts) (stream_rows d)"
    by (induction ts arbitrary: d) (auto simp: upd_def update_rows_fields set_tokens_def)
  show "viewer_rows (foldl upd d ts) = viewer_rows d \<and> owner_rows (foldl upd d ts) = owner_rows d \<and>
      publisher_rows (foldl upd d ts) = publisher_rows d \<and> player_rows (foldl upd d ts) = player_rows d \<and>
      stat_rows (foldl upd d ts) = stat_rows d \<and> settings (foldl upd d ts) = settings d"
    by (induction ts arbitrary: d) (auto simp: upd_def update_rows_fields)
qed

lemma restore_pending_fields:
  "stream_rows (restore_pending ids d) = map (\<lambda>r. if s_id r \<in> set ids then r\<lparr>pending_delete := True\<rparr> else r) (stream_rows d)"
  "viewer_rows (restore_pending ids d) = viewer_rows d \<and> owner_rows (restore_pending ids d) = owner_rows d \<and>
   publisher_rows (restore_pending ids d) = publisher_rows d \<and> player_rows (restore_pending ids d) = player_rows d \<and>
   stat_rows (restore_pending ids d) = stat_rows d \<and> settings (restore_pending ids d) = settings d"
proof -
  show "stream_rows (restore_pending ids d) = map (\<lambda>r. if s_id r \<in> set ids then r\<lparr>pending_delete := True\<rparr> else r) (stream_rows d)"
    unfolding restore_pending_def by (induction ids arbitrary: d) (auto simp: update_rows_fields)
  show "viewer_rows (restore_pending ids d) = viewer_rows d \<and> owner_rows (restore_pending ids d) = owner_rows d \<and>
   publisher_rows (restore_pending ids d) = publisher_rows d \<and> player_rows (restore_pending ids d) = player_rows d \<and>
   stat_rows (restore_pending ids d) = stat_rows d \<and> settings (restore_pending ids d) = settings d"
    unfolding restore_pending_def by (induction ids arbitrary: d) (auto simp: update_rows_fields)
qed

definition tokens_set :: "db \<Rightarrow> bool" where
  "tokens_set d \<longleftrightarrow> [] \<notin> delete_token ` set (stream_rows d)"

lemma restored_row:
  assumes "tables_ok d" and "r \<in> set (stream_rows d)"
  shows "(if s_id r \<in> set (stream_ids_pending_delete d)
      then (set_tokens (stream_delete_tokens d) (new_stream_row (stream.truncate r) []))\<lparr>pending_delete := True\<rparr>
      else set_tokens (stream_delete_tokens d) (new_stream_row (stream.truncate r) [])) = r"
proof -
  have id: "s_id (new_stream_row (stream.truncate r) []) = s_id r" by (simp add: stream.defs)
  have "set_tokens (stream_delete_tokens d) (new_stream_row (stream.truncate r) []) =
      (new_stream_row (stream.truncate r) [])\<lparr>delete_token := delete_token r\<rparr>"
    using tables_okD(1) [OF assms(1)] assms(2)
    by (intro set_tokens_hit) (auto simp: stream_delete_tokens_def comp_def id rev_image_eqI)
  moreover have "s_id r \<in> set (stream_ids_pending_delete d) \<longleftrightarrow> pending_delete r"
    using tables_okD(1) [OF assms(1)] assms(2) by (auto simp: stream_ids_pending_delete_def distinct_map dest: inj_onD)
  ultimately show ?thesis by (cases r) (auto simp: new_stream_row_def stream.defs)
qed

section \<open>Installing\<close>

definition sessions_ok :: "db \<Rightarrow> bool" where
  "sessions_ok d \<longleftrightarrow> distinct (map pub_id (publisher_rows d)) \<and> distinct (map pl_id (player_rows d)) \<and>
     pub_stream_id ` set (publisher_rows d) \<subseteq> s_id ` set (stream_rows d) \<and>
     pl_stream_id ` set (player_rows d) \<subseteq> s_id ` set (stream_rows d) \<and>
     st_stream_id ` set (stat_rows d) \<subseteq> s_id ` set (stream_rows d)"

lemma wipe_fields:
  assumes "sessions_ok d"
  shows "stream_rows (wipe_replicated d) = []" "viewer_rows (wipe_replicated d) = []" "owner_rows (wipe_replicated d) = []"
    "publisher_rows (wipe_replicated d) = []" "player_rows (wipe_replicated d) = []" "stat_rows (wipe_replicated d) = []"
    "settings (wipe_replicated d) = settings d"
  using assms by (auto simp: wipe_replicated_def delete_stream_rows_def Let_def bump_def sessions_ok_def filter_empty_conv)

lemma restore_tokens_fields:
  assumes "[] \<notin> delete_token ` set (map (set_tokens ts) (stream_rows d))"
  shows "stream_rows (restore_tokens ts d) = map (set_tokens ts) (stream_rows d)"
    "viewer_rows (restore_tokens ts d) = viewer_rows d \<and> owner_rows (restore_tokens ts d) = owner_rows d \<and>
      publisher_rows (restore_tokens ts d) = publisher_rows d \<and> player_rows (restore_tokens ts d) = player_rows d \<and>
      stat_rows (restore_tokens ts d) = stat_rows d \<and> settings (restore_tokens ts d) = settings d"
  using assms token_updates [where ts = ts and d = d]
  by (auto simp: restore_tokens_def backfill_delete_tokens_def update_rows_fields image_iff)

lemma restored_streams:
  assumes ok: "tables_ok d0" and ts: "tokens_set d0"
  defines "fresh \<equiv> map (\<lambda>s. new_stream_row s []) (stream_list d0)"
  shows "map (\<lambda>r. if s_id r \<in> set (stream_ids_pending_delete d0) then r\<lparr>pending_delete := True\<rparr> else r)
      (map (set_tokens (stream_delete_tokens d0)) fresh) = sort_key s_created_at (stream_rows d0)"
    and "[] \<notin> delete_token ` set (map (set_tokens (stream_delete_tokens d0)) fresh)"
proof -
  let ?fix = "\<lambda>r. if s_id r \<in> set (stream_ids_pending_delete d0) then r\<lparr>pending_delete := True\<rparr> else r"
  let ?f = "\<lambda>r. set_tokens (stream_delete_tokens d0) (new_stream_row (stream.truncate r) [])"
  have row: "?fix (?f r) = r" if "r \<in> set (stream_rows d0)" for r
    using restored_row [OF ok that] by (simp add: set_tokens_id)
  have eq: "map (set_tokens (stream_delete_tokens d0)) fresh = map ?f (sort_key s_created_at (stream_rows d0))"
    by (simp add: fresh_def stream_list_def)
  show "map ?fix (map (set_tokens (stream_delete_tokens d0)) fresh) = sort_key s_created_at (stream_rows d0)"
    unfolding eq map_map using row by (intro map_idI) simp
  have "delete_token (?f r) = delete_token (?fix (?f r))" for r by simp
  then have "delete_token (?f r) = delete_token r" if "r \<in> set (stream_rows d0)" for r using row [OF that] by metis
  then show "[] \<notin> delete_token ` set (map (set_tokens (stream_delete_tokens d0)) fresh)"
    using ts unfolding eq tokens_set_def by (auto simp: image_iff)
qed

lemma install_streams_viewers:
  assumes ok: "tables_ok d0" and ts: "tokens_set d0" and wiped: "stream_rows d = []" "viewer_rows d = []"
  obtains d1 d2 where
    "fold_res (\<lambda>s. insert_stream_row (new_stream_row s [])) (stream_list d0) d = Inr d1"
    "fold_res insert_viewer_row (viewer_list_all d0)
       (restore_pending (stream_ids_pending_delete d0) (restore_tokens (stream_delete_tokens d0) d1)) = Inr d2"
    "stream_rows d2 = sort_key s_created_at (stream_rows d0)" "viewer_rows d2 = sort_key v_created_at (viewer_rows d0)"
    "owner_rows d2 = owner_rows d" "publisher_rows d2 = publisher_rows d" "player_rows d2 = player_rows d"
    "stat_rows d2 = stat_rows d" "settings d2 = settings d"
proof -
  note D = tables_okD [OF ok]
  have keys: "distinct (map s_id (stream_list d0))" "distinct (map s_publish_key (stream_list d0))"
    "distinct (map s_play_key (stream_list d0))" "distinct (map s_stats_key (stream_list d0))"
    using D by (auto simp: stream_list_def distinct_map comp_def inj_on_def)
  let ?d1 = "bump (length (stream_list d0)) (d\<lparr>stream_rows := map (\<lambda>s. new_stream_row s []) (stream_list d0)\<rparr>)"
  have 1: "fold_res (\<lambda>s. insert_stream_row (new_stream_row s [])) (stream_list d0) d = Inr ?d1"
    using insert_streams [of d "stream_list d0"] keys wiped by simp
  let ?t = "restore_tokens (stream_delete_tokens d0) ?d1"
  let ?p = "restore_pending (stream_ids_pending_delete d0) ?t"
  have rows1: "stream_rows ?d1 = map (\<lambda>s. new_stream_row s []) (stream_list d0)" by (simp add: bump_def)
  note T = restore_tokens_fields [of "stream_delete_tokens d0" ?d1, unfolded rows1, OF restored_streams(2) [OF ok ts]]
  have rows: "stream_rows ?p = sort_key s_created_at (stream_rows d0)"
    unfolding restore_pending_fields(1) T(1) by (rule restored_streams(1) [OF ok ts])
  have rest: "viewer_rows ?p = []" "owner_rows ?p = owner_rows d" "publisher_rows ?p = publisher_rows d"
    "player_rows ?p = player_rows d" "stat_rows ?p = stat_rows d" "settings ?p = settings d"
    using T(2) restore_pending_fields(2) [of "stream_ids_pending_delete d0" ?t] wiped by simp_all
  have 2: "fold_res insert_viewer_row (viewer_list_all d0) ?p =
      Inr (bump (length (viewer_list_all d0)) (?p\<lparr>viewer_rows := viewer_list_all d0\<rparr>))"
    using D rest(1) by (intro insert_viewers) (auto simp: rows viewer_list_all_def distinct_map inj_on_def)
  show ?thesis by (rule that [OF 1 2]) (simp_all add: rows rest viewer_list_all_def)
qed

lemma has_stream_upd [simp]:
  "has_stream (d\<lparr>publisher_rows := ps\<rparr>) = has_stream d" "has_stream (d\<lparr>player_rows := qs\<rparr>) = has_stream d"
  "has_stream (d\<lparr>stat_rows := xs\<rparr>) = has_stream d"
  by (simp_all add: has_stream_def fun_eq_iff)

lemma install_tx_rows:
  fixes d0 d :: db and la :: "log_id option"
  assumes ok: "tables_ok d0" and ts: "tokens_set d0" and loc: "sessions_ok d"
  defines "snap \<equiv> build_app_snapshot la d0"
  obtains d' where "install_tx snap d = Inr d'"
    "stream_rows d' = sort_key s_created_at (stream_rows d0)" "viewer_rows d' = sort_key v_created_at (viewer_rows d0)"
    "owner_rows d' = owner_rows d0"
    "publisher_rows d' = map (\<lambda>p. p\<lparr>pub_bytes_in := clamp_counter (pub_bytes_in p)\<rparr>)
       (filter (\<lambda>p. has_stream d0 (pub_stream_id p)) (publisher_rows d))"
    "player_rows d' = map (\<lambda>p. p\<lparr>pl_bytes_out := clamp_counter (pl_bytes_out p)\<rparr>)
       (filter (\<lambda>p. has_stream d0 (pl_stream_id p) \<and> viewer_exists (pl_viewer_id p) d0) (player_rows d))"
    "stat_rows d' = filter (\<lambda>s. has_stream d0 (st_stream_id s)) (stat_rows d)"
    "settings d' = settings (restore_settings snap d)"
proof -
  note D = tables_okD [OF ok] and W = wipe_fields [OF loc]
  obtain d1 d2 where d12: "fold_res (\<lambda>s. insert_stream_row (new_stream_row s [])) (stream_list d0) (wipe_replicated d) = Inr d1"
    "fold_res insert_viewer_row (viewer_list_all d0)
       (restore_pending (stream_ids_pending_delete d0) (restore_tokens (stream_delete_tokens d0) d1)) = Inr d2"
    and f: "stream_rows d2 = sort_key s_created_at (stream_rows d0)" "viewer_rows d2 = sort_key v_created_at (viewer_rows d0)"
    "owner_rows d2 = []" "publisher_rows d2 = []" "player_rows d2 = []" "stat_rows d2 = []" "settings d2 = settings d"
    using install_streams_viewers [OF ok ts W(1,2)] W by metis
  have hs: "has_stream d2 = has_stream d0" "viewer_exists vid d2 = viewer_exists vid d0" for vid
    by (auto simp: has_stream_def viewer_exists_def list_ex_iff f fun_eq_iff)
  let ?P = "filter (\<lambda>p. has_stream d0 (pub_stream_id p)) (publisher_rows d)"
  let ?Q = "filter (\<lambda>p. has_stream d0 (pl_stream_id p) \<and> viewer_exists (pl_viewer_id p) d0) (player_rows d)"
  let ?S = "filter (\<lambda>s. has_stream d0 (st_stream_id s)) (stat_rows d)"
  let ?cp = "\<lambda>p. p\<lparr>pub_bytes_in := clamp_counter (pub_bytes_in p)\<rparr>" and ?cq = "\<lambda>p. p\<lparr>pl_bytes_out := clamp_counter (pl_bytes_out p)\<rparr>"
  let ?d3 = "d2\<lparr>publisher_rows := map ?cp ?P\<rparr>"
  let ?d4 = "?d3\<lparr>player_rows := map ?cq ?Q\<rparr>"
  let ?d5 = "?d4\<lparr>stat_rows := ?S\<rparr>"
  let ?d6 = "?d5\<lparr>owner_rows := owner_rows d0\<rparr>"
  have loc': "distinct (map pub_id ?P)" "distinct (map pl_id ?Q)" using loc by (simp_all add: sessions_ok_def distinct_map_filter)
  have 3: "fold_res (\<lambda>p. insert_publisher_row (?cp p)) ?P d2 = Inr ?d3"
    using insert_publishers [of d2 ?cp ?P] loc' f(4) by (simp add: hs comp_def)
  have 4: "fold_res (\<lambda>p. insert_player_row (?cq p)) ?Q ?d3 = Inr ?d4"
    using insert_players [of ?d3 ?cq ?Q] loc' f(5) by (simp add: comp_def hs)
  have 5: "fold_res insert_stat_row ?S ?d4 = Inr ?d5"
    using insert_stats [of ?S ?d4] f(6) by (simp add: hs)
  have 6: "fold_res insert_owner_row (owner_rows d0) ?d5 = Inr ?d6"
    using insert_owners [of ?d5 "owner_rows d0"] D f by simp
  have "install_tx snap d = Inr (restore_settings snap ?d6)"
    using d12 3 4 5 6 by (simp add: install_tx_def snap_def build_app_snapshot_def read_replicated_snapshot_def hs stream_owner_list_def)
  then show ?thesis
    by (rule that) (simp_all add: restore_settings_def Let_def setting_set_def f split: option.splits)
qed

lemma deactivate_sessions: "sessions_ok d \<Longrightarrow> sessions_ok (players_deactivate_for_viewer vid d)"
proof -
  assume ok: "sessions_ok d"
  let ?g = "\<lambda>r. if pl_viewer_id r = vid \<and> pl_active r then r\<lparr>pl_active := False\<rparr> else r"
  have ids: "map pl_id (map ?g (player_rows d)) = map pl_id (player_rows d)"
    and sids: "pl_stream_id ` set (map ?g (player_rows d)) = pl_stream_id ` set (player_rows d)"
    unfolding set_map image_image by (simp_all add: comp_def if_distrib cong: if_cong)
  have f: "player_rows (players_deactivate_for_viewer vid d) = map ?g (player_rows d)"
    "publisher_rows (players_deactivate_for_viewer vid d) = publisher_rows d"
    "stat_rows (players_deactivate_for_viewer vid d) = stat_rows d"
    "stream_rows (players_deactivate_for_viewer vid d) = stream_rows d"
    by (simp_all add: players_deactivate_for_viewer_def Let_def)
  show ?thesis using ok unfolding sessions_ok_def f ids sids .
qed

lemma deactivate_fold_sessions:
  "sessions_ok d \<Longrightarrow> sessions_ok (foldl (\<lambda>d vid. players_deactivate_for_viewer vid d) d vids)"
  by (induction vids arbitrary: d) (simp_all add: deactivate_sessions)

lemma deactivate_fold_fields:
  "stream_rows (foldl (\<lambda>d vid. players_deactivate_for_viewer vid d) d vids) = stream_rows d"
  "viewer_rows (foldl (\<lambda>d vid. players_deactivate_for_viewer vid d) d vids) = viewer_rows d"
  "owner_rows (foldl (\<lambda>d vid. players_deactivate_for_viewer vid d) d vids) = owner_rows d"
  "publisher_rows (foldl (\<lambda>d vid. players_deactivate_for_viewer vid d) d vids) = publisher_rows d"
  "settings (foldl (\<lambda>d vid. players_deactivate_for_viewer vid d) d vids) = settings d"
  by (induction vids arbitrary: d) (simp_all add: players_deactivate_for_viewer_def Let_def)

lemma restored_settings:
  assumes "snap = build_app_snapshot la d0"
  shows "nonempty (hm_get (settings (restore_settings snap d)) ''api_token'') = token_get d0"
    and "nonempty (hm_get (settings (restore_settings snap d)) ''cluster_id'') =
      (case setting_get ''cluster_id'' d0 of Some c \<Rightarrow> Some c | None \<Rightarrow> setting_get ''cluster_id'' d)"
proof -
  have snap: "snap_api_token snap = token_get d0" "snap_cluster_id snap = setting_get ''cluster_id'' d0"
    by (simp_all add: assms build_app_snapshot_def read_replicated_snapshot_def token_get_def setting_get_def)
  have ne: "nonempty (Some t) = Some t" if "token_get e = Some t \<or> setting_get k e = Some t" for t k e
    using that by (auto simp: token_get_def setting_get_def nonempty_def split: option.splits list.splits)
  show "nonempty (hm_get (settings (restore_settings snap d)) ''api_token'') = token_get d0"
    using ne [of d0 _ "''cluster_id''"]
    by (auto simp: restore_settings_def snap Let_def setting_set_def nonempty_def split: option.splits)
  show "nonempty (hm_get (settings (restore_settings snap d)) ''cluster_id'') =
      (case setting_get ''cluster_id'' d0 of Some c \<Rightarrow> Some c | None \<Rightarrow> setting_get ''cluster_id'' d)"
    using ne [of d0 _ "''cluster_id''"]
    by (auto simp: restore_settings_def snap Let_def setting_set_def setting_get_def [of _ d] split: option.splits)
qed

lemma install_snapshot_state:
  assumes ok: "tables_ok d0" and ts: "tokens_set d0" and loc: "sessions_ok d"
  obtains fx d' where "install_app_snapshot (build_app_snapshot la d0) d = Inr (fx, d')" "tables_ok d'" "tokens_set d'" "sessions_ok d'"
    "replicated d' = (replicated d0)\<lparr>a_cluster := (case a_cluster (replicated d0) of Some c \<Rightarrow> Some c | None \<Rightarrow> a_cluster (replicated d))\<rparr>"
    "publisher_rows d' = map (\<lambda>p. p\<lparr>pub_bytes_in := clamp_counter (pub_bytes_in p)\<rparr>)
       (filter (\<lambda>p. has_stream d0 (pub_stream_id p)) (publisher_rows d))"
proof -
  note D = tables_okD [OF ok]
  have loc': "sessions_ok (bump 1 d)" using loc by (simp add: sessions_ok_def bump_def)
  obtain e where e: "install_tx (build_app_snapshot la d0) (bump 1 d) = Inr e"
    "stream_rows e = sort_key s_created_at (stream_rows d0)" "viewer_rows e = sort_key v_created_at (viewer_rows d0)"
    "owner_rows e = owner_rows d0" "publisher_rows e = map (\<lambda>p. p\<lparr>pub_bytes_in := clamp_counter (pub_bytes_in p)\<rparr>)
       (filter (\<lambda>p. has_stream d0 (pub_stream_id p)) (publisher_rows (bump 1 d)))"
    "player_rows e = map (\<lambda>p. p\<lparr>pl_bytes_out := clamp_counter (pl_bytes_out p)\<rparr>)
       (filter (\<lambda>p. has_stream d0 (pl_stream_id p) \<and> viewer_exists (pl_viewer_id p) d0) (player_rows (bump 1 d)))"
    "stat_rows e = filter (\<lambda>s. has_stream d0 (st_stream_id s)) (stat_rows (bump 1 d))"
    "settings e = settings (restore_settings (build_app_snapshot la d0) (bump 1 d))"
    by (rule install_tx_rows [OF ok ts loc', of la]) (rule that; assumption)
  let ?d = "foldl (\<lambda>d vid. players_deactivate_for_viewer vid d) e (dropped_player_viewers (build_app_snapshot la d0) d)"
  have sorted: "distinct (map f (sort_key g rows)) = distinct (map f rows)" for f :: "'a \<Rightarrow> 'b" and g :: "'a \<Rightarrow> int" and rows
    by (simp add: distinct_map)
  have "tables_ok ?d" using D by (simp add: tables_ok_def deactivate_fold_fields e sorted)
  moreover have "sessions_ok ?d"
  proof (rule deactivate_fold_sessions)
    show "sessions_ok e"
      using loc by (auto simp: sessions_ok_def e has_stream_def list_ex_iff comp_def distinct_map_filter rev_image_eqI)
  qed
  moreover have "tokens_set ?d" using ts by (simp add: tokens_set_def deactivate_fold_fields e)
  moreover have "replicated ?d = (replicated d0)\<lparr>a_cluster := (case a_cluster (replicated d0) of Some c \<Rightarrow> Some c | None \<Rightarrow> a_cluster (replicated d))\<rparr>"
    using restored_settings [of "build_app_snapshot la d0" la d0 "bump 1 d"]
    by (simp add: replicated_def deactivate_fold_fields e by_key_sort D token_get_def setting_get_def bump_def cong: option.case_cong)
  ultimately show ?thesis
    using that e(1,5) by (simp add: install_app_snapshot_def deactivate_fold_fields bump_def)
qed

definition seeded_machine :: "unit machine" where
  "seeded_machine = (empty_machine ())\<lparr>sm_db := setting_set ''cluster_id'' ''c1''
     ((sm_db (empty_machine ()))\<lparr>stream_rows := [\<lparr>s_id = ''s'', s_name = ''s'', s_app = ''live'', s_publish_key = ''pk'',
       s_play_key = ''yk'', s_stats_key = ''tk'', s_enabled = True, s_created_at = 0, pending_delete = True,
       delete_token = ''t''\<rparr>]\<rparr>)\<rparr>"

text \<open>
  C3. A node that installs a snapshot continues like the node it came from. Whatever the receiving node held
  (streams of its own, live sessions), installing the snapshot built by a node succeeds and leaves it with the
  same streams - their pending deletions and delete identities included -, play keys, owners, token and cluster
  identity; and the two nodes then answer every further sequence of entries alike and stay equal.
\<close>

theorem snapshot_catch_up:
  fixes m n :: "'m machine"
  defines "s \<equiv> build_app_snapshot (last_applied m) (sm_db m)"
  assumes "tables_ok (sm_db m)" and "tokens_set (sm_db m)" and "a_cluster (replicated (sm_db m)) \<noteq> None"
    and "sessions_ok (sm_db n)" and "decode (encode s) = Some s"
  shows "case install_snapshot decode meta (encode s) n of (installed, n') \<Rightarrow>
      installed \<and> replicated (sm_db n') = replicated (sm_db m) \<and>
      fst (apply_entries es n') = fst (apply_entries es m) \<and>
      replicated (sm_db (snd (apply_entries es n'))) = replicated (sm_db (snd (apply_entries es m)))"
proof -
  obtain installed n' where inst: "install_snapshot decode meta (encode s) n = (installed, n')" by fastforce
  obtain fx d' where d': "install_app_snapshot (build_app_snapshot (last_applied m) (sm_db m)) (sm_db n) = Inr (fx, d')" "tables_ok d'"
    "replicated d' = (replicated (sm_db m))\<lparr>a_cluster := (case a_cluster (replicated (sm_db m)) of Some c \<Rightarrow> Some c
       | None \<Rightarrow> a_cluster (replicated (sm_db n)))\<rparr>"
    by (rule install_snapshot_state [OF assms(2,3,5), of "last_applied m"]) (rule that; assumption)
  have same: "replicated d' = replicated (sm_db m)" using d'(3) assms(4) by (auto simp: replicated_def)
  have n': "installed" "replicated (sm_db n') = replicated d'" "tables_ok (sm_db n')"
    using inst assms(6) d'(1,2) by (auto simp: s_def install_snapshot_def Let_def split: option.splits)
  have "spec_entries es (replicated (sm_db n')) = spec_entries es (replicated (sm_db m))" using n'(2) same by simp
  with apply_entries_refines [OF n'(3), of es] apply_entries_refines [OF assms(2), of es]
  have "fst (apply_entries es n') = fst (apply_entries es m) \<and>
      replicated (sm_db (snd (apply_entries es n'))) = replicated (sm_db (snd (apply_entries es m)))"
    by (metis prod.collapse prod.inject)
  with inst n' same show ?thesis by simp
qed

theorem snapshot_catch_up_witness:
  "case install_snapshot (\<lambda>_. Some (build_app_snapshot (last_applied seeded_machine) (sm_db seeded_machine)))
       \<lparr>meta_last_log_id = None, meta_membership = (None, ()), meta_snapshot_id = (None, 1)\<rparr> [] (empty_machine ()) of
     (installed, n') \<Rightarrow> installed \<and> replicated (sm_db n') = replicated (sm_db seeded_machine) \<and>
       fst (apply_entries [demo_entry 1 (FinalizeDeleteStream ''s'')] n') =
       fst (apply_entries [demo_entry 1 (FinalizeDeleteStream ''s'')] seeded_machine) \<and>
       replicated (sm_db (snd (apply_entries [demo_entry 1 (FinalizeDeleteStream ''s'')] n'))) =
       replicated (sm_db (snd (apply_entries [demo_entry 1 (FinalizeDeleteStream ''s'')] seeded_machine)))"
  by (rule snapshot_catch_up [where encode = "\<lambda>_. []"])
    (simp_all add: seeded_machine_def empty_machine_def setting_set_def tables_ok_def tokens_set_def sessions_ok_def
      replicated_def setting_get_def nonempty_def)

end
