(* ===== verification/Node_Runs.thy ===== *)
theory Node_Runs
  imports Snapshot_Props
begin

text \<open>
  The life of a node: entries of the log, snapshots received and built, sessions and restarts in any
  order. What a node holds, and every snapshot it has, is the result of a prefix of the log, and the
  label says which.
\<close>

section \<open>What every command keeps\<close>

text \<open>Sessions refer to streams that exist, and every stream has a delete identity.\<close>

definition local_ok :: "db \<Rightarrow> bool" where
  "local_ok d \<longleftrightarrow> sessions_ok d \<and> tokens_set d"

lemma local_ok_grow:
  assumes "local_ok d" and "s_id ` set (stream_rows d) \<subseteq> s_id ` set (stream_rows d')" and "tokens_set d'"
    and "publisher_rows d' = publisher_rows d" "player_rows d' = player_rows d" "stat_rows d' = stat_rows d"
  shows "local_ok d'"
proof -
  have "A \<subseteq> s_id ` set (stream_rows d')" if "A \<subseteq> s_id ` set (stream_rows d)" for A
    using that assms(2) by (rule subset_trans)
  with assms show ?thesis by (simp add: local_ok_def sessions_ok_def)
qed

lemma legacy_token_nonempty: "legacy_delete_token sid key \<noteq> []"
  by (simp add: legacy_delete_token_def hex16_def)

lemma insert_stream_local:
  assumes "local_ok d" "insert_stream_row (new_stream_row s t) d = Inr d'" "t \<noteq> []"
  shows "local_ok d'"
proof -
  from assms(2) have d': "d' = bump 1 (d\<lparr>stream_rows := stream_rows d @ [new_stream_row s t]\<rparr>)"
    by (auto simp: insert_stream_row_def split: if_splits)
  show ?thesis
    using assms(1,3) by (intro local_ok_grow [OF assms(1)]) (auto simp: d' tokens_set_def local_ok_def)
qed

lemma insert_viewer_local: "local_ok d \<Longrightarrow> insert_viewer_row v d = Inr d' \<Longrightarrow> local_ok d'"
proof -
  assume "local_ok d" "insert_viewer_row v d = Inr d'"
  moreover from this(2) have "d' = bump 1 (d\<lparr>viewer_rows := viewer_rows d @ [v]\<rparr>)"
    by (auto simp: insert_viewer_row_def split: if_splits)
  ultimately show ?thesis by (simp add: local_ok_def sessions_ok_def tokens_set_def)
qed

lemma update_stream_local:
  assumes "local_ok d" and "\<And>r. s_id (f r) = s_id r" and "\<And>r. delete_token (f r) = delete_token r"
  shows "local_ok (snd (update_stream_rows P f d))"
proof -
  let ?g = "\<lambda>r. if P r then f r else r"
  have "s_id ` set (map ?g (stream_rows d)) = s_id ` set (stream_rows d)"
    and "delete_token ` set (map ?g (stream_rows d)) = delete_token ` set (stream_rows d)"
    unfolding set_map image_image using assms(2,3) by (auto intro!: image_cong)
  with assms(1) show ?thesis
    by (simp del: set_map add: local_ok_def sessions_ok_def tokens_set_def update_rows_fields)
qed

lemma delete_stream_local: "local_ok d \<Longrightarrow> local_ok (snd (delete_stream_rows P d))"
proof -
  assume ok: "local_ok d"
  let ?gone = "s_id ` {r \<in> set (stream_rows d). P r}" and ?left = "s_id ` {r \<in> set (stream_rows d). \<not> P r}"
  have keep: "x \<in> ?left" if "x \<in> s_id ` set (stream_rows d)" "x \<notin> ?gone" for x
    using that by blast
  show ?thesis
    using ok unfolding local_ok_def sessions_ok_def tokens_set_def
    by (simp add: delete_stream_rows_def Let_def distinct_map_filter) (blast intro: keep)
qed

lemma owners_local: "local_ok (d\<lparr>owner_rows := ws\<rparr>) = local_ok d"
  by (simp add: local_ok_def sessions_ok_def tokens_set_def)

lemma settings_local: "local_ok (d\<lparr>settings := ss\<rparr>) = local_ok d"
  by (simp add: local_ok_def sessions_ok_def tokens_set_def)

lemma bump_local [simp]: "local_ok (bump n d) = local_ok d"
  by (simp add: local_ok_def sessions_ok_def tokens_set_def)

lemma deactivate_local: "local_ok d \<Longrightarrow> local_ok (players_deactivate_for_viewer vid d)"
  by (simp add: local_ok_def deactivate_sessions tokens_set_def players_deactivate_tables)

text \<open>A seed carries the delete identities of a database that was opened, so none is empty.\<close>

fun seed_tokens_ok :: "cluster_command \<Rightarrow> bool" where
  "seed_tokens_ok (SeedFromStandalone ss vs tokens api_token pending) = ([] \<notin> snd ` set tokens)"
| "seed_tokens_ok _ = True"

lemma collect_map_values: "hm_get (collect_map ts) k = Some t \<Longrightarrow> t \<in> snd ` set ts"
proof -
  have "hm_get (foldl (\<lambda>m (k, v). hm_insert k v m) m ts) k = Some t \<Longrightarrow> t \<in> snd ` set ts \<or> hm_get m k = Some t" for m
  proof (induction ts arbitrary: m)
    case (Cons p ts)
    then show ?case using Cons.IH [of "hm_insert (fst p) (snd p) m"] by (cases p) (auto split: if_splits)
  qed simp
  from this [of "[]"] show "hm_get (collect_map ts) k = Some t \<Longrightarrow> t \<in> snd ` set ts" by (auto simp: collect_map_def)
qed

lemma seed_streams_local:
  "local_ok d \<Longrightarrow> (\<And>k t. hm_get tokens k = Some t \<Longrightarrow> t \<noteq> []) \<Longrightarrow> local_ok (seed_streams tokens ss d)"
proof (induction ss arbitrary: d)
  case (Cons s ss)
  let ?t = "case hm_get tokens (s_id s) of Some t \<Rightarrow> t | None \<Rightarrow> legacy_delete_token (s_id s) (s_publish_key s)"
  have "?t \<noteq> []" using Cons.prems(2) legacy_token_nonempty by (auto split: option.splits)
  then have "local_ok d'" if "stream_insert_only_with_token s (Some ?t) [] d = Inr d'" for d'
    using that Cons.prems(1) insert_stream_local [of d s ?t d']
    by (auto simp: stream_insert_only_with_token_def split: if_splits sum.splits)
  with Cons show ?case by (auto simp: Let_def split: sum.splits)
qed simp

lemma viewer_add_local: "local_ok d \<Longrightarrow> viewer_add v d = Inr d' \<Longrightarrow> local_ok d'"
  using insert_viewer_local by (auto simp: viewer_add_def Let_def split: if_splits sum.splits sql_error.splits)

lemma seed_viewers_local: "local_ok d \<Longrightarrow> local_ok (snd (seed_viewers vs d))"
  by (induction vs arbitrary: d) (auto simp: viewer_add_local split: sum.splits viewer_add_error.splits)

lemma disable_expecting_local: "local_ok d \<Longrightarrow> local_ok (snd (stream_disable_expecting sid c t d))"
  using update_stream_local [of d "\<lambda>r. r\<lparr>s_enabled := False, pending_delete := True\<rparr>" "matches_identity sid c t"]
  by (simp add: stream_disable_expecting_def split_beta)

lemma disable_local: "local_ok d \<Longrightarrow> local_ok (snd (stream_disable sid d))"
  using disable_expecting_local [of d sid None None] by (simp add: stream_disable_def split_beta)

lemma seed_local:
  assumes "local_ok d" "seed_tokens_ok (SeedFromStandalone ss vs ts tok pend)"
  shows "local_ok (snd (snd (seed_from_standalone ss vs ts tok pend d)))"
proof -
  have "local_ok (seed_streams (collect_map ts) ss d)"
    using assms collect_map_values [of ts] by (intro seed_streams_local) auto
  then have v: "local_ok (snd (seed_viewers vs (seed_streams (collect_map ts) ss d)))" by (rule seed_viewers_local)
  have "local_ok e \<Longrightarrow> local_ok (foldl (\<lambda>d sid. snd (stream_disable sid d)) e pend)" for e
    by (induction pend arbitrary: e) (simp_all add: disable_local)
  with v show ?thesis
    by (auto simp: seed_from_standalone_def Let_def split_beta token_replace_def settings_local split: option.splits)
qed

lemma delete_viewer_local: "local_ok d \<Longrightarrow> local_ok (snd (snd (delete_viewer_fenced sid vid d)))"
proof -
  assume ok: "local_ok d"
  have "local_ok (snd (viewer_delete sid vid d))"
    using ok by (simp add: viewer_delete_def delete_viewer_rows_def Let_def local_ok_def sessions_ok_def tokens_set_def)
  with ok show ?thesis
    by (cases "viewer_delete sid vid d")
      (auto simp: delete_viewer_fenced_def Let_def deactivate_local split: if_splits bool.splits)
qed

lemma create_stream_local:
  assumes ok: "local_ok d"
  shows "local_ok (snd (snd (apply_command (CreateStream s v given) d)))"
proof -
  define t where "t = (if given = [] then legacy_delete_token (s_id s) (s_publish_key s) else given)"
  have t: "t \<noteq> []" by (simp add: t_def legacy_token_nonempty)
  have "local_ok d'" if "stream_add_with_viewer_with_token s v t d = Inr d'" for d'
    using that insert_viewer_local [OF insert_stream_local [OF ok _ t]]
    by (auto simp: stream_add_with_viewer_with_token_def split: if_splits sum.splits)
  with ok show ?thesis by (auto simp: t_def [symmetric] Let_def split: sum.splits stream_add_error.splits)
qed

lemma acquire_local: "local_ok d \<Longrightarrow> stream_owner_acquire sid n e t d = Inr (ep, d') \<Longrightarrow> local_ok d'"
  by (auto simp: stream_owner_acquire_def insert_owner_row_def owners_local split: option.splits if_splits sum.splits)

lemma apply_command_local:
  assumes ok: "local_ok d" and seed: "seed_tokens_ok cmd"
  shows "local_ok (snd (snd (apply_command cmd d)))"
proof (cases cmd)
  case (CreateStream s v t)
  then show ?thesis using create_stream_local [OF ok, of s v t] by (simp only:)
next
  case (BeginDeleteStream sid c t)
  then show ?thesis using disable_expecting_local [OF ok, of sid c t]
    by (cases "stream_disable_expecting sid c t d") (auto split: stream_disable_outcome.splits)
next
  case (FinalizeDeleteStream sid)
  have "local_ok (snd (stream_delete_if_pending sid d))"
    using delete_stream_local [OF ok] by (simp add: stream_delete_if_pending_def split_beta)
  with FinalizeDeleteStream show ?thesis
    by (cases "stream_delete_if_pending sid d") (auto split: bool.splits db_lookup.splits)
next
  case (SetStreamEnabled sid e)
  have "local_ok (snd (stream_set_enabled sid e d))"
    using update_stream_local [OF ok, of "\<lambda>r. r\<lparr>s_enabled := e, pending_delete := False\<rparr>" "\<lambda>r. s_id r = sid"]
    by (simp add: stream_set_enabled_def split_beta)
  with SetStreamEnabled show ?thesis
    by (cases "stream_set_enabled sid e d") (auto split: bool.splits db_lookup.splits)
next
  case (CreateViewer v)
  with ok viewer_add_local [OF ok, of v] show ?thesis by (auto split: sum.splits viewer_add_error.splits)
next
  case (DeleteViewer sid vid)
  with ok show ?thesis by (simp add: delete_viewer_local)
next
  case (AcquireStreamOwner sid n e t)
  with ok acquire_local [OF ok, of sid n e t] show ?thesis by (auto split: sum.splits owner_error.splits)
next
  case (SeedFromStandalone ss vs ts tok pend)
  with seed_local [OF ok] seed show ?thesis by simp
qed (use ok in \<open>simp_all add: token_replace_def setting_set_def settings_local stream_owner_release_def
    stream_owners_release_for_node_def owners_local Let_def\<close>)

lemma apply_normal_local:
  assumes ok: "local_ok d" and seed: "seed_tokens_ok cmd"
  shows "local_ok (snd (snd (apply_normal index cmd d)))"
proof (cases cmd)
  case (AcquireStreamOwner sid n e t)
  with ok acquire_local [OF ok, of sid n "max index 1" t] show ?thesis
    by (auto simp: apply_normal_def split: sum.splits owner_error.splits)
next
  case (ReleaseOwnersForNode n e)
  with ok show ?thesis by (simp add: apply_normal_def stream_owners_release_for_node_def owners_local Let_def)
qed (use apply_command_local [OF ok seed] in \<open>simp_all add: apply_normal_def del: apply_command.simps\<close>)

lemma apply_entry_local:
  assumes "local_ok (sm_db m)" and "\<And>cmd. e_payload e = Normal cmd \<Longrightarrow> seed_tokens_ok cmd"
  shows "local_ok (sm_db (snd (apply_entry e m)))"
proof (cases "e_payload e")
  case (Normal cmd)
  with apply_normal_local [OF assms(1), of cmd "lid_index (e_log_id e)"] assms(2) show ?thesis
    by (cases "apply_normal (lid_index (e_log_id e)) cmd (sm_db m)")
      (auto simp: apply_entry_def Let_def split: cluster_response.splits)
qed (use assms(1) in \<open>simp_all add: apply_entry_def Let_def\<close>)

section \<open>Positions\<close>

definition position :: "'m raft_entry list \<Rightarrow> log_id option" where
  "position es = (if es = [] then None else Some (e_log_id (last es)))"

text \<open>\<open>B\<close> is what the prefix of the log that ends at \<open>p\<close> makes of \<open>A\<close>.\<close>

definition reached :: "'m raft_entry list \<Rightarrow> app_state \<Rightarrow> log_id option \<Rightarrow> app_state \<Rightarrow> bool" where
  "reached lg A p B \<longleftrightarrow> (\<exists>xs ys rs. lg = xs @ ys \<and> p = position xs \<and> spec_entries xs A = (Inr rs, B))"

lemma position_eq:
  assumes "distinct (map e_log_id (xs @ ys))" "xs @ ys = xs' @ ys'" "position xs = position xs'"
  shows "xs = xs'"
proof -
  have nil: "us = []" if "distinct (map e_log_id (zs @ us))" "position (zs @ us) = position zs" for zs us :: "'a raft_entry list"
    using that by (cases us rule: rev_cases) (auto simp: position_def split: if_splits)
  obtain us where "xs = xs' @ us \<and> us @ ys = ys' \<or> xs @ us = xs' \<and> ys = us @ ys'"
    using assms(2) by (auto simp: append_eq_append_conv2)
  then consider "xs = xs' @ us" | "xs' = xs @ us" "ys = us @ ys'" by metis
  then show ?thesis
  proof cases
    case 1
    with assms(1) have "distinct (map e_log_id (xs' @ us) @ map e_log_id ys)" by simp
    then have "distinct (map e_log_id (xs' @ us))" by (simp only: distinct_append)
    with 1 assms(3) nil [of xs' us] show ?thesis by simp
  next
    case 2
    with assms(1) have "distinct (map e_log_id (xs @ us) @ map e_log_id ys')" by simp
    then have "distinct (map e_log_id (xs @ us))" by (simp only: distinct_append)
    with 2 assms(3) nil [of xs us] show ?thesis by simp
  qed
qed

lemma spec_entries_snoc:
  assumes "spec_entries xs A = (Inr rs, B)" and "spec_entry e B = (Inr r, C)"
  shows "\<exists>rs'. spec_entries (xs @ [e]) A = (Inr rs', C)"
  using assms
proof (induction xs arbitrary: A rs)
  case (Cons x xs)
  from Cons.prems(1) obtain r1 A1 rs1 where "spec_entry x A = (Inr r1, A1)" "spec_entries xs A1 = (Inr rs1, B)"
    by (auto split: prod.splits sum.splits)
  with Cons.IH [of A1 rs1] Cons.prems(2) show ?case by auto
qed auto

lemma reached_next:
  assumes lg: "lg = xs @ e # ys" "distinct (map e_log_id lg)" and at: "reached lg A (position xs) B"
    and e: "spec_entry e B = (Inr r, C)"
  shows "reached lg A (Some (e_log_id e)) C"
proof -
  from at obtain us vs rs where us: "lg = us @ vs" "position xs = position us" "spec_entries us A = (Inr rs, B)"
    by (auto simp: reached_def)
  then have "us = xs" using position_eq [of xs "e # ys" us vs] lg by metis
  with us e obtain rs' where "spec_entries (xs @ [e]) A = (Inr rs', C)" using spec_entries_snoc by metis
  with lg show ?thesis
    unfolding reached_def by (intro exI [of _ "xs @ [e]"] exI [of _ ys]) (auto simp: position_def)
qed

section \<open>Steps of a node\<close>

text \<open>A snapshot is good when its payload is what a node with the tables of the labelled prefix builds.\<close>

definition good_payload :: "'m raft_entry list \<Rightarrow> app_state \<Rightarrow> log_id option \<Rightarrow> app_snapshot \<Rightarrow> bool" where
  "good_payload lg A p s \<longleftrightarrow>
     (\<exists>d. s = build_app_snapshot p d \<and> tables_ok d \<and> tokens_set d \<and> reached lg A p (replicated d))"

definition good_snapshot ::
    "(bytes \<Rightarrow> app_snapshot option) \<Rightarrow> 'm raft_entry list \<Rightarrow> app_state \<Rightarrow> 'm stored_snapshot \<Rightarrow> bool" where
  "good_snapshot decode lg A snap \<longleftrightarrow>
     (\<exists>s. decode (snd snap) = Some s \<and> good_payload lg A (meta_last_log_id (fst snap)) s)"

type_synonym 'm captured_image = "(app_snapshot \<times> log_id option \<times> 'm stored_membership) option"

text \<open>
  The steps. A node holds its machine and, while a snapshot is being encoded, what was captured for it. A
  snapshot is received from a node of the same cluster, after the identity of the cluster was set. The encoded
  payload is the one the decoder reads back.
\<close>

inductive node_step ::
    "(app_snapshot \<Rightarrow> bytes) \<Rightarrow> (bytes \<Rightarrow> app_snapshot option) \<Rightarrow> 'm raft_entry list \<Rightarrow> app_state \<Rightarrow>
     'm machine \<times> 'm captured_image \<Rightarrow> 'm machine \<times> 'm captured_image \<Rightarrow> bool"
  for encode decode lg A where
  applied: "lg = xs @ e # ys \<Longrightarrow> last_applied m = position xs \<Longrightarrow> apply_entry e m = (Inr r, m') \<Longrightarrow>
    node_step encode decode lg A (m, c) (m', c)"
| installed: "good_snapshot decode lg A (meta, data) \<Longrightarrow> decode data = Some s \<Longrightarrow> snap_cluster_id s \<noteq> None \<Longrightarrow>
    install_snapshot decode meta data m = (ok, m') \<Longrightarrow> node_step encode decode lg A (m, c) (m', c)"
| captured: "node_step encode decode lg A (m, c) (m, Some (capture m))"
| published: "number_snapshot encode cap m = (snap, m1) \<Longrightarrow> decode (encode (fst cap)) = Some (fst cap) \<Longrightarrow>
    publish snap m1 = (out, m') \<Longrightarrow> node_step encode decode lg A (m, Some cap) (m', None)"
| looked_up: "get_current_snapshot m = (out, m') \<Longrightarrow> node_step encode decode lg A (m, c) (m', c)"
| session: "stream_rows d = stream_rows (sm_db m) \<Longrightarrow> viewer_rows d = viewer_rows (sm_db m) \<Longrightarrow>
    owner_rows d = owner_rows (sm_db m) \<Longrightarrow> settings d = settings (sm_db m) \<Longrightarrow> sessions_ok d \<Longrightarrow>
    node_step encode decode lg A (m, c) (m\<lparr>sm_db := d\<rparr>, c)"
| restarted: "node_step encode decode lg A (m, c) (machine_new mem (m\<lparr>sm_db := open_existing (sm_db m)\<rparr>), None)"

definition node_ok ::
    "(bytes \<Rightarrow> app_snapshot option) \<Rightarrow> 'm raft_entry list \<Rightarrow> app_state \<Rightarrow> 'm machine \<times> 'm captured_image \<Rightarrow> bool" where
  "node_ok decode lg A n \<longleftrightarrow> (case n of (m, c) \<Rightarrow>
     tables_ok (sm_db m) \<and> local_ok (sm_db m) \<and> meta_last_applied m = last_applied m \<and>
     reached lg A (last_applied m) (replicated (sm_db m)) \<and>
     pred_option (good_snapshot decode lg A) (current_snapshot m) \<and>
     pred_option (good_snapshot decode lg A) (stored_snapshot_row m) \<and>
     pred_option (\<lambda>(s, p, _). good_payload lg A p s) c)"

lemma apply_entry_frame:
  assumes "apply_entry e m = (Inr r, m')"
  shows "last_applied m' = Some (e_log_id e)" "meta_last_applied m' = Some (e_log_id e)"
    "current_snapshot m' = current_snapshot m" "stored_snapshot_row m' = stored_snapshot_row m"
  using assms
  by (auto simp: apply_entry_def Let_def emit_effects_def persist_applied_tx_def split: entry_payload.splits prod.splits
      cluster_response.splits)

lemma applied_ok:
  assumes ok: "node_ok decode lg A (m, c)" and lg: "lg = xs @ e # ys" "distinct (map e_log_id lg)" "last_applied m = position xs"
    and seed: "\<And>cmd. e_payload e = Normal cmd \<Longrightarrow> seed_tokens_ok cmd" and e: "apply_entry e m = (Inr r, m')"
  shows "node_ok decode lg A (m', c)"
proof -
  have N: "tables_ok (sm_db m)" "local_ok (sm_db m)" "reached lg A (last_applied m) (replicated (sm_db m))"
    using ok by (simp_all add: node_ok_def)
  have R: "spec_entry e (replicated (sm_db m)) = (Inr r, replicated (sm_db m'))" "tables_ok (sm_db m')"
    using apply_entry_refines [OF N(1) e] by auto
  have "reached lg A (Some (e_log_id e)) (replicated (sm_db m'))"
    using reached_next [OF lg(1,2) _ R(1)] N(3) lg(3) by simp
  moreover have "local_ok (sm_db m')" using apply_entry_local [OF N(2) seed] e by (metis snd_conv)
  ultimately show ?thesis using ok R(2) apply_entry_frame [OF e] by (simp add: node_ok_def)
qed

lemma local_of_install:
  assumes "tables_ok d0" "tokens_set d0" "local_ok d" "a_cluster (replicated d0) \<noteq> None"
    and "install_app_snapshot (build_app_snapshot p d0) d = Inr (fx, d')"
  shows "tables_ok d'" "local_ok d'" "replicated d' = replicated d0"
proof -
  have loc: "sessions_ok d" using assms(3) by (simp add: local_ok_def)
  obtain fx' e where e: "install_app_snapshot (build_app_snapshot p d0) d = Inr (fx', e)" "tables_ok e" "tokens_set e" "sessions_ok e"
    "replicated e = (replicated d0)\<lparr>a_cluster := (case a_cluster (replicated d0) of Some c \<Rightarrow> Some c | None \<Rightarrow> a_cluster (replicated d))\<rparr>"
    by (rule install_snapshot_state [OF assms(1,2) loc, of p]) (rule that; assumption)
  moreover have "d' = e" using assms(5) e(1) by simp
  ultimately show "tables_ok d'" "local_ok d'" by (simp_all add: local_ok_def)
  show "replicated d' = replicated d0" using e(5) \<open>d' = e\<close> assms(4) by (auto simp: replicated_def)
qed

lemma installed_ok:
  assumes ok: "node_ok decode lg A (m, c)" and good: "good_snapshot decode lg A (meta, data)"
    and s: "decode data = Some s" "snap_cluster_id s \<noteq> None" and inst: "install_snapshot decode meta data m = (done, m')"
  shows "node_ok decode lg A (m', c)"
proof -
  from good s(1) obtain d where d: "s = build_app_snapshot (meta_last_log_id meta) d" "tables_ok d" "tokens_set d"
      "reached lg A (meta_last_log_id meta) (replicated d)"
    by (auto simp: good_snapshot_def good_payload_def)
  have cl: "a_cluster (replicated d) \<noteq> None"
    using s(2) by (simp add: d(1) build_app_snapshot_def read_replicated_snapshot_def setting_get_def)
  show ?thesis
  proof (cases "install_app_snapshot s (sm_db m)")
    case (Inl e)
    with inst s(1) ok show ?thesis by (auto simp: install_snapshot_def node_ok_def)
  next
    case (Inr fxd)
    obtain fx d' where fxd: "fxd = (fx, d')" by fastforce
    have I: "tables_ok d'" "local_ok d'" "replicated d' = replicated d"
      using local_of_install [OF d(2,3) _ cl, of "sm_db m" "meta_last_log_id meta" fx d'] ok Inr d(1) fxd by (auto simp: node_ok_def)
    with inst s(1) Inr fxd ok good d(4) show ?thesis
      by (cases "meta_last_log_id meta")
        (auto simp: install_snapshot_def node_ok_def Let_def persist_applied_tx_def emit_effects_def)
  qed
qed

lemma open_existing_keeps:
  assumes "tokens_set d" "sessions_ok d"
  shows "stream_rows (open_existing d) = stream_rows d" "viewer_rows (open_existing d) = viewer_rows d"
    "owner_rows (open_existing d) = owner_rows d" "settings (open_existing d) = settings d" "sessions_ok (open_existing d)"
proof -
  have tok: "delete_token r \<noteq> []" if "r \<in> set (stream_rows d)" for r
    using assms(1) that by (metis image_eqI tokens_set_def)
  have rows: "stream_rows (backfill_delete_tokens d) = stream_rows d"
    unfolding backfill_delete_tokens_def update_rows_fields by (rule map_idI) (simp add: tok)
  then show "stream_rows (open_existing d) = stream_rows d" by (simp add: open_existing_def Let_def)
  show "viewer_rows (open_existing d) = viewer_rows d" "owner_rows (open_existing d) = owner_rows d"
    "settings (open_existing d) = settings d" by (simp_all add: open_existing_def backfill_delete_tokens_def update_rows_fields Let_def)
  show "sessions_ok (open_existing d)"
    using assms(2) rows
    by (simp add: sessions_ok_def open_existing_def Let_def backfill_delete_tokens_def update_rows_fields comp_def image_image)
qed

lemma published_ok:
  assumes ok: "node_ok decode lg A (m, Some cap)" and num: "number_snapshot encode cap m = (snap, m1)"
    and dec: "decode (encode (fst cap)) = Some (fst cap)" and pub: "publish snap m1 = (out, m')"
  shows "node_ok decode lg A (m', None)"
proof -
  obtain s p mem where cap: "cap = (s, p, mem)" by (metis prod_cases3)
  have good: "good_snapshot decode lg A snap"
    using ok num dec by (auto simp: cap node_ok_def number_snapshot_def Let_def good_snapshot_def)
  have m1: "m1 = m\<lparr>snapshot_idx := snapshot_idx m + 1\<rparr>" using num by (auto simp: cap number_snapshot_def Let_def)
  from pub consider "m' = m1" | "m' = m1\<lparr>current_snapshot := Some snap, sm_db := bump 1 (sm_db m1), stored_snapshot_row := Some snap\<rparr>"
    by (auto simp: publish_def Let_def split: option.splits if_splits)
  then show ?thesis using ok good by cases (simp_all add: node_ok_def m1)
qed

lemma node_step_ok:
  assumes "node_step encode decode lg A n n'" "node_ok decode lg A n" "distinct (map e_log_id lg)"
    and seeds: "\<And>e cmd. e \<in> set lg \<Longrightarrow> e_payload e = Normal cmd \<Longrightarrow> seed_tokens_ok cmd"
  shows "node_ok decode lg A n'"
  using assms(1,2)
proof (induction rule: node_step.induct)
  case (applied xs e ys m r m' c)
  have "e \<in> set lg" using applied.hyps(1) by simp
  then show ?case
    by (rule applied_ok [OF applied.prems applied.hyps(1) assms(3) applied.hyps(2) seeds applied.hyps(3)])
next
  case (installed meta data s m ok m' c)
  show ?case by (rule installed_ok [OF installed.prems installed.hyps])
next
  case (captured m c)
  then show ?case by (auto simp: node_ok_def capture_def good_payload_def local_ok_def)
next
  case (published cap m snap m1 out m')
  show ?case by (rule published_ok [OF published.prems published.hyps])
next
  case (looked_up m out m' c)
  then show ?case
    by (cases "current_snapshot m"; cases "stored_snapshot_row m") (auto simp: get_current_snapshot_def node_ok_def Let_def)
next
  case (session d m c)
  have "replicated d = replicated (sm_db m)" by (rule replicated_cong) (fact session.hyps)+
  moreover have "tables_ok d = tables_ok (sm_db m)" by (rule tables_ok_cong) (fact session.hyps)+
  moreover have "tokens_set d = tokens_set (sm_db m)" using session.hyps(1) by (simp add: tokens_set_def)
  ultimately show ?case using session.hyps(5) session.prems by (simp add: node_ok_def local_ok_def)
next
  case (restarted m c mem)
  let ?d = "open_existing (sm_db m)"
  have loc: "tokens_set (sm_db m)" "sessions_ok (sm_db m)" using restarted by (simp_all add: node_ok_def local_ok_def)
  note K = open_existing_keeps [OF loc]
  have "replicated ?d = replicated (sm_db m)" by (rule replicated_cong) (fact K)+
  moreover have "tables_ok ?d = tables_ok (sm_db m)" by (rule tables_ok_cong) (fact K)+
  moreover have "local_ok ?d" using K loc by (simp add: tokens_set_def local_ok_def)
  ultimately show ?case using restarted by (simp add: node_ok_def machine_new_def)
qed

definition entry_seed_ok :: "'m raft_entry \<Rightarrow> bool" where
  "entry_seed_ok e = (case e_payload e of Normal cmd \<Rightarrow> seed_tokens_ok cmd | _ \<Rightarrow> True)"

lemma empty_node_ok: "node_ok decode lg (replicated (sm_db (empty_machine mem))) (empty_machine mem, None)"
  by (simp add: node_ok_def empty_machine_ok, simp add: empty_machine_def local_ok_def sessions_ok_def tokens_set_def reached_def,
      rule exI [of _ "[]"], simp add: position_def)


lemma set_token_applies: "apply_entry (demo_entry i (SetApiToken t)) m = (Inr RespOk, snd (apply_entry (demo_entry i (SetApiToken t)) m))"
  by (simp add: demo_entry_def apply_entry_def apply_normal_def Let_def)


end
