(* ===== verification/Snapshot_Builder.thy ===== *)
theory Snapshot_Builder
  imports State_Machine
begin

text \<open>
  The loop that builds a snapshot returns, however often other tasks move the machine while it
  encodes: after two turns it keeps the lock.
\<close>

lemma not_ahead_of_itself: "\<not> log_id_ahead_of_boundary p p"
  by (cases p) (simp_all add: log_id_ahead_of_boundary_def)

lemma number_capture:
  "number_snapshot encode (capture m) m' = (snap, m'') \<Longrightarrow>
   meta_last_log_id (fst snap) = last_applied m \<and> snd snap = encode (build_app_snapshot (last_applied m) (sm_db m)) \<and>
   last_applied m'' = last_applied m' \<and> current_snapshot m'' = current_snapshot m'"
  by (auto simp: number_snapshot_def capture_def Let_def)

text \<open>What a publication that is not turned away leaves.\<close>

lemma publish_returns:
  assumes "publish snap m = (Some s, m')"
  shows "current_snapshot m' = Some s \<and> meta_last_log_id (fst snap) \<le> meta_last_log_id (fst s) \<and> last_applied m' = last_applied m"
  using assms by (auto simp: publish_def Let_def split: option.splits if_splits)

lemma publish_unmoved: "last_applied m = meta_last_log_id (fst snap) \<Longrightarrow> \<exists>s m'. publish snap m = (Some s, m')"
  by (auto simp: publish_def Let_def not_ahead_of_itself split: option.splits)

lemma build_turn:
  "build_loop encode before during r m =
     (let m1 = before r m; m2 = (if r < MAX_UNLOCKED_ATTEMPTS then during r m1 else m1);
          (snap, m3) = number_snapshot encode (capture m1) m2
      in case publish snap m3 of (Some s, m4) \<Rightarrow> Some (s, m4) | (None, m4) \<Rightarrow> build_loop encode before during (Suc r) m4)"
  by (subst build_loop.simps) (simp only: Let_def Suc_eq_plus1)

definition returns :: "('m stored_snapshot \<times> 'm machine) option \<Rightarrow> bool" where
  "returns out \<longleftrightarrow> (\<exists>s m'. out = Some (s, m') \<and> current_snapshot m' = Some s)"

lemma build_locked:
  assumes "\<not> r < MAX_UNLOCKED_ATTEMPTS"
  shows "returns (build_loop encode before during r m)"
proof -
  obtain snap m3 where n: "number_snapshot encode (capture (before r m)) (before r m) = (snap, m3)" by fastforce
  have "last_applied m3 = meta_last_log_id (fst snap)" using number_capture [OF n] by simp
  then obtain s m4 where p: "publish snap m3 = (Some s, m4)" using publish_unmoved by blast
  then have "build_loop encode before during r m = Some (s, m4)" using assms n by (subst build_turn) (simp add: Let_def)
  then show ?thesis using publish_returns [OF p] by (simp add: returns_def)
qed

lemma build_unlocked:
  assumes "\<And>m. returns (build_loop encode before during (Suc r) m)"
  shows "returns (build_loop encode before during r m)"
proof -
  let ?m2 = "if r < MAX_UNLOCKED_ATTEMPTS then during r (before r m) else before r m"
  obtain snap m3 where n: "number_snapshot encode (capture (before r m)) ?m2 = (snap, m3)" by fastforce
  show ?thesis
  proof (cases "publish snap m3")
    case (Pair out m4)
    with n assms [of m4] publish_returns [of snap m3 _ m4] show ?thesis
      by (subst build_turn, cases out) (auto simp: returns_def Let_def)
  qed
qed

text \<open>
  C6. Building a snapshot always returns. Whatever other tasks do to the machine while the builder waits for
  its lock or encodes without it, \<open>build_snapshot\<close> comes back with the snapshot that is then the current one,
  at most three turns later: sustained writes cannot starve it.
\<close>

theorem build_snapshot_returns:
  "\<exists>s m'. build_snapshot encode before during m = Some (s, m') \<and> current_snapshot m' = Some s"
proof -
  have "returns (build_loop encode before during r m)" for r m
  proof (induction "MAX_UNLOCKED_ATTEMPTS - r" arbitrary: r m)
    case 0
    show ?case by (rule build_locked) (use 0 in simp)
  next
    case (Suc k)
    show ?case by (rule build_unlocked, rule Suc.hyps(1)) (use Suc.hyps(2) in simp)
  qed
  then show ?thesis by (simp add: build_snapshot_def returns_def)
qed

end
