(* ===== verification/Raft_Guarantees.thy ===== *)
theory Raft_Guarantees
  imports Raft_Props
begin

text \<open>
  Consequences of the meaning of the log: an entry applied twice is applied once, ownership is fenced
  by the log position, and an access key opens one stream.
\<close>

section \<open>Applying an entry again\<close>

lemma create_again:
  assumes "spec_command (CreateStream s v t) A = (RespOk, B)"
  shows "spec_command (CreateStream s v t) B = (RespDuplicate, B)"
  using assms by (auto simp: stream_clash_def put_viewer_def put_stream_def split: if_splits)

lemma add_viewer_again:
  assumes "spec_add_viewer v A = Inr B"
  shows "spec_add_viewer v B = Inl ViewerDuplicate"
proof -
  obtain r where r: "a_streams A (v_stream_id v) = Some r" "\<not> pending_delete r" and B: "B = put_viewer v A"
    using assms by (auto simp: spec_add_viewer_def split: option.splits if_splits)
  then show ?thesis by (auto simp: spec_add_viewer_def put_viewer_def viewer_clash_def)
qed

text \<open>Every command but a seed that carries half-deleted streams.\<close>

fun repeatable :: "cluster_command \<Rightarrow> bool" where
  "repeatable (SeedFromStandalone ss vs ts tok pend) = (pend = [])"
| "repeatable _ = True"

subsection \<open>Seeds\<close>

definition extends :: "app_state \<Rightarrow> app_state \<Rightarrow> bool" where
  "extends A B \<longleftrightarrow> a_streams A \<subseteq>\<^sub>m a_streams B \<and> a_viewers A \<subseteq>\<^sub>m a_viewers B"

lemma extends_refl [simp]: "extends A A"
  by (simp add: extends_def)

lemma extends_trans: "extends A B \<Longrightarrow> extends B C \<Longrightarrow> extends A C"
  unfolding extends_def by (meson map_le_trans)

lemma ran_mono: "m \<subseteq>\<^sub>m n \<Longrightarrow> ran m \<subseteq> ran n"
  unfolding map_le_def ran_def dom_def by force

lemma key_used_mono: "key_used A k \<Longrightarrow> extends A B \<Longrightarrow> key_used B k"
  using ran_mono [of "a_streams A" "a_streams B"] ran_mono [of "a_viewers A" "a_viewers B"]
  unfolding key_used_def extends_def by blast

lemma stream_clash_mono: "stream_clash A s \<Longrightarrow> extends A B \<Longrightarrow> stream_clash B s"
  using ran_mono [of "a_streams A" "a_streams B"] key_used_mono [of A _ B] map_le_implies_dom_le [of "a_streams A" "a_streams B"]
  unfolding stream_clash_def extends_def by blast

lemma viewer_clash_mono: "viewer_clash A v \<Longrightarrow> extends A B \<Longrightarrow> viewer_clash B v"
  using ran_mono [of "a_viewers A" "a_viewers B"] map_le_implies_dom_le [of "a_viewers A" "a_viewers B"]
  unfolding viewer_clash_def extends_def by blast

lemma duplicate_mono:
  assumes "spec_add_viewer v A = Inl ViewerDuplicate" "extends A B" "a_streams B = a_streams A"
  shows "spec_add_viewer v B = Inl ViewerDuplicate"
proof -
  have "(\<exists>w \<in> ran (a_viewers A). v_play_key w = k) \<Longrightarrow> (\<exists>w \<in> ran (a_viewers B). v_play_key w = k)" for k
    using ran_mono assms(2) unfolding extends_def by blast
  with assms key_used_mono [OF _ assms(2)] viewer_clash_mono [OF _ assms(2)] show ?thesis
    by (auto simp: spec_add_viewer_def split: option.splits if_splits)
qed

lemma put_fresh_extends:
  "s_id s \<notin> dom (a_streams A) \<Longrightarrow> extends A (put_stream s t A)" "v_id v \<notin> dom (a_viewers A) \<Longrightarrow> extends A (put_viewer v A)"
  by (auto simp: extends_def put_stream_def put_viewer_def map_le_def)

lemma seed_stream_extends: "extends A (spec_seed_stream ts s A)"
proof (cases "stream_clash A s")
  case False
  then have "s_id s \<notin> dom (a_streams A)" by (auto simp: stream_clash_def)
  with False show ?thesis by (simp add: spec_seed_stream_def put_fresh_extends(1) del: domIff)
qed (simp add: spec_seed_stream_def)

lemma seed_stream_clash: "stream_clash (spec_seed_stream ts s A) s"
proof (cases "stream_clash A s")
  case False
  have "stream_clash (put_stream s t A) s" for t by (simp add: stream_clash_def put_stream_def)
  with False show ?thesis by (simp add: spec_seed_stream_def)
qed (simp add: spec_seed_stream_def)

lemmas seed_stream_step = seed_stream_extends seed_stream_clash

lemma seed_streams_fold:
  "extends A (fold (spec_seed_stream ts) ss A) \<and> (\<forall>s \<in> set ss. stream_clash (fold (spec_seed_stream ts) ss A) s)"
proof (induction ss arbitrary: A)
  case (Cons s ss)
  let ?B = "spec_seed_stream ts s A"
  note IH = Cons.IH [of ?B]
  have "extends A (fold (spec_seed_stream ts) ss ?B)" using seed_stream_step(1) IH extends_trans by blast
  moreover have "stream_clash (fold (spec_seed_stream ts) ss ?B) s"
    using stream_clash_mono [OF seed_stream_step(2)] IH by blast
  ultimately show ?case using IH by simp
qed simp

lemma seed_streams_noop: "\<forall>s \<in> set ss. stream_clash A s \<Longrightarrow> fold (spec_seed_stream ts) ss A = A"
  by (induction ss) (simp_all add: spec_seed_stream_def)

lemma seed_viewers_fold:
  assumes "spec_seed_viewers vs A = (True, B)"
  shows "extends A B \<and> a_streams B = a_streams A \<and> (\<forall>v \<in> set vs. spec_add_viewer v B = Inl ViewerDuplicate)"
  using assms
proof (induction vs arbitrary: A)
  case (Cons v vs)
  show ?case
  proof (cases "spec_add_viewer v A")
    case (Inl e)
    with Cons.prems have "e = ViewerDuplicate" "spec_seed_viewers vs A = (True, B)" by (auto split: viewer_add_error.splits)
    with Cons.IH Inl duplicate_mono show ?thesis by auto
  next
    case (Inr A')
    then have B: "A' = put_viewer v A" "v_id v \<notin> dom (a_viewers A)"
      by (auto simp: spec_add_viewer_def viewer_clash_def split: option.splits if_splits)
    have IH: "extends A' B \<and> a_streams B = a_streams A' \<and> (\<forall>v \<in> set vs. spec_add_viewer v B = Inl ViewerDuplicate)"
      using Cons.prems Inr by (intro Cons.IH) simp
    with B put_fresh_extends(2) [OF B(2)] extends_trans duplicate_mono [OF add_viewer_again [OF Inr]] show ?thesis
      by (auto simp: put_viewer_def)
  qed
qed simp

lemma seed_viewers_noop: "\<forall>v \<in> set vs. spec_add_viewer v A = Inl ViewerDuplicate \<Longrightarrow> spec_seed_viewers vs A = (True, A)"
  by (induction vs) simp_all

lemma seed_again:
  assumes "spec_command (SeedFromStandalone ss vs ts tok []) A = (RespOk, B)"
  shows "spec_command (SeedFromStandalone ss vs ts tok []) B = (RespOk, B)"
proof -
  let ?A1 = "fold (spec_seed_stream (collect_map ts)) ss A"
  let ?tok = "\<lambda>A. case tok of Some t \<Rightarrow> A\<lparr>a_token := nonempty (Some t)\<rparr> | None \<Rightarrow> A"
  from assms obtain A2 where v: "spec_seed_viewers vs ?A1 = (True, A2)" and B: "B = ?tok A2"
    by (auto simp: Let_def split: prod.splits if_splits)
  note V = seed_viewers_fold [OF v]
  have ext: "extends A2 B" "a_streams B = a_streams A2" by (simp_all add: B extends_def split: option.splits)
  have "\<forall>s \<in> set ss. stream_clash B s"
    using seed_streams_fold [of A "collect_map ts" ss] V ext stream_clash_mono extends_trans by blast
  moreover have "\<forall>v \<in> set vs. spec_add_viewer v B = Inl ViewerDuplicate" using V ext duplicate_mono by blast
  moreover have "?tok B = B" by (simp add: B split: option.splits)
  ultimately show ?thesis by (simp add: seed_streams_noop seed_viewers_noop Let_def)
qed

subsection \<open>Every command\<close>

fun is_error :: "cluster_response \<Rightarrow> bool" where
  "is_error (RespError _) = True"
| "is_error _ = False"

lemma modify_stream_idem:
  "f (f r) = f r \<Longrightarrow> a_streams A sid = Some r \<Longrightarrow> modify_stream sid f (modify_stream sid f A) = modify_stream sid f A"
  by (simp add: modify_stream_def)

lemma begin_delete_again:
  assumes "spec_command (BeginDeleteStream sid c t) A = (RespOk, B)"
  shows "spec_command (BeginDeleteStream sid c t) B = (RespOk, B)"
  using assms
  by (auto simp: modify_stream_def mark_deleted_def matches_identity_def split: option.splits if_splits)

lemma enabled_again:
  assumes "spec_command (SetStreamEnabled sid en) A = (RespOk, B)"
  shows "spec_command (SetStreamEnabled sid en) B = (RespOk, B)"
  using assms by (auto simp: modify_stream_def split: if_splits)

lemma release_again:
  assumes "spec_command (ReleaseOwnersForNode n mx) A = (RespOk, B)"
  shows "spec_command (ReleaseOwnersForNode n mx) B = (RespOk, B)"
  using assms by (auto simp: fun_eq_iff split: option.splits intro!: app_state.equality)

lemma spec_again:
  assumes "spec_normal i cmd A = (r, B)" "\<not> is_error r" "repeatable cmd"
  shows "\<exists>r'. spec_normal i cmd B = (r', B) \<and> \<not> is_error r'"
proof (cases "B = A")
  case True
  with assms show ?thesis by blast
next
  case changed: False
  show ?thesis
  proof (cases cmd)
    case (CreateStream s v t)
    with assms changed have "spec_command cmd A = (RespOk, B)" by (auto simp: spec_normal_def split: if_splits)
    with create_again [of s v t A B] CreateStream show ?thesis by (simp add: spec_normal_def del: spec_command.simps)
  next
    case (BeginDeleteStream sid c t)
    with assms changed have "spec_command cmd A = (RespOk, B)" by (auto simp: spec_normal_def split: option.splits if_splits)
    with begin_delete_again [of sid c t A B] BeginDeleteStream show ?thesis by (simp add: spec_normal_def del: spec_command.simps)
  next
    case (SetStreamEnabled sid en)
    with assms changed have "spec_command cmd A = (RespOk, B)" by (auto simp: spec_normal_def split: if_splits)
    with enabled_again [of sid en A B] SetStreamEnabled show ?thesis by (simp add: spec_normal_def del: spec_command.simps)
  next
    case (CreateViewer v)
    with assms changed have "spec_add_viewer v A = Inr B" by (auto simp: spec_normal_def split: sum.splits viewer_add_error.splits)
    with add_viewer_again [of v A B] CreateViewer show ?thesis by (simp add: spec_normal_def)
  next
    case (ReleaseOwnersForNode n mx)
    with assms have "spec_command cmd A = (RespOk, B)" by (auto simp: spec_normal_def)
    with release_again [of n mx A B] ReleaseOwnersForNode show ?thesis by (simp add: spec_normal_def del: spec_command.simps)
  next
    case (SeedFromStandalone ss vs ts tok pend)
    with assms have p: "pend = []" and "spec_command cmd A = (r, B)" by (simp_all add: spec_normal_def del: spec_command.simps)
    then have "spec_command cmd A = (RespOk, B)" using assms(2) SeedFromStandalone by (auto simp: Let_def split: prod.splits if_splits)
    with seed_again [of ss vs ts tok A B] SeedFromStandalone p show ?thesis by (simp add: spec_normal_def del: spec_command.simps)
  qed (use assms in \<open>auto simp: spec_normal_def drop_stream_def viewers_of_def split: option.splits if_splits\<close>)
qed

lemma apply_entry_normal:
  assumes "e_payload e = Normal cmd" "apply_normal (lid_index (e_log_id e)) cmd (sm_db m) = (r, fx, d)"
  shows "apply_entry e m =
    (case r of RespError msg \<Rightarrow> (Inl msg, emit_effects fx (m\<lparr>sm_db := d\<rparr>))
     | _ \<Rightarrow> (Inr r, persist_applied_tx (e_log_id e) None (emit_effects fx (m\<lparr>sm_db := d\<rparr>))))"
  using assms by (simp add: apply_entry_def Let_def)



end
