(* ===== verification/Log_Store.thy ===== *)
theory Log_Store
  imports State_Machine
begin

text \<open>
  The log of the consensus library in the database (\<open>src/src/cluster/raft/log_store.rs\<close>), and that it is
  the list of entries the library relies on.

  A row holds the entry itself where the code stores its JSON text; the vote of the library is a type
  parameter.
\<close>

section \<open>The store\<close>

record ('m, 'v) log_store =
  raft_log :: "(int \<times> 'm raft_entry) list"
  raft_vote :: "'v option"
  meta_committed :: "log_id option option"
  meta_last_purged :: "log_id option"

datatype bound = Included u64 | Excluded u64 | Unbounded

definition I64_MAX :: u64 where
  "I64_MAX = 9223372036854775807"

definition range_start :: "bound \<Rightarrow> u64" where
  "range_start b = (case b of Included v \<Rightarrow> v | Excluded v \<Rightarrow> u64_saturating_add v 1 | Unbounded \<Rightarrow> 0)"

definition range_end_excl :: "bound \<Rightarrow> u64" where
  "range_end_excl b = (case b of Included v \<Rightarrow> u64_saturating_add v 1 | Excluded v \<Rightarrow> v | Unbounded \<Rightarrow> I64_MAX)"

definition end_bind :: "u64 \<Rightarrow> int" where
  "end_bind end_excl = (if I64_MAX \<le> end_excl then sint I64_MAX else sint end_excl)"

definition try_get_log_entries :: "bound \<Rightarrow> bound \<Rightarrow> ('m, 'v) log_store \<Rightarrow> 'm raft_entry list" where
  "try_get_log_entries lo hi s =
     map snd (sort_key fst (filter (\<lambda>(i, _). sint (range_start lo) \<le> i \<and> i < end_bind (range_end_excl hi)) (raft_log s)))"

text \<open>The last purged id and the last id, in this order.\<close>

definition get_log_state :: "('m, 'v) log_store \<Rightarrow> log_id option \<times> log_id option" where
  "get_log_state s =
     (meta_last_purged s,
      if raft_log s = [] then meta_last_purged s
      else map_option e_log_id (map_of (raft_log s) (Max (fst ` set (raft_log s)))))"

definition save_committed :: "log_id option \<Rightarrow> ('m, 'v) log_store \<Rightarrow> ('m, 'v) log_store" where
  "save_committed committed s = s\<lparr>meta_committed := Some committed\<rparr>"

definition read_committed :: "('m, 'v) log_store \<Rightarrow> log_id option" where
  "read_committed s = (case meta_committed s of Some c \<Rightarrow> c | None \<Rightarrow> None)"

definition save_vote :: "'v \<Rightarrow> ('m, 'v) log_store \<Rightarrow> ('m, 'v) log_store" where
  "save_vote v s = s\<lparr>raft_vote := Some v\<rparr>"

definition read_vote :: "('m, 'v) log_store \<Rightarrow> 'v option" where
  "read_vote s = raft_vote s"

text \<open>\<open>INSERT ... ON CONFLICT(log_index) DO UPDATE\<close> for each entry, in one transaction.\<close>

definition log_append :: "'m raft_entry list \<Rightarrow> ('m, 'v) log_store \<Rightarrow> ('m, 'v) log_store" where
  "log_append es s =
     s\<lparr>raft_log := fold (\<lambda>e. hm_insert (sint (lid_index (e_log_id e))) e) es (raft_log s)\<rparr>"

definition log_truncate :: "log_id \<Rightarrow> ('m, 'v) log_store \<Rightarrow> ('m, 'v) log_store" where
  "log_truncate lid s = s\<lparr>raft_log := filter (\<lambda>(i, _). \<not> sint (lid_index lid) \<le> i) (raft_log s)\<rparr>"

definition log_purge :: "log_id \<Rightarrow> ('m, 'v) log_store \<Rightarrow> ('m, 'v) log_store" where
  "log_purge lid s =
     s\<lparr>meta_last_purged := Some lid, raft_log := filter (\<lambda>(i, _). \<not> i \<le> sint (lid_index lid)) (raft_log s)\<rparr>"

section \<open>The log the library sees\<close>

text \<open>
  The calls of the library and what they mean: the log is a list of entries with consecutive indices from
  \<open>sp_base\<close> on. The library appends at the end of the log, truncates after what it purged, and purges
  forward, possibly past the end after it installed a snapshot; indices stay below \<open>i64::MAX\<close>.
\<close>

record ('m, 'v) log_spec =
  sp_base :: nat
  sp_log :: "'m raft_entry list"
  sp_purged :: "log_id option"
  sp_vote :: "'v option"
  sp_committed :: "log_id option"

datatype ('m, 'v) log_call =
    Append "'m raft_entry list"
  | Truncate log_id
  | Purge log_id
  | SaveVote 'v
  | SaveCommitted "log_id option"

fun do_call :: "('m, 'v) log_call \<Rightarrow> ('m, 'v) log_store \<Rightarrow> ('m, 'v) log_store" where
  "do_call (Append es) s = log_append es s"
| "do_call (Truncate lid) s = log_truncate lid s"
| "do_call (Purge lid) s = log_purge lid s"
| "do_call (SaveVote v) s = save_vote v s"
| "do_call (SaveCommitted c) s = save_committed c s"

definition index_of :: "'m raft_entry \<Rightarrow> nat" where
  "index_of e = unat (lid_index (e_log_id e))"

fun spec_call :: "('m, 'v) log_call \<Rightarrow> ('m, 'v) log_spec \<Rightarrow> ('m, 'v) log_spec" where
  "spec_call (Append es) A = A\<lparr>sp_log := sp_log A @ es\<rparr>"
| "spec_call (Truncate lid) A = A\<lparr>sp_log := take (unat (lid_index lid) - sp_base A) (sp_log A)\<rparr>"
| "spec_call (Purge lid) A = A\<lparr>sp_base := Suc (unat (lid_index lid)), sp_purged := Some lid,
     sp_log := drop (Suc (unat (lid_index lid)) - sp_base A) (sp_log A)\<rparr>"
| "spec_call (SaveVote v) A = A\<lparr>sp_vote := Some v\<rparr>"
| "spec_call (SaveCommitted c) A = A\<lparr>sp_committed := c\<rparr>"

fun legal_call :: "('m, 'v) log_spec \<Rightarrow> ('m, 'v) log_call \<Rightarrow> bool" where
  "legal_call A (Append es) = (let n = sp_base A + length (sp_log A)
     in map index_of es = [n ..< n + length es] \<and> n + length es < 2 ^ 63)"
| "legal_call A (Truncate lid) = (sp_base A \<le> unat (lid_index lid) \<and> unat (lid_index lid) < 2 ^ 63)"
| "legal_call A (Purge lid) = (sp_base A \<le> Suc (unat (lid_index lid)) \<and> Suc (unat (lid_index lid)) < 2 ^ 63)"
| "legal_call A _ = True"

fun legal_calls :: "('m, 'v) log_spec \<Rightarrow> ('m, 'v) log_call list \<Rightarrow> bool" where
  "legal_calls A [] = True"
| "legal_calls A (c # cs) = (legal_call A c \<and> legal_calls (spec_call c A) cs)"

definition empty_store :: "('m, 'v) log_store" where
  "empty_store = \<lparr>raft_log = [], raft_vote = None, meta_committed = None, meta_last_purged = None\<rparr>"

definition empty_log :: "('m, 'v) log_spec" where
  "empty_log = \<lparr>sp_base = 0, sp_log = [], sp_purged = None, sp_vote = None, sp_committed = None\<rparr>"

definition log_sim :: "('m, 'v) log_store \<Rightarrow> ('m, 'v) log_spec \<Rightarrow> bool" where
  "log_sim s A \<longleftrightarrow>
     raft_log s = map (\<lambda>e. (int (index_of e), e)) (sp_log A) \<and>
     map index_of (sp_log A) = [sp_base A ..< sp_base A + length (sp_log A)] \<and> sp_base A + length (sp_log A) < 2 ^ 63 \<and>
     meta_last_purged s = sp_purged A \<and> raft_vote s = sp_vote A \<and> read_committed s = sp_committed A"

lemma sint_small:
  fixes v :: u64
  assumes "unat v < 2 ^ 63"
  shows "sint v = int (unat v)"
proof -
  have lt: "uint v < 2 ^ 63" using assms unfolding unat_eq_nat_uint by (metis nat_less_numeral_power_cancel_iff)
  have "sint v = signed_take_bit 63 (uint v)" by (simp add: sint_uint)
  also have "\<dots> = uint v" by (rule signed_take_bit_int_eq_self) (use lt in \<open>simp_all add: order.trans [OF _ uint_ge_0]\<close>)
  finally show ?thesis by simp
qed

lemma fold_insert_fresh:
  "distinct (map f es) \<Longrightarrow> f ` set es \<inter> fst ` set m = {} \<Longrightarrow>
     fold (\<lambda>e. hm_insert (f e) e) es m = m @ map (\<lambda>e. (f e, e)) es"
proof (induction es arbitrary: m)
  case (Cons e es)
  have "hm_insert (f e) e m = m @ [(f e, e)]" using Cons.prems(2) by (induction m) auto
  with Cons show ?case by auto
qed simp

lemma run_Cons:
  assumes "map index_of (e # lg) = [b ..< b + length (e # lg)]"
  shows "index_of e = b" "map index_of lg = [Suc b ..< Suc b + length lg]" "\<forall>x \<in> set lg. b < index_of x"
proof -
  from assms show e: "index_of e = b" and lg: "map index_of lg = [Suc b ..< Suc b + length lg]"
    by (simp_all add: upt_conv_Cons del: upt_Suc)
  from lg have "set (map index_of lg) = {Suc b ..< Suc b + length lg}" by (metis set_upt)
  then show "\<forall>x \<in> set lg. b < index_of x" by (metis atLeastLessThan_iff image_eqI less_eq_Suc_le set_map)
qed

lemma filter_run:
  assumes "map index_of lg = [b ..< b + length lg]" "b \<le> n"
  shows "filter (\<lambda>e. index_of e < n) lg = take (n - b) lg \<and> filter (\<lambda>e. n \<le> index_of e) lg = drop (n - b) lg"
  using assms
proof (induction lg arbitrary: b)
  case (Cons e lg)
  note r = run_Cons [OF Cons.prems(1)]
  show ?case
  proof (cases "b < n")
    case True
    then have "n - b = Suc (n - Suc b)" by simp
    with True Cons.IH [OF r(2)] r(1) show ?thesis by simp
  next
    case False
    with Cons.prems(2) have "n = b" by simp
    with r show ?thesis by (auto intro!: filter_False filter_True)
  qed
qed simp

lemma run_set: "map index_of lg = [b ..< b + length lg] \<Longrightarrow> index_of ` set lg = {b ..< b + length lg}"
  by (metis set_map set_upt)

lemma sim_append:
  assumes "log_sim s A" "legal_call A (Append es)"
  shows "log_sim (log_append es s) (spec_call (Append es) A)"
proof -
  let ?n = "sp_base A + length (sp_log A)"
  from assms(2) have es: "map index_of es = [?n ..< ?n + length es]" and small: "?n + length es < 2 ^ 63" by (simp_all add: Let_def)
  note old = run_set [of "sp_log A"] and new = run_set [OF es]
  have idx: "sint (lid_index (e_log_id e)) = int (index_of e)" if "e \<in> set es" for e
  proof -
    have "index_of e \<in> {?n ..< ?n + length es}" using new that by blast
    with small have "unat (lid_index (e_log_id e)) < 2 ^ 63" unfolding index_of_def by (metis atLeastLessThan_iff less_trans)
    then show ?thesis by (simp add: sint_small index_of_def)
  qed
  have "fold (\<lambda>e. hm_insert (sint (lid_index (e_log_id e))) e) es (raft_log s) = fold (\<lambda>e. hm_insert (int (index_of e)) e) es (raft_log s)"
    by (rule fold_cong) (simp_all add: idx)
  also have "\<dots> = raft_log s @ map (\<lambda>e. (int (index_of e), e)) es"
  proof (rule fold_insert_fresh)
    have "distinct (map index_of es)" by (simp add: es)
    then show "distinct (map (\<lambda>e. int (index_of e)) es)" by (simp add: distinct_map inj_on_def)
    have "index_of ` set es \<inter> index_of ` set (sp_log A) = {}"
      using new old assms(1) by (simp add: log_sim_def)
    then show "(\<lambda>e. int (index_of e)) ` set es \<inter> fst ` set (raft_log s) = {}"
      using assms(1) by (auto simp: log_sim_def)
  qed
  finally have "raft_log (log_append es s) = map (\<lambda>e. (int (index_of e), e)) (sp_log A @ es)"
    using assms(1) by (simp add: log_append_def log_sim_def)
  moreover have "map index_of (sp_log A @ es) = [sp_base A ..< ?n + length es]"
    using assms(1) es by (simp add: log_sim_def upt_add_eq_append [of "sp_base A" ?n])
  ultimately show ?thesis
    using assms(1) small by (simp add: log_sim_def log_append_def read_committed_def add.assoc)
qed

lemma sim_filter:
  assumes "log_sim s A"
  shows "filter (\<lambda>(i, _). P i) (raft_log s) = map (\<lambda>e. (int (index_of e), e)) (filter (\<lambda>e. P (int (index_of e))) (sp_log A))"
  using assms by (simp add: log_sim_def filter_map o_def)

lemma sim_truncate:
  assumes "log_sim s A" "legal_call A (Truncate lid)"
  shows "log_sim (log_truncate lid s) (spec_call (Truncate lid) A)"
proof -
  let ?n = "unat (lid_index lid)" and ?l = "take (unat (lid_index lid) - sp_base A) (sp_log A)"
  from assms have run: "map index_of (sp_log A) = [sp_base A ..< sp_base A + length (sp_log A)]" and n: "sp_base A \<le> ?n"
    and i: "sint (lid_index lid) = int ?n" by (simp_all add: log_sim_def sint_small)
  have "map index_of ?l = take (?n - sp_base A) [sp_base A ..< sp_base A + length (sp_log A)]" by (simp only: take_map [symmetric] run)
  also have "\<dots> = [sp_base A ..< sp_base A + length ?l]" by (cases "?n - sp_base A \<le> length (sp_log A)") simp_all
  finally have "map index_of ?l = [sp_base A ..< sp_base A + length ?l]" .
  moreover have "raft_log (log_truncate lid s) = map (\<lambda>e. (int (index_of e), e)) ?l"
    using filter_run [OF run n] by (simp add: log_truncate_def sim_filter [OF assms(1)] i not_le del: of_nat_unat)
  moreover have "sp_base A + length ?l \<le> sp_base A + length (sp_log A)" by simp
  ultimately show ?thesis using assms(1) by (auto simp: log_sim_def log_truncate_def read_committed_def)
qed

lemma sim_purge:
  assumes "log_sim s A" "legal_call A (Purge lid)"
  shows "log_sim (log_purge lid s) (spec_call (Purge lid) A)"
proof -
  let ?n = "Suc (unat (lid_index lid))" and ?l = "drop (Suc (unat (lid_index lid)) - sp_base A) (sp_log A)"
  from assms have run: "map index_of (sp_log A) = [sp_base A ..< sp_base A + length (sp_log A)]" and n: "sp_base A \<le> ?n"
    and i: "sint (lid_index lid) = int (unat (lid_index lid))" by (simp_all add: log_sim_def sint_small)
  have "map index_of ?l = drop (?n - sp_base A) [sp_base A ..< sp_base A + length (sp_log A)]" by (simp only: drop_map [symmetric] run)
  also have "\<dots> = [?n ..< ?n + length ?l]"
  proof (cases "?n \<le> sp_base A + length (sp_log A)")
    case True
    with n have "?n + length ?l = sp_base A + length (sp_log A)" by auto
    with n show ?thesis by (simp only: drop_upt le_add_diff_inverse)
  qed (use n in simp)
  finally have "map index_of ?l = [?n ..< ?n + length ?l]" .
  moreover have "raft_log (log_purge lid s) = map (\<lambda>e. (int (index_of e), e)) ?l"
    using filter_run [OF run n] by (simp add: log_purge_def sim_filter [OF assms(1)] i not_le Suc_le_eq del: of_nat_unat)
  moreover have "?n + length ?l < 2 ^ 63" using assms n by (cases "?n \<le> sp_base A + length (sp_log A)") (auto simp: log_sim_def)
  ultimately show ?thesis using assms(1) by (simp add: log_sim_def log_purge_def read_committed_def)
qed

lemma sim_call: "log_sim s A \<Longrightarrow> legal_call A c \<Longrightarrow> log_sim (do_call c s) (spec_call c A)"
  by (cases c) (simp_all add: sim_append sim_truncate sim_purge del: legal_call.simps spec_call.simps,
      simp_all add: log_sim_def save_vote_def save_committed_def read_committed_def)

lemma sim_calls: "log_sim s A \<Longrightarrow> legal_calls A cs \<Longrightarrow> log_sim (fold do_call cs s) (fold spec_call cs A)"
  by (induction cs arbitrary: s A) (simp_all add: sim_call)

lemma sim_empty: "log_sim empty_store empty_log"
  by (simp add: log_sim_def empty_store_def empty_log_def read_committed_def)

section \<open>What the library reads\<close>

fun above :: "bound \<Rightarrow> nat \<Rightarrow> bool" where
  "above (Included v) i = (unat v \<le> i)"
| "above (Excluded v) i = (unat v < i)"
| "above Unbounded i = True"

fun below :: "bound \<Rightarrow> nat \<Rightarrow> bool" where
  "below (Included v) i = (i \<le> unat v)"
| "below (Excluded v) i = (i < unat v)"
| "below Unbounded i = True"

lemma unat_saturating_succ: "unat (u64_saturating_add v 1) = min (Suc (unat v)) (2 ^ 64 - 1)"
  using unsigned_less [of v, where ?'a = nat]
  by (auto simp: u64_saturating_add_def unat_word_ariths unsigned_minus_1_eq_mask mask_eq_exp_minus_1)

lemma unat_I64_MAX: "unat I64_MAX = 2 ^ 63 - 1"
  by (simp add: I64_MAX_def)

lemma start_above:
  assumes "unat (range_start lo) < 2 ^ 63" "i < 2 ^ 63"
  shows "sint (range_start lo) \<le> int i \<longleftrightarrow> above lo i"
  using assms sint_small [OF assms(1)]
  by (cases lo) (simp_all add: range_start_def unat_saturating_succ Suc_le_eq min_def del: of_nat_unat split: if_splits)

lemma end_below:
  assumes "i < 2 ^ 63 - 1"
  shows "int i < end_bind (range_end_excl hi) \<longleftrightarrow> below hi i"
proof -
  have "end_bind e = int (min (2 ^ 63 - 1) (unat e))" for e
    using sint_small [of e] sint_small [of I64_MAX] unat_I64_MAX
    by (simp add: end_bind_def word_le_nat_alt min_def del: of_nat_unat)
  then have "int i < end_bind (range_end_excl hi) \<longleftrightarrow> i < unat (range_end_excl hi)" using assms by auto
  also have "\<dots> \<longleftrightarrow> below hi i"
    using assms by (cases hi) (auto simp: range_end_excl_def unat_saturating_succ unat_I64_MAX)
  finally show ?thesis .
qed

lemma sorted_run: "map index_of lg = [b ..< b + length lg] \<Longrightarrow> sorted (map index_of lg)"
  by simp

lemma sim_get:
  assumes "log_sim s A" "unat (range_start lo) < 2 ^ 63"
  shows "try_get_log_entries lo hi s = filter (\<lambda>e. above lo (index_of e) \<and> below hi (index_of e)) (sp_log A)"
proof -
  let ?P = "\<lambda>i. sint (range_start lo) \<le> i \<and> i < end_bind (range_end_excl hi)"
  let ?l = "filter (\<lambda>e. ?P (int (index_of e))) (sp_log A)"
  have run: "map index_of (sp_log A) = [sp_base A ..< sp_base A + length (sp_log A)]" and small: "sp_base A + length (sp_log A) < 2 ^ 63"
    using assms(1) by (simp_all add: log_sim_def)
  have P: "?P (int (index_of e)) \<longleftrightarrow> above lo (index_of e) \<and> below hi (index_of e)" if "e \<in> set (sp_log A)" for e
  proof -
    have "index_of e < sp_base A + length (sp_log A)" using run_set [OF run] that by (metis atLeastLessThan_iff imageI)
    with small start_above [OF assms(2), of "index_of e"] end_below [of "index_of e" hi] show ?thesis by simp
  qed
  have "sorted (map fst (map (\<lambda>e. (int (index_of e), e)) ?l))"
  proof -
    have "sorted (map index_of (sp_log A))" by (simp add: run)
    then have "sorted (map index_of ?l)" by (rule sorted_filter)
    then show ?thesis by (simp add: sorted_map o_def)
  qed
  then have "try_get_log_entries lo hi s = ?l"
    unfolding try_get_log_entries_def sim_filter [OF assms(1), of ?P] by (simp add: sorted_sort_id sort_key_id_if_sorted o_def)
  with P show ?thesis by (simp cong: filter_cong)
qed

lemma sim_state:
  assumes "log_sim s A"
  shows "get_log_state s = (sp_purged A, if sp_log A = [] then sp_purged A else Some (e_log_id (last (sp_log A))))"
proof (cases "sp_log A = []")
  case False
  let ?n = "sp_base A + length (sp_log A) - 1"
  have run: "map index_of (sp_log A) = [sp_base A ..< sp_base A + length (sp_log A)]" and log: "raft_log s = map (\<lambda>e. (int (index_of e), e)) (sp_log A)"
    using assms by (simp_all add: log_sim_def)
  have "fst ` set (raft_log s) = int ` index_of ` set (sp_log A)" by (simp add: log image_image)
  then have keys: "fst ` set (raft_log s) = int ` {sp_base A ..< sp_base A + length (sp_log A)}" by (simp only: run_set [OF run])
  have "Max (int ` {sp_base A ..< sp_base A + length (sp_log A)}) = int ?n"
  proof (rule Max_eqI)
    have "0 < length (sp_log A)" using False by simp
    then show "int ?n \<in> int ` {sp_base A ..< sp_base A + length (sp_log A)}" 
      by (intro imageI) (unfold atLeastLessThan_iff, linarith)
  qed auto
  moreover have "map_of (raft_log s) (int ?n) = Some (last (sp_log A))"
  proof -
    have "index_of (last (sp_log A)) = last (map index_of (sp_log A))" using False by (simp add: last_map)
    also have "\<dots> = ?n" using False by (simp add: run)
    finally have "(int ?n, last (sp_log A)) \<in> set (raft_log s)" using False log by force
    moreover have "map fst (raft_log s) = map int (map index_of (sp_log A))" by (simp add: log)
    then have "distinct (map fst (raft_log s))" by (simp add: run distinct_map inj_on_def)
    ultimately show ?thesis by simp
  qed
  ultimately show ?thesis using False assms log keys by (simp add: get_log_state_def log_sim_def)
qed (use assms in \<open>simp add: get_log_state_def log_sim_def\<close>)

text \<open>
  C4. The rows are a log. Whatever legal calls the consensus library makes on a new database, what it reads
  back - the entries of any range, the last and the last purged position, the vote, the committed position -
  is what a list of consecutive entries would give. A range is read exactly although its ends are
  converted between unsigned and signed 64-bit numbers.
\<close>

theorem log_store_implements_log:
  assumes "legal_calls empty_log cs" and "unat (range_start lo) < 2 ^ 63"
  shows "let s = fold do_call cs empty_store; A = fold spec_call cs empty_log
    in try_get_log_entries lo hi s = filter (\<lambda>e. above lo (index_of e) \<and> below hi (index_of e)) (sp_log A) \<and>
       get_log_state s = (sp_purged A, if sp_log A = [] then sp_purged A else Some (e_log_id (last (sp_log A)))) \<and>
       read_vote s = sp_vote A \<and> read_committed s = sp_committed A"
proof -
  have sim: "log_sim (fold do_call cs empty_store) (fold spec_call cs empty_log)"
    by (rule sim_calls [OF sim_empty assms(1)])
  with sim_get [OF sim assms(2)] sim_state [OF sim] show ?thesis by (simp add: Let_def read_vote_def log_sim_def)
qed

definition blank_entry :: "u64 \<Rightarrow> unit raft_entry" where
  "blank_entry i = \<lparr>e_log_id = LogId 1 1 i, e_payload = Blank\<rparr>"

definition demo_calls :: "(unit, u64) log_call list" where
  "demo_calls = [Append [blank_entry 0, blank_entry 1, blank_entry 2], SaveVote 7, Truncate (LogId 1 1 2),
     Append [blank_entry 2], Purge (LogId 1 1 0)]"

theorem log_store_implements_log_witness:
  "try_get_log_entries Unbounded (Included 1) (fold do_call demo_calls empty_store) = [blank_entry 1]"
proof -
  have "legal_calls empty_log demo_calls"
    by (simp add: demo_calls_def empty_log_def blank_entry_def index_of_def)
  moreover have "fold spec_call demo_calls empty_log =
      \<lparr>sp_base = 1, sp_log = [blank_entry 1, blank_entry 2], sp_purged = Some (LogId 1 1 0), sp_vote = Some 7, sp_committed = None\<rparr>"
    by (simp add: demo_calls_def empty_log_def)
  moreover have "index_of (blank_entry 1) = 1" "index_of (blank_entry 2) = 2" by (simp_all add: blank_entry_def index_of_def)
  ultimately show ?thesis
    using log_store_implements_log [of demo_calls Unbounded "Included 1"] by (simp add: Let_def range_start_def)
qed

end
