(* ===== verification/Media_Queues.thy ===== *)
theory Media_Queues
  imports Live_Queue "HOL-Library.Sublist" "HOL-Library.Multiset"
begin

text \<open>
  The queues between the RTMP library and the media mesh (\<open>ExportQueue\<close> and \<open>InjectQueue\<close> of
  \<open>src/src/cluster/media/hub.rs\<close>) and the eviction they share.

  An \<open>ExportedFrame\<close> and an \<open>InjectedFrame\<close> have the same fields, and the two queues run the same code on
  them; both are a \<open>media_item\<close> here. The wake-up of the waiting fan-out task has no state.
\<close>

section \<open>Frames and counters\<close>

record media_item =
  mi_app :: string
  mi_stream :: string
  mi_epoch :: u64
  mi_frame_type :: u8
  mi_timestamp :: u32
  mi_hint :: delivery_hint
  mi_payload :: bytes

definition item_names :: "media_item \<Rightarrow> string \<times> string" where
  "item_names f = (mi_app f, mi_stream f)"

definition item_size :: "media_item \<Rightarrow> nat" where
  "item_size f = usize_saturating_add (length (mi_payload f)) 64"

record eviction_counters =
  ev_droppable :: u64
  ev_resync_point :: u64
  ev_critical :: u64
  ev_oversized :: u64

definition eviction_counters_default :: eviction_counters where
  "eviction_counters_default = \<lparr>ev_droppable = 0, ev_resync_point = 0, ev_critical = 0, ev_oversized = 0\<rparr>"

fun count_eviction :: "delivery_hint \<Rightarrow> eviction_counters \<Rightarrow> eviction_counters" where
  "count_eviction Droppable c = c\<lparr>ev_droppable := ev_droppable c + 1\<rparr>"
| "count_eviction ResyncPoint c = c\<lparr>ev_resync_point := ev_resync_point c + 1\<rparr>"
| "count_eviction Critical c = c\<lparr>ev_critical := ev_critical c + 1\<rparr>"

record eviction_stats =
  es_queue_messages :: nat
  es_queue_bytes :: nat
  es_counters :: eviction_counters

definition eviction_snapshot :: "eviction_counters \<Rightarrow> nat \<Rightarrow> nat \<Rightarrow> eviction_stats" where
  "eviction_snapshot c queue_messages queue_bytes =
     \<lparr>es_queue_messages = queue_messages, es_queue_bytes = queue_bytes, es_counters = c\<rparr>"

section \<open>Making room\<close>

text \<open>The totals of a stream: its frames of each class, and its bytes.\<close>

type_synonym totals = "nat list \<times> nat"

fun class_idx :: "delivery_hint \<Rightarrow> nat" where
  "class_idx Droppable = 0"
| "class_idx ResyncPoint = 1"
| "class_idx Critical = 2"

definition CLASSES :: "delivery_hint list" where
  "CLASSES = [Droppable, ResyncPoint, Critical]"

definition bump_class :: "nat \<Rightarrow> nat list \<Rightarrow> nat list" where
  "bump_class i cs = cs[i := cs ! i + 1]"

definition drop_class :: "nat \<Rightarrow> nat list \<Rightarrow> nat list" where
  "drop_class i cs = cs[i := cs ! i - 1]"

definition scan_item ::
    "media_item \<Rightarrow> (string \<times> string, totals) hmap \<times> nat list \<Rightarrow> (string \<times> string, totals) hmap \<times> nat list" where
  "scan_item f pc =
     (let (per_stream, class_count) = pc;
          (counts, bytes) = (case hm_get per_stream (item_names f) of Some t \<Rightarrow> t | None \<Rightarrow> ([0, 0, 0], 0));
          i = class_idx (mi_hint f)
      in (hm_insert (item_names f) (bump_class i counts, bytes + item_size f) per_stream, bump_class i class_count))"

text \<open>\<open>max_by\<close> over the streams that hold a frame of the class: the most bytes, then the smaller name.\<close>

definition max_total ::
    "((string \<times> string) \<times> totals) option \<Rightarrow> (string \<times> string) \<times> totals \<Rightarrow> ((string \<times> string) \<times> totals) option" where
  "max_total best x =
     (case best of
        None \<Rightarrow> Some x
      | Some b \<Rightarrow> if snd (snd b) < snd (snd x) \<or> (snd (snd b) = snd (snd x) \<and> fst x \<le> fst b) then Some x else Some b)"

definition heaviest_with :: "nat \<Rightarrow> (string \<times> string, totals) hmap \<Rightarrow> (string \<times> string) option" where
  "heaviest_with cls per_stream = map_option fst (foldl max_total None (filter (\<lambda>(_, t). 0 < fst t ! cls) per_stream))"

definition remove_at :: "nat \<Rightarrow> 'a list \<Rightarrow> 'a list" where
  "remove_at i xs = take i xs @ drop (Suc i) xs"

lemma position_less: "position p xs = Some i \<Longrightarrow> i < length xs"
  by (induction xs arbitrary: i) (auto split: if_splits)

lemma length_remove_at [simp]: "i < length xs \<Longrightarrow> length (remove_at i xs) = length xs - 1"
  by (simp add: remove_at_def)

function evict_loop ::
    "nat \<Rightarrow> nat \<Rightarrow> media_item list \<Rightarrow> nat \<Rightarrow> (string \<times> string, totals) hmap \<Rightarrow> nat list \<Rightarrow> eviction_counters \<Rightarrow>
     bool \<times> media_item list \<times> nat \<times> eviction_counters" where
  "evict_loop need mx frames bytes per_stream class_count ctr =
     (if usize_saturating_add bytes need \<le> mx then (True, frames, bytes, ctr)
      else case List.find (\<lambda>c. 0 < class_count ! c) [0 ..< 3] of
        None \<Rightarrow> (False, frames, bytes, ctr)
      | Some cls \<Rightarrow>
          (case heaviest_with cls per_stream of
             None \<Rightarrow> (False, frames, bytes, ctr)
           | Some names \<Rightarrow>
               (case position (\<lambda>f. item_names f = names \<and> mi_hint f = CLASSES ! cls) frames of
                  None \<Rightarrow> (False, frames, bytes, ctr)
                | Some idx \<Rightarrow>
                    (let old = frames ! idx
                     in evict_loop need mx (remove_at idx frames) (bytes - item_size old)
                          (hm_iter_mut (\<lambda>n t. if n = names then (drop_class cls (fst t), snd t - item_size old) else t) per_stream)
                          (drop_class cls class_count) (count_eviction (mi_hint old) ctr)))))"
  by pat_completeness auto

termination
  by (relation "measure (\<lambda>(need, mx, frames, _). length frames)") (auto dest!: position_less)

declare evict_loop.simps [simp del]

definition evict_for_room ::
    "media_item list \<Rightarrow> nat \<Rightarrow> nat \<Rightarrow> nat \<Rightarrow> eviction_counters \<Rightarrow> bool \<times> media_item list \<times> nat \<times> eviction_counters" where
  "evict_for_room frames bytes need mx ctr =
     (if mx < need then (False, frames, bytes, ctr)
      else
        let (per_stream, class_count) =
              (if mx < usize_saturating_add bytes need then fold scan_item frames ([], [0, 0, 0]) else ([], [0, 0, 0]))
        in evict_loop need mx frames bytes per_stream class_count ctr)"

section \<open>The queues\<close>

record media_queue =
  mq_frames :: "media_item list"
  mq_bytes :: nat
  mq_max_bytes :: nat
  mq_counters :: eviction_counters

definition media_queue_new :: "u32 \<Rightarrow> media_queue" where
  "media_queue_new max_mb =
     \<lparr>mq_frames = [], mq_bytes = 0, mq_max_bytes = max (usize_saturating_mul (unat max_mb) (1024 * 1024)) (1024 * 1024),
      mq_counters = eviction_counters_default\<rparr>"

text \<open>\<open>InjectQueue::try_send\<close>, and \<open>ExportQueue::push\<close>, which forgets the result.\<close>

definition inject_try_send :: "media_item \<Rightarrow> media_queue \<Rightarrow> bool \<times> media_queue" where
  "inject_try_send frame q =
     (let sz = item_size frame;
          (ok, frames, bytes, ctr) = evict_for_room (mq_frames q) (mq_bytes q) sz (mq_max_bytes q) (mq_counters q);
          q1 = q\<lparr>mq_frames := frames, mq_bytes := bytes, mq_counters := ctr\<rparr>
      in if \<not> ok then (False, q1\<lparr>mq_counters := ctr\<lparr>ev_oversized := ev_oversized ctr + 1\<rparr>\<rparr>)
         else (True, q1\<lparr>mq_bytes := usize_saturating_add bytes sz, mq_frames := frames @ [frame]\<rparr>))"

definition export_push :: "media_item \<Rightarrow> media_queue \<Rightarrow> media_queue" where
  "export_push frame q = snd (inject_try_send frame q)"

definition queue_drain :: "media_queue \<Rightarrow> media_item list \<times> media_queue" where
  "queue_drain q = (mq_frames q, q\<lparr>mq_frames := [], mq_bytes := 0\<rparr>)"

definition queue_stats :: "media_queue \<Rightarrow> eviction_stats" where
  "queue_stats q = eviction_snapshot (mq_counters q) (length (mq_frames q)) (mq_bytes q)"

end
