(* ===== verification/Media_Queues_Props.thy ===== *)
theory Media_Queues_Props
  imports Media_Queues
begin

text \<open>
  The eviction of the export and inject queues keeps totals up to date while it evicts. It is shown to
  choose its victims as a specification that recounts the queue does, and the queues are shown to be
  bounded, in order, and to give up the cheapest frames first.
\<close>

section \<open>The specification\<close>

definition load :: "media_item list \<Rightarrow> string \<times> string \<Rightarrow> nat" where
  "load fs n = sum_list (map item_size (filter (\<lambda>f. item_names f = n) fs))"

definition total_size :: "media_item list \<Rightarrow> nat" where
  "total_size fs = sum_list (map item_size fs)"

text \<open>
  The victim: of the cheapest class in the queue, in the stream that has the most bytes among those with
  a frame of this class (the smaller name among equals), the oldest.
\<close>

definition is_victim :: "media_item list \<Rightarrow> nat \<Rightarrow> bool" where
  "is_victim fs i \<longleftrightarrow> i < length fs \<and>
     (\<forall>g \<in> set fs. class_idx (mi_hint (fs ! i)) \<le> class_idx (mi_hint g)) \<and>
     (\<forall>g \<in> set fs. mi_hint g = mi_hint (fs ! i) \<longrightarrow>
        load fs (item_names g) < load fs (item_names (fs ! i)) \<or>
        (load fs (item_names g) = load fs (item_names (fs ! i)) \<and> item_names (fs ! i) \<le> item_names g)) \<and>
     (\<forall>j < i. \<not> (item_names (fs ! j) = item_names (fs ! i) \<and> mi_hint (fs ! j) = mi_hint (fs ! i)))"

inductive evicts :: "nat \<Rightarrow> nat \<Rightarrow> media_item list \<Rightarrow> media_item list \<Rightarrow> media_item list \<Rightarrow> bool" for need mx where
  enough: "total_size fs + need \<le> mx \<Longrightarrow> evicts need mx fs fs []"
| evict: "mx < total_size fs + need \<Longrightarrow> is_victim fs i \<Longrightarrow> evicts need mx (remove_at i fs) fs' vs \<Longrightarrow>
    evicts need mx fs fs' (fs ! i # vs)"

section \<open>The totals are the totals of the queue\<close>

abbreviation in_class :: "string \<times> string \<Rightarrow> delivery_hint \<Rightarrow> media_item \<Rightarrow> bool" where
  "in_class n h f \<equiv> item_names f = n \<and> mi_hint f = h"

definition counts_ok :: "nat list \<Rightarrow> (delivery_hint \<Rightarrow> nat) \<Rightarrow> bool" where
  "counts_ok cs c \<longleftrightarrow> length cs = 3 \<and> (\<forall>h. cs ! class_idx h = c h)"

fun totals_ok :: "media_item list \<Rightarrow> string \<times> string \<Rightarrow> totals option \<Rightarrow> bool" where
  "totals_ok fs n None \<longleftrightarrow> (\<forall>f \<in> set fs. item_names f \<noteq> n)"
| "totals_ok fs n (Some t) \<longleftrightarrow> counts_ok (fst t) (\<lambda>h. length (filter (in_class n h) fs)) \<and> snd t = load fs n"

declare split_paired_All [simp del] split_paired_Ex [simp del]

definition books :: "media_item list \<Rightarrow> (string \<times> string, totals) hmap \<Rightarrow> nat list \<Rightarrow> bool" where
  "books fs per_stream class_count \<longleftrightarrow>
     hm_ok per_stream \<and> counts_ok class_count (\<lambda>h. length (filter (\<lambda>f. mi_hint f = h) fs)) \<and>
     (\<forall>n. totals_ok fs n (hm_get per_stream n))"

lemma class_idx_less [simp]: "class_idx h < 3"
  by (cases h) simp_all

lemma class_idx_inj [simp]: "class_idx h = class_idx h' \<longleftrightarrow> h = h'"
  by (cases h; cases h') simp_all

lemma CLASSES_idx [simp]: "CLASSES ! class_idx h = h"
  by (cases h) (simp_all add: CLASSES_def)

lemma less3_class: "c < 3 \<Longrightarrow> \<exists>h. c = class_idx h"
  by (metis class_idx.simps less_Suc_eq less_one numeral_3_eq_3 numeral_2_eq_2 One_nat_def)

lemma counts_bump: "counts_ok cs c \<Longrightarrow> counts_ok (bump_class (class_idx h) cs) (c(h := c h + 1))"
  by (auto simp: counts_ok_def bump_class_def nth_list_update)

lemma counts_drop: "counts_ok cs c \<Longrightarrow> counts_ok (drop_class (class_idx h) cs) (c(h := c h - 1))"
  by (auto simp: counts_ok_def drop_class_def nth_list_update)

lemma counts_cong: "counts_ok cs c \<Longrightarrow> (\<And>h. c h = c' h) \<Longrightarrow> counts_ok cs c'"
  by (simp add: counts_ok_def)

lemma counts_zero: "counts_ok [0, 0, 0] (\<lambda>h. 0)"
proof -
  have "[0, 0, 0] ! class_idx h = (0::nat)" for h by (cases h) simp_all
  then show ?thesis by (simp add: counts_ok_def)
qed

lemma totals_default:
  assumes "totals_ok fs n opt"
  shows "totals_ok fs n (Some (case opt of Some t \<Rightarrow> t | None \<Rightarrow> ([0, 0, 0], 0)))"
proof (cases opt)
  case None
  with assms have "filter (in_class n h) fs = []" "load fs n = 0" for h
    by (auto simp: load_def filter_empty_conv intro!: filter_False)
  with None counts_zero show ?thesis by simp
qed (use assms in simp)

lemma scan_books:
  assumes "books fs per cc"
  shows "case scan_item f (per, cc) of (per', cc') \<Rightarrow> books (fs @ [f]) per' cc'"
proof -
  have cc: "counts_ok cc (\<lambda>h. length (filter (\<lambda>g. mi_hint g = h) fs))" using assms by (simp add: books_def)
  obtain cs b where t: "(case hm_get per (item_names f) of Some t \<Rightarrow> t | None \<Rightarrow> ([0, 0, 0], 0)) = (cs, b)" by fastforce
  with totals_default [of fs "item_names f" "hm_get per (item_names f)"] assms
  have cs: "counts_ok cs (\<lambda>h. length (filter (in_class (item_names f) h) fs))" "b = load fs (item_names f)" by (simp_all add: books_def)
  have "counts_ok (bump_class (class_idx (mi_hint f)) cs) (\<lambda>h. length (filter (in_class (item_names f) h) (fs @ [f])))"
    by (rule counts_cong [OF counts_bump [OF cs(1)]]) simp
  moreover have "counts_ok (bump_class (class_idx (mi_hint f)) cc) (\<lambda>h. length (filter (\<lambda>g. mi_hint g = h) (fs @ [f])))"
    by (rule counts_cong [OF counts_bump [OF cc]]) simp
  moreover have "totals_ok (fs @ [f]) n (hm_get per n)" if "n \<noteq> item_names f" for n
  proof -
    have "totals_ok fs n (hm_get per n)" using assms by (simp add: books_def)
    then show ?thesis using that by (cases "hm_get per n") (auto simp: load_def)
  qed
  moreover have "load (fs @ [f]) (item_names f) = b + item_size f" by (simp add: load_def cs(2))
  ultimately have "books (fs @ [f]) (hm_insert (item_names f) (bump_class (class_idx (mi_hint f)) cs, b + item_size f) per)
      (bump_class (class_idx (mi_hint f)) cc)"
    using assms by (simp add: books_def del: filter_append)
  then show ?thesis by (simp add: scan_item_def t Let_def)
qed

lemma scan_all: "case fold scan_item fs ([], [0, 0, 0]) of (per, cc) \<Rightarrow> books fs per cc"
proof (induction fs rule: rev_induct)
  case Nil
  show ?case by (simp add: books_def counts_zero)
next
  case (snoc f fs)
  obtain per cc where "fold scan_item fs ([], [0, 0, 0]) = (per, cc)" by fastforce
  with snoc scan_books [of fs per cc f] show ?case by simp
qed

section \<open>The loop evicts what the specification evicts\<close>

definition beats :: "(string \<times> string) \<times> totals \<Rightarrow> (string \<times> string) \<times> totals \<Rightarrow> bool" where
  "beats x y \<longleftrightarrow> snd (snd y) < snd (snd x) \<or> (snd (snd y) = snd (snd x) \<and> fst x \<le> fst y)"

lemma beats_order: "beats x x" "beats x y \<Longrightarrow> beats y z \<Longrightarrow> beats x z" "\<not> beats x y \<Longrightarrow> beats y x"
  by (auto simp: beats_def)

lemma max_total_Some: "max_total (Some b) x = Some (if beats x b then x else b)"
  by (simp add: max_total_def beats_def)

lemma max_total_foldl: "\<exists>m \<in> set (b # xs). foldl max_total (Some b) xs = Some m \<and> (\<forall>x \<in> set (b # xs). beats m x)"
proof (induction xs arbitrary: b)
  case (Cons x xs)
  define c where "c = (if beats x b then x else b)"
  have c: "beats c x" "beats c b" "c \<in> {x, b}" using beats_order(1,3) by (auto simp: c_def)
  obtain m where m: "m \<in> set (c # xs)" "foldl max_total (Some c) xs = Some m" "\<forall>y \<in> set (c # xs). beats m y"
    using Cons.IH [of c] by blast
  have mc: "beats m c" using m(3) by simp
  have "beats m x" "beats m b" using beats_order(2) [OF mc] c(1,2) by blast+
  moreover have "m \<in> set (b # x # xs)" using m(1) c(3) by auto
  moreover have "foldl max_total (Some b) (x # xs) = Some m" using m(2) by (simp add: max_total_Some c_def)
  ultimately show ?case using m(3) by (intro bexI [of _ m]) simp_all
qed (simp add: beats_order)

lemma heaviest_spec:
  assumes "heaviest_with c per = Some n" "hm_ok per"
  shows "\<exists>t. hm_get per n = Some t \<and> 0 < fst t ! c \<and>
    (\<forall>m u. hm_get per m = Some u \<and> 0 < fst u ! c \<longrightarrow> beats (n, t) (m, u))"
proof -
  let ?xs = "filter (\<lambda>(_, t). 0 < fst t ! c) per"
  obtain b xs where xs: "?xs = b # xs" using assms(1) by (cases ?xs) (simp_all add: heaviest_with_def)
  then have "foldl max_total None ?xs = foldl max_total (Some b) xs" by (simp add: max_total_def)
  moreover obtain m where m: "m \<in> set (b # xs)" "foldl max_total (Some b) xs = Some m" "\<forall>x \<in> set (b # xs). beats m x"
    using max_total_foldl by blast
  ultimately have m: "m \<in> set ?xs" "fst m = n" "\<forall>x \<in> set ?xs. beats m x"
    using assms(1) unfolding xs heaviest_with_def by simp_all
  then have "hm_get per n = Some (snd m)" "0 < fst (snd m) ! c" using assms(2) by auto
  moreover have "beats m (k, u)" if "hm_get per k = Some u" "0 < fst u ! c" for k u
    using m(3) map_of_SomeD [OF that(1)] that(2) by force
  ultimately show ?thesis using m(2) by (cases m) auto
qed

lemma heaviest_None: "heaviest_with c per = None \<Longrightarrow> hm_get per n = Some t \<Longrightarrow> fst t ! c = 0"
proof -
  let ?xs = "filter (\<lambda>(_, t). 0 < fst t ! c) per"
  assume "heaviest_with c per = None" and t: "hm_get per n = Some t"
  have "?xs = []"
  proof (rule ccontr)
    assume "?xs \<noteq> []"
    then obtain b xs where xs: "?xs = b # xs" by (cases ?xs) simp_all
    then have "foldl max_total None ?xs = foldl max_total (Some b) xs" by (simp add: max_total_def)
    with max_total_foldl [of b xs] \<open>heaviest_with c per = None\<close> show False unfolding heaviest_with_def by auto
  qed
  with map_of_SomeD [OF t] show ?thesis by (fastforce simp: filter_empty_conv)
qed

lemma position_spec:
  "position p xs = Some i \<Longrightarrow> p (xs ! i) \<and> (\<forall>j < i. \<not> p (xs ! j))"
  by (induction xs arbitrary: i) (auto split: if_splits simp: less_Suc_eq_0_disj)

lemma position_absent: "position p xs = None \<longleftrightarrow> (\<forall>x \<in> set xs. \<not> p x)"
  by (induction xs) auto

lemma remove_at_split:
  assumes "i < length xs"
  obtains ys z zs where "xs = ys @ z # zs" "i = length ys"
  using assms id_take_nth_drop [OF assms] that [of "take i xs" "xs ! i" "drop (Suc i) xs"] by simp

lemma remove_at_append [simp]: "remove_at (length ys) (ys @ z # zs) = ys @ zs"
  by (simp add: remove_at_def)

lemma remove_at_filter:
  "i < length xs \<Longrightarrow> length (filter p (remove_at i xs)) = length (filter p xs) - (if p (xs ! i) then 1 else 0)"
  by (erule remove_at_split) simp

lemma remove_at_sum:
  "i < length fs \<Longrightarrow> sum_list (map item_size (filter p (remove_at i fs))) =
    sum_list (map item_size (filter p fs)) - (if p (fs ! i) then item_size (fs ! i) else 0)"
  by (erule remove_at_split) simp

lemma remove_at_load: "i < length fs \<Longrightarrow> load (remove_at i fs) n = load fs n - (if item_names (fs ! i) = n then item_size (fs ! i) else 0)"
  unfolding load_def by (rule remove_at_sum)

lemma remove_at_total: "i < length fs \<Longrightarrow> total_size (remove_at i fs) = total_size fs - item_size (fs ! i)"
  unfolding total_size_def using remove_at_sum [of i fs "\<lambda>_. True"] by simp

lemma remove_at_subseq: "i < length xs \<Longrightarrow> subseq (remove_at i xs) xs"
  by (erule remove_at_split) (auto intro!: list_emb_append_mono)

lemma remove_at_mset: "i < length xs \<Longrightarrow> mset xs = add_mset (xs ! i) (mset (remove_at i xs))"
  by (erule remove_at_split) simp

lemma books_remove:
  assumes "books fs per cc" "i < length fs"
  defines "n \<equiv> item_names (fs ! i)" and "h \<equiv> mi_hint (fs ! i)"
  shows "books (remove_at i fs)
    (hm_iter_mut (\<lambda>k t. if k = n then (drop_class (class_idx h) (fst t), snd t - item_size (fs ! i)) else t) per)
    (drop_class (class_idx h) cc)"
proof -
  let ?per = "hm_iter_mut (\<lambda>k t. if k = n then (drop_class (class_idx h) (fst t), snd t - item_size (fs ! i)) else t) per"
  have ok: "hm_ok per" and cc: "counts_ok cc (\<lambda>g. length (filter (\<lambda>f. mi_hint f = g) fs))" using assms(1) by (simp_all add: books_def)
  have "totals_ok (remove_at i fs) k (hm_get ?per k)" for k
  proof -
    have old: "totals_ok fs k (hm_get per k)" using assms(1) by (simp add: books_def)
    have sub: "set (remove_at i fs) \<subseteq> set fs" by (auto simp: remove_at_def dest: in_set_takeD in_set_dropD)
    show ?thesis
    proof (cases "hm_get per k")
      case None
      with old sub show ?thesis by (auto simp: hm_get_iter_mut [OF ok])
    next
      case (Some t)
      with old have cs: "counts_ok (fst t) (\<lambda>g. length (filter (in_class k g) fs))" and b: "snd t = load fs k" by simp_all
      have "counts_ok (if k = n then drop_class (class_idx h) (fst t) else fst t) (\<lambda>g. length (filter (in_class k g) (remove_at i fs)))"
      proof (cases "k = n")
        case True
        have "counts_ok (drop_class (class_idx h) (fst t)) (\<lambda>g. length (filter (in_class k g) (remove_at i fs)))"
          by (rule counts_cong [OF counts_drop [OF cs]]) (auto simp: remove_at_filter [OF assms(2)] True n_def h_def)
        then show ?thesis by (simp add: True)
      next
        case False
        then have "counts_ok (fst t) (\<lambda>g. length (filter (in_class k g) (remove_at i fs)))"
          by (intro counts_cong [OF cs]) (auto simp: remove_at_filter [OF assms(2)] n_def)
        then show ?thesis by (simp add: False)
      qed
      then show ?thesis using Some b by (auto simp: hm_get_iter_mut [OF ok] remove_at_load [OF assms(2)] n_def)
    qed
  qed
  moreover have "counts_ok (drop_class (class_idx h) cc) (\<lambda>g. length (filter (\<lambda>f. mi_hint f = g) (remove_at i fs)))"
    by (rule counts_cong [OF counts_drop [OF cc]]) (auto simp: remove_at_filter [OF assms(2)] h_def)
  ultimately show ?thesis using ok by (simp add: books_def)
qed

lemma victim_found:
  assumes "books fs per cc" "fs \<noteq> []"
  obtains h n i where "List.find (\<lambda>c. 0 < cc ! c) [0 ..< 3] = Some (class_idx h)" "heaviest_with (class_idx h) per = Some n"
    "position (in_class n h) fs = Some i" "is_victim fs i" "item_names (fs ! i) = n" "mi_hint (fs ! i) = h"
proof -
  have cc: "0 < cc ! class_idx g \<longleftrightarrow> (\<exists>f \<in> set fs. mi_hint f = g)" for g
    using assms(1) by (auto simp: books_def counts_ok_def filter_empty_conv)
  have ok: "hm_ok per" and tot: "totals_ok fs k (hm_get per k)" for k using assms(1) by (simp_all add: books_def)
  obtain f where f: "f \<in> set fs" using assms(2) by (cases fs) auto
  then have "List.find (\<lambda>c. 0 < cc ! c) [0 ..< 3] \<noteq> None" 
    using cc [of "mi_hint f"] class_idx_less [of "mi_hint f"] unfolding find_None_iff set_upt atLeastLessThan_iff by blast
  then obtain c where c: "List.find (\<lambda>c. 0 < cc ! c) [0 ..< 3] = Some c" by blast
  then have "c < 3" "0 < cc ! c" and low: "\<forall>d < c. cc ! d = 0" by (auto simp: find_Some_iff)
  then obtain h where h: "c = class_idx h" using less3_class by blast
  have cheap: "class_idx h \<le> class_idx (mi_hint g)" if "g \<in> set fs" for g
    using low cc [of "mi_hint g"] that h by (metis leI less_numeral_extra(3))
  have has: "0 < fst u ! class_idx h \<longleftrightarrow> (\<exists>g \<in> set fs. in_class k h g)" "snd u = load fs k" if "hm_get per k = Some u" for k u
    using tot [of k] that by (auto simp: counts_ok_def filter_empty_conv)
  obtain g where g: "g \<in> set fs" "mi_hint g = h" using cc [of h] \<open>0 < cc ! c\<close> h by auto
  have "heaviest_with (class_idx h) per \<noteq> None"
  proof
    assume none: "heaviest_with (class_idx h) per = None"
    have "hm_get per (item_names g) \<noteq> None" using tot [of "item_names g"] g(1) by (cases "hm_get per (item_names g)") auto
    then obtain u where "hm_get per (item_names g) = Some u" by blast
    with heaviest_None [OF none this] has(1) [OF this] g show False by auto
  qed
  then obtain n where n: "heaviest_with (class_idx h) per = Some n" by blast
  from heaviest_spec [OF n ok] obtain t where t: "hm_get per n = Some t" "0 < fst t ! class_idx h"
    and best: "\<And>m u. hm_get per m = Some u \<Longrightarrow> 0 < fst u ! class_idx h \<Longrightarrow> beats (n, t) (m, u)" by blast
  obtain i where i: "position (in_class n h) fs = Some i"
    using has(1) [OF t(1)] t(2) position_absent [of "in_class n h" fs] by fastforce
  note p = position_spec [OF i] position_less [OF i]
  have "load fs (item_names k) < load fs n \<or> (load fs (item_names k) = load fs n \<and> n \<le> item_names k)"
    if "k \<in> set fs" "mi_hint k = h" for k
  proof -
    have "hm_get per (item_names k) \<noteq> None" using tot [of "item_names k"] that(1) by (cases "hm_get per (item_names k)") auto
    then obtain u where u: "hm_get per (item_names k) = Some u" by blast
    with best [OF u] has [OF u] has(2) [OF t(1)] that show ?thesis by (auto simp: beats_def)
  qed
  with p cheap have "is_victim fs i" by (auto simp: is_victim_def)
  with that [of h n i] c h n i p show thesis by simp
qed

lemma loop_evicts:
  assumes "books fs per cc" "need \<le> mx" "mx < usize_max"
  shows "\<exists>fs' vs. evict_loop need mx fs (total_size fs) per cc ctr =
      (True, fs', total_size fs', fold count_eviction (map mi_hint vs) ctr) \<and> evicts need mx fs fs' vs"
  using assms(1)
proof (induction fs arbitrary: per cc ctr rule: length_induct)
  case (1 fs)
  have sat: "usize_saturating_add b need \<le> mx \<longleftrightarrow> b + need \<le> mx" for b using assms(3) by (auto simp: usize_saturating_add_def)
  show ?case
  proof (cases "total_size fs + need \<le> mx")
    case True
    then show ?thesis by (auto simp: evict_loop.simps [of _ _ fs] sat intro!: exI [of _ "[]"] evicts.enough)
  next
    case False
    with assms(2) have "fs \<noteq> []" by (auto simp: total_size_def)
    from victim_found [OF "1.prems" this] obtain h n i where v:
      "List.find (\<lambda>c. 0 < cc ! c) [0 ..< 3] = Some (class_idx h)" "heaviest_with (class_idx h) per = Some n"
      "position (in_class n h) fs = Some i" "is_victim fs i" "item_names (fs ! i) = n" "mi_hint (fs ! i) = h" .
    have i: "i < length fs" using v(4) by (simp add: is_victim_def)
    have "length (remove_at i fs) < length fs" using i by simp
    from "1.IH" [rule_format, OF this books_remove [OF "1.prems" i], of "count_eviction h ctr"] obtain fs' vs where r: "evict_loop need mx (remove_at i fs) (total_size (remove_at i fs))
        (hm_iter_mut (\<lambda>k t. if k = n then (drop_class (class_idx h) (fst t), snd t - item_size (fs ! i)) else t) per)
        (drop_class (class_idx h) cc) (count_eviction h ctr) =
        (True, fs', total_size fs', fold count_eviction (map mi_hint vs) (count_eviction h ctr))"
      "evicts need mx (remove_at i fs) fs' vs" unfolding v by blast
    have "evict_loop need mx fs (total_size fs) per cc ctr = (True, fs', total_size fs', fold count_eviction (map mi_hint vs) (count_eviction h ctr))"
      using False r(1) by (subst evict_loop.simps) (simp add: sat v Let_def remove_at_total [OF i])
    moreover have "evicts need mx fs fs' (fs ! i # vs)" using False v(4) r(2) by (intro evicts.evict) auto
    ultimately show ?thesis by (intro exI [of _ fs'] exI [of _ "fs ! i # vs"]) (simp add: v)
  qed
qed

section \<open>What an eviction keeps\<close>

lemma evicts_subseq: "evicts need mx fs fs' vs \<Longrightarrow> subseq fs' fs"
  by (induction rule: evicts.induct) (auto simp: is_victim_def intro: subseq_order.order_trans remove_at_subseq)

lemma evicts_mset: "evicts need mx fs fs' vs \<Longrightarrow> mset fs = mset vs + mset fs'"
  by (induction rule: evicts.induct) (auto simp: is_victim_def remove_at_mset)

lemma evicts_room: "evicts need mx fs fs' vs \<Longrightarrow> total_size fs' + need \<le> mx"
  by (induction rule: evicts.induct) auto

lemma evicts_class:
  "evicts need mx fs fs' vs \<Longrightarrow> v \<in> set vs \<Longrightarrow> f \<in> set fs' \<Longrightarrow> class_idx (mi_hint v) \<le> class_idx (mi_hint f)"
proof (induction rule: evicts.induct)
  case (evict fs i fs' vs)
  have "f \<in> set fs" using evict.prems(2) arg_cong [OF evicts_mset [OF evicts.evict [OF evict.hyps]], of set_mset] by simp
  with evict show ?case by (auto simp: is_victim_def)
qed simp

lemma evicts_minimal: "evicts need mx fs fs' vs \<Longrightarrow> vs \<noteq> [] \<Longrightarrow> mx < total_size (last vs # fs') + need"
proof (induction rule: evicts.induct)
  case (evict fs i fs' vs)
  show ?case
  proof (cases "vs = []")
    case True
    with evict.hyps(3) have "fs' = remove_at i fs" by cases auto
    moreover have "total_size fs = item_size (fs ! i) + total_size (remove_at i fs)"
      using evict.hyps(2) arg_cong [OF remove_at_mset, of i fs "\<lambda>M. sum_mset (image_mset item_size M)"]
      by (simp add: is_victim_def total_size_def flip: sum_mset_sum_list mset_map)
    ultimately show ?thesis using evict.hyps(1) True by (simp add: total_size_def)
  qed (use evict in simp)
qed simp

lemma evicts_oldest:
  "evicts need mx fs fs' vs \<Longrightarrow> filter (in_class n h) fs = filter (in_class n h) vs @ filter (in_class n h) fs'"
proof (induction rule: evicts.induct)
  case (evict fs i fs' vs)
  have i: "i < length fs" and first: "\<forall>j < i. \<not> in_class (item_names (fs ! i)) (mi_hint (fs ! i)) (fs ! j)"
    using evict.hyps(2) by (auto simp: is_victim_def)
  have "filter (in_class n h) fs = (if in_class n h (fs ! i) then [fs ! i] else []) @ filter (in_class n h) (remove_at i fs)"
  proof -
    obtain ys z zs where s: "fs = ys @ z # zs" "i = length ys" using remove_at_split [OF i] .
    have "filter (in_class n h) ys = []" if "in_class n h z"
      using first that s by (auto simp: filter_empty_conv in_set_conv_nth nth_append)
    then show ?thesis by (auto simp: s)
  qed
  with evict.IH show ?case by auto
qed simp

lemma eviction_spec:
  assumes "mx < usize_max"
  shows "case evict_for_room fs (total_size fs) need mx ctr of (ok, fs', bytes, ctr') \<Rightarrow>
    if need \<le> mx
    then ok \<and> bytes = total_size fs' \<and> bytes + need \<le> mx \<and>
      (\<exists>vs. evicts need mx fs fs' vs \<and> ctr' = fold count_eviction (map mi_hint vs) ctr \<and>
         (\<forall>v \<in> set vs. \<forall>f \<in> set fs'. class_idx (mi_hint v) \<le> class_idx (mi_hint f)) \<and>
         (vs \<noteq> [] \<longrightarrow> mx < total_size (last vs # fs') + need))
    else \<not> ok \<and> fs' = fs \<and> bytes = total_size fs \<and> ctr' = ctr"
proof (cases "need \<le> mx")
  case True
  let ?start = "if mx < usize_saturating_add (total_size fs) need then fold scan_item fs ([], [0, 0, 0]) else ([], [0, 0, 0])"
  obtain per cc where pc: "?start = (per, cc)" by fastforce
  have "\<exists>fs' vs. evict_loop need mx fs (total_size fs) per cc ctr =
      (True, fs', total_size fs', fold count_eviction (map mi_hint vs) ctr) \<and> evicts need mx fs fs' vs"
  proof (cases "mx < usize_saturating_add (total_size fs) need")
    case crowded: True
    with pc scan_all [of fs] have "books fs per cc" by simp
    then show ?thesis by (rule loop_evicts [OF _ True assms])
  next
    case False
    then have "total_size fs + need \<le> mx" using assms by (auto simp: usize_saturating_add_def)
    with False show ?thesis
      by (intro exI [of _ fs] exI [of _ "[]"]) (simp add: evict_loop.simps [of _ _ fs] evicts.enough)
  qed
  then obtain fs' vs where r: "evict_loop need mx fs (total_size fs) per cc ctr =
      (True, fs', total_size fs', fold count_eviction (map mi_hint vs) ctr)" "evicts need mx fs fs' vs" by blast
  have "evict_for_room fs (total_size fs) need mx ctr = (True, fs', total_size fs', fold count_eviction (map mi_hint vs) ctr)"
    using True pc r(1) by (simp add: evict_for_room_def Let_def split: if_splits)
  with True evicts_room [OF r(2)] evicts_class [OF r(2)] evicts_minimal [OF r(2)] r(2) show ?thesis by auto
qed (simp add: evict_for_room_def)

text \<open>
  C28. Eviction follows its policy although it only updates totals. A frame larger than the queue is refused
  and nothing is evicted. For every other frame room is made: the frames given up are those a recount of the
  queue before each eviction selects - the cheapest class present, in the stream with the most bytes among
  those that hold it, the oldest first -, none of them is more valuable than a frame that stays, no fewer
  would have sufficed, and each is counted in its class.
\<close>

theorem eviction_follows_policy:
  assumes "mx < usize_max"
  shows "case evict_for_room fs (total_size fs) need mx ctr of (ok, fs', bytes, ctr') \<Rightarrow>
    if need \<le> mx
    then ok \<and> bytes = total_size fs' \<and> bytes + need \<le> mx \<and>
      (\<exists>vs. evicts need mx fs fs' vs \<and> ctr' = fold count_eviction (map mi_hint vs) ctr \<and>
         (\<forall>v \<in> set vs. \<forall>f \<in> set fs'. class_idx (mi_hint v) \<le> class_idx (mi_hint f)) \<and>
         (vs \<noteq> [] \<longrightarrow> mx < total_size (last vs # fs') + need))
    else \<not> ok \<and> fs' = fs \<and> bytes = total_size fs \<and> ctr' = ctr"
  using assms by (rule eviction_spec)

definition demo_item :: "string \<Rightarrow> delivery_hint \<Rightarrow> nat \<Rightarrow> media_item" where
  "demo_item stream hint n = \<lparr>mi_app = ''live'', mi_stream = stream, mi_epoch = 1, mi_frame_type = 1, mi_timestamp = 0,
     mi_hint = hint, mi_payload = replicate n 0\<rparr>"

theorem eviction_follows_policy_witness:
  "case evict_for_room [demo_item ''a'' ResyncPoint 900, demo_item ''b'' Droppable 36] 1064 100 1100 eviction_counters_default of
     (ok, fs', bytes, ctr') \<Rightarrow> ok \<and> bytes = total_size fs' \<and> bytes + 100 \<le> 1100"
proof -
  have t: "total_size [demo_item ''a'' ResyncPoint 900, demo_item ''b'' Droppable 36] = 1064"
    by (simp add: total_size_def item_size_def demo_item_def usize_saturating_add_def usize_max_def)
  have "(1100::nat) < usize_max" by (simp add: usize_max_def)
  from eviction_follows_policy [OF this, where need = 100 and fs = "[demo_item ''a'' ResyncPoint 900, demo_item ''b'' Droppable 36]"
      and ctr = eviction_counters_default]
  show ?thesis unfolding t by (auto split: prod.splits)
qed

section \<open>Histories of a queue\<close>

datatype queue_op = Offer media_item | Drain

text \<open>The queue and what was drained from it, oldest first.\<close>

fun queue_step :: "queue_op \<Rightarrow> media_queue \<times> media_item list \<Rightarrow> media_queue \<times> media_item list" where
  "queue_step (Offer f) (q, out) = (snd (inject_try_send f q), out)"
| "queue_step Drain (q, out) = (let (fs, q') = queue_drain q in (q', out @ fs))"

definition queue_run :: "queue_op list \<Rightarrow> u32 \<Rightarrow> media_queue \<times> media_item list" where
  "queue_run ops max_mb = fold queue_step ops (media_queue_new max_mb, [])"

fun offered :: "queue_op list \<Rightarrow> media_item list" where
  "offered [] = []"
| "offered (Offer f # ops) = f # offered ops"
| "offered (Drain # ops) = offered ops"

definition lost :: "eviction_counters \<Rightarrow> u64" where
  "lost c = ev_droppable c + ev_resync_point c + ev_critical c + ev_oversized c"

definition queue_inv :: "media_item list \<Rightarrow> media_queue \<times> media_item list \<Rightarrow> bool" where
  "queue_inv given qo \<longleftrightarrow>
     (let (q, out) = qo
      in mq_bytes q = total_size (mq_frames q) \<and> mq_bytes q \<le> mq_max_bytes q \<and> mq_max_bytes q < usize_max \<and>
         subseq (out @ mq_frames q) given \<and>
         of_nat (length given) = of_nat (length (out @ mq_frames q)) + lost (mq_counters q))"

lemma lost_eviction: "lost (count_eviction h c) = lost c + 1"
  by (cases h) (simp_all add: lost_def)

lemma lost_evictions: "lost (fold count_eviction hs c) = lost c + of_nat (length hs)"
  by (induction hs arbitrary: c) (simp_all add: lost_eviction)

lemma lost_oversized: "lost (c\<lparr>ev_oversized := ev_oversized c + 1\<rparr>) = lost c + 1"
  by (simp add: lost_def)

lemma offer_inv:
  assumes "queue_inv given (q, out)"
  shows "queue_inv (given @ [f]) (snd (inject_try_send f q), out)"
proof -
  let ?need = "item_size f" and ?fs = "mq_frames q"
  have inv: "mq_bytes q = total_size ?fs" "mq_max_bytes q < usize_max" "mq_bytes q \<le> mq_max_bytes q" "subseq (out @ ?fs) given"
    "of_nat (length given) = of_nat (length (out @ ?fs)) + lost (mq_counters q)" using assms by (simp_all add: queue_inv_def)
  obtain ok fs' b c where e: "evict_for_room ?fs (total_size ?fs) ?need (mq_max_bytes q) (mq_counters q) = (ok, fs', b, c)"
    by (metis prod_cases4)
  note spec = eviction_spec [OF inv(2), where fs = ?fs and need = ?need and ctr = "mq_counters q", unfolded e, simplified]
  show ?thesis
  proof (cases "?need \<le> mq_max_bytes q")
    case True
    with spec obtain vs where r: "ok" "b = total_size fs'" "evicts ?need (mq_max_bytes q) ?fs fs' vs" "c = fold count_eviction (map mi_hint vs) (mq_counters q)"
      by auto
    have "subseq (out @ fs') given" using evicts_subseq [OF r(3)] inv(4)
      by (meson list_emb_append_mono subseq_order.order_refl subseq_order.order_trans)
    then have "subseq (out @ fs' @ [f]) (given @ [f])" by (metis append_assoc list_emb_append_mono subseq_order.order_refl)
    moreover have "length ?fs = length vs + length fs'" using arg_cong [OF evicts_mset [OF r(3)], of size] by simp
    moreover have "usize_saturating_add (total_size fs') ?need = total_size (fs' @ [f])" "total_size (fs' @ [f]) \<le> mq_max_bytes q"
      using evicts_room [OF r(3)] inv(2) by (simp_all add: usize_saturating_add_def total_size_def)
    ultimately show ?thesis
      using inv r e by (simp add: queue_inv_def inject_try_send_def Let_def lost_evictions)
  next
    case False
    with spec have "\<not> ok" "fs' = ?fs" "b = total_size ?fs" "c = mq_counters q" by auto
    then show ?thesis
      using inv e by (auto simp: queue_inv_def inject_try_send_def Let_def lost_oversized intro: subseq_order.order_trans)
  qed
qed

lemma drain_inv: "queue_inv given (q, out) \<Longrightarrow> queue_inv given (queue_step Drain (q, out))"
  by (simp add: queue_inv_def queue_drain_def total_size_def)

lemma run_inv: "queue_inv given qo \<Longrightarrow> queue_inv (given @ offered ops) (fold queue_step ops qo)"
proof (induction ops arbitrary: given qo rule: offered.induct)
  case (2 f ops)
  obtain q out where qo: "qo = (q, out)" by fastforce
  from "2.IH" [OF offer_inv [of given q out f]] "2.prems" qo show ?case by simp
next
  case (3 ops)
  obtain q out where qo: "qo = (q, out)" by fastforce
  from "3.IH" [OF drain_inv [of given q out]] "3.prems" qo show ?case by simp
qed simp

lemma new_inv: "queue_inv [] (media_queue_new max_mb, [])"
proof -
  have "unat max_mb < 2 ^ 32" using unsigned_less [of max_mb, where ?'a = nat] by simp
  then have "usize_saturating_mul (unat max_mb) (1024 * 1024) < usize_max"
    by (simp add: usize_saturating_mul_def usize_max_def)
  then show ?thesis
    by (simp add: queue_inv_def media_queue_new_def total_size_def lost_def eviction_counters_default_def usize_max_def)
qed

text \<open>
  C29. The export and inject queues are bounded, ordered and lose nothing silently. Whatever is offered to and
  drained from a queue, it never holds more than its bytes, its byte counter is exact, what has been drained
  followed by what is queued is a subsequence of what was offered, and every frame offered is drained, queued,
  or counted in exactly one of the four counters (which are 64-bit and wrap).
\<close>

theorem media_queue_accounts:
  "case queue_run ops max_mb of (q, out) \<Rightarrow>
     mq_bytes q = total_size (mq_frames q) \<and> mq_bytes q \<le> max (unat max_mb * 1048576) 1048576 \<and>
     subseq (out @ mq_frames q) (offered ops) \<and>
     of_nat (length (offered ops)) = of_nat (length (out @ mq_frames q)) + lost (mq_counters q)"
proof -
  obtain q out where r: "queue_run ops max_mb = (q, out)" by fastforce
  have keep: "mq_max_bytes (fst (fold queue_step ops qo)) = mq_max_bytes (fst qo)" for qo
    by (induction ops arbitrary: qo rule: offered.induct)
      (auto simp: inject_try_send_def queue_drain_def Let_def split: prod.splits)
  have "mq_max_bytes q \<le> max (unat max_mb * 1048576) 1048576"
    using keep [of "(media_queue_new max_mb, [])"] r by (simp add: queue_run_def media_queue_new_def usize_saturating_mul_def)
  with run_inv [OF new_inv [of max_mb], of ops] r show ?thesis
    by (auto simp: queue_run_def queue_inv_def)
qed

end
