(* ===== verification/Media_Peer.thy ===== *)
theory Media_Peer
  imports Live_Queue Wire Security
begin

text \<open>
  Media connections between nodes (\<open>src/src/cluster/media/peer.rs\<close>): the handshake of the dialling and of the
  accepting side, the loop that redials, and the handles through which messages are queued.

  A handshake is a tree of the actions its code awaits: it writes a message and learns whether that
  succeeded, reads one and learns what came, or works on the shared tracker of failed handshakes. What the
  network and the other tasks do is thereby an argument. The response to a challenge is computed by a
  cryptographic library and is an argument, as is the random challenge; the TLS layer delivers the node named
  in the certificate of the peer.
\<close>

section \<open>Handshakes\<close>

datatype recv = Got media_message | IoError | TimedOut

datatype 'a session =
    Finished 'a
  | Write media_message "bool \<Rightarrow> 'a session"
  | Read "recv \<Rightarrow> 'a session"
  | Track "failure_map \<Rightarrow> instant \<Rightarrow> 'a session \<times> failure_map"

datatype auth_error =
    Io
  | AuthTimeout
  | ExpectedAuthChallenge
  | MediaAuthFailed
  | AuthRateLimited
  | ExpectedAuth
  | AuthMismatch
  | Identity identity_error
  | HelloTimeout
  | ExpectedHello
  | BadVersion
  | HelloNodeMismatch
  | NotMember

text \<open>\<open>write_media_frame(...).await?\<close> and \<open>read_auth_media_frame(...).await?\<close>.\<close>

definition write_or_fail :: "media_message \<Rightarrow> (auth_error + 'a) session \<Rightarrow> (auth_error + 'a) session" where
  "write_or_fail msg k = Write msg (\<lambda>ok. if ok then k else Finished (Inl Io))"

definition read_or_fail :: "auth_error \<Rightarrow> (media_message \<Rightarrow> (auth_error + 'a) session) \<Rightarrow> (auth_error + 'a) session" where
  "read_or_fail timeout k = Read (\<lambda>r. case r of Got msg \<Rightarrow> k msg | IoError \<Rightarrow> Finished (Inl Io) | TimedOut \<Rightarrow> Finished (Inl timeout))"

definition client_media_auth ::
    "(string \<Rightarrow> node_id \<Rightarrow> bytes \<Rightarrow> string) \<Rightarrow> string \<Rightarrow> node_id \<Rightarrow> (auth_error + 'a) session \<Rightarrow> (auth_error + 'a) session" where
  "client_media_auth auth_response secret local_id k =
     read_or_fail AuthTimeout (\<lambda>challenge.
       case challenge of
         AuthChallenge ch \<Rightarrow>
           write_or_fail (Auth local_id (auth_response secret local_id ch))
             (read_or_fail AuthTimeout (\<lambda>answer. if answer = AuthOk then k else Finished (Inl MediaAuthFailed)))
       | _ \<Rightarrow> Finished (Inl ExpectedAuthChallenge))"

definition read_hello_ack :: "u16 \<Rightarrow> (bool \<Rightarrow> 'a session) \<Rightarrow> 'a session" where
  "read_hello_ack version k =
     Read (\<lambda>r. k (case r of Got (Hello v _) \<Rightarrow> v = version | Got _ \<Rightarrow> False | IoError \<Rightarrow> False | TimedOut \<Rightarrow> True))"

text \<open>The handshake of \<open>connect_and_run\<close>: whether the peer speaks the version.\<close>

definition dial_handshake ::
    "(string \<Rightarrow> node_id \<Rightarrow> bytes \<Rightarrow> string) \<Rightarrow> string \<Rightarrow> node_id \<Rightarrow> u16 \<Rightarrow> (auth_error + bool) session" where
  "dial_handshake auth_response secret local_id version =
     client_media_auth auth_response secret local_id
       (write_or_fail (Hello version local_id)
         (if MEDIA_PROTOCOL_MIN_VERSION < version then read_hello_ack version (\<lambda>ok. Finished (Inr ok)) else Finished (Inr True)))"

definition VERSION_ERROR_CODE :: string where
  "VERSION_ERROR_CODE = ''VERSION''"

text \<open>The fresh clock reading of \<open>record_cluster_auth_failure\<close> is taken right after the first.\<close>

definition fail_auth :: "ip_addr \<Rightarrow> auth_error \<Rightarrow> (auth_error + 'a) session" where
  "fail_auth peer e =
     Track (\<lambda>m now. (write_or_fail AuthFail (Finished (Inl e)), record_cluster_auth_failure m peer now now))"

definition accept_hello :: "node_id \<Rightarrow> node_id \<Rightarrow> (auth_error + node_id \<times> u16) session" where
  "accept_hello local_id node =
     read_or_fail HelloTimeout (\<lambda>hello.
       case hello of
         Hello version hello_id \<Rightarrow>
           if \<not> is_supported_version version then
             write_or_fail (ErrorMsg VERSION_ERROR_CODE ''unsupported media protocol'' 0) (Finished (Inl BadVersion))
           else if hello_id \<noteq> node then Finished (Inl HelloNodeMismatch)
           else if MEDIA_PROTOCOL_MIN_VERSION < version then write_or_fail (Hello version local_id) (Finished (Inr (node, version)))
           else Finished (Inr (node, version))
       | _ \<Rightarrow> Finished (Inl ExpectedHello))"

definition check_auth ::
    "(string \<Rightarrow> node_id \<Rightarrow> bytes \<Rightarrow> string) \<Rightarrow> bytes \<Rightarrow> ip_addr \<Rightarrow> string \<Rightarrow> node_id \<Rightarrow> bool \<Rightarrow> node_id option \<Rightarrow> media_message \<Rightarrow>
     (auth_error + node_id \<times> u16) session" where
  "check_auth auth_response ch peer secret local_id tls_required cert_node_id msg =
     (case msg of
        Auth node response \<Rightarrow>
          if \<not> secrets_equal (auth_response secret node ch) response then fail_auth peer AuthMismatch
          else
            (case verify_tls_node_identity tls_required (map_option unat cert_node_id) (unat node) of
               Inl e \<Rightarrow> Finished (Inl (Identity e))
             | Inr _ \<Rightarrow> Track (\<lambda>m now. (write_or_fail AuthOk (accept_hello local_id node), clear_cluster_auth_failures m peer)))
      | _ \<Rightarrow> fail_auth peer ExpectedAuth)"

definition accept_auth_negotiated ::
    "(string \<Rightarrow> node_id \<Rightarrow> bytes \<Rightarrow> string) \<Rightarrow> bytes \<Rightarrow> ip_addr \<Rightarrow> string \<Rightarrow> node_id \<Rightarrow> bool \<Rightarrow> node_id option \<Rightarrow>
     (auth_error + node_id \<times> u16) session" where
  "accept_auth_negotiated auth_response ch peer secret local_id tls_required cert_node_id =
     Track (\<lambda>m now.
       let (limited, m') = cluster_auth_rate_limited m peer now
       in (if limited then write_or_fail AuthFail (Finished (Inl AuthRateLimited))
           else
             write_or_fail (AuthChallenge ch)
               (read_or_fail AuthTimeout (check_auth auth_response ch peer secret local_id tls_required cert_node_id)), m'))"

text \<open>\<open>accept_tls_then_auth\<close> after the TLS layer: \<open>tls\<close> is the certificate node if TLS is required.\<close>

primrec then_check :: "(node_id \<Rightarrow> bool) \<Rightarrow> (auth_error + node_id \<times> u16) session \<Rightarrow> (auth_error + node_id \<times> u16) session" where
  "then_check allowed (Finished r) =
     Finished (case r of Inr (node, version) \<Rightarrow> if allowed node then r else Inl NotMember | Inl e \<Rightarrow> Inl e)"
| "then_check allowed (Write msg k) = Write msg (\<lambda>ok. then_check allowed (k ok))"
| "then_check allowed (Read k) = Read (\<lambda>r. then_check allowed (k r))"
| "then_check allowed (Track k) = Track (\<lambda>m now. map_prod (then_check allowed) id (k m now))"

definition accept_tls_then_auth ::
    "(string \<Rightarrow> node_id \<Rightarrow> bytes \<Rightarrow> string) \<Rightarrow> bytes \<Rightarrow> ip_addr \<Rightarrow> string \<Rightarrow> node_id \<Rightarrow> node_id option option \<Rightarrow> (node_id \<Rightarrow> bool) \<Rightarrow>
     (auth_error + node_id \<times> u16) session" where
  "accept_tls_then_auth auth_response ch peer secret local_id tls is_peer_allowed =
     then_check is_peer_allowed
       (accept_auth_negotiated auth_response ch peer secret local_id (tls \<noteq> None) (Option.bind tls id))"

section \<open>The dialling loop\<close>

datatype connect_end = Shutdown | Transient | VersionRejected

definition VERSION_FALLBACK_TTL :: duration where
  "VERSION_FALLBACK_TTL = secs 60"

record dialler =
  d_backoff_ms :: nat
  d_fallback_until :: "instant option"
  d_first :: bool
  d_reconnects :: u64
  d_version_fallbacks :: u64

definition dialler_new :: dialler where
  "dialler_new = \<lparr>d_backoff_ms = 500, d_fallback_until = None, d_first = True, d_reconnects = 0, d_version_fallbacks = 0\<rparr>"

text \<open>The head of a turn: the version to dial with, and whether the queue is reset.\<close>

definition dial_start :: "instant \<Rightarrow> dialler \<Rightarrow> u16 \<times> bool \<times> dialler" where
  "dial_start now d =
     ((case d_fallback_until d of
         Some until \<Rightarrow> if now < until then MEDIA_PROTOCOL_MIN_VERSION else MEDIA_PROTOCOL_VERSION
       | None \<Rightarrow> MEDIA_PROTOCOL_VERSION),
      \<not> d_first d,
      (if d_first d then d else d\<lparr>d_reconnects := d_reconnects d + 1\<rparr>)\<lparr>d_first := False\<rparr>)"

text \<open>
  The end of a turn: whether the loop goes on, whether the hub is told to subscribe again, and how many
  milliseconds the loop sleeps.
\<close>

definition dial_end :: "instant \<Rightarrow> instant \<Rightarrow> auth_error + connect_end \<Rightarrow> dialler \<Rightarrow> bool \<times> bool \<times> nat \<times> dialler" where
  "dial_end started now res d =
     (case res of
        Inr Shutdown \<Rightarrow> (False, False, 0, d)
      | Inr VersionRejected \<Rightarrow>
          (True, False, 0, d\<lparr>d_version_fallbacks := d_version_fallbacks d + 1, d_fallback_until := Some (now + VERSION_FALLBACK_TTL)\<rparr>)
      | Inr Transient \<Rightarrow>
          (let backoff = (if secs 5 \<le> saturating_since now started then 500 else d_backoff_ms d)
           in (True, True, backoff, d\<lparr>d_backoff_ms := min (2 * backoff) 8000\<rparr>))
      | Inl _ \<Rightarrow> (True, False, d_backoff_ms d, d\<lparr>d_backoff_ms := min (2 * d_backoff_ms d) 8000\<rparr>))"

section \<open>Handles\<close>

text \<open>\<open>MediaPeer\<close> and \<open>InboundMediaSink\<close> share the fields that queueing a message uses.\<close>

record media_peer =
  mp_peer_id :: node_id
  mp_addr :: string
  mp_queue :: live_media_queue
  mp_closed :: bool

definition peer_new :: "node_id \<Rightarrow> string \<Rightarrow> live_queue_config \<Rightarrow> media_peer" where
  "peer_new peer_id addr cfg = \<lparr>mp_peer_id = peer_id, mp_addr = addr, mp_queue = live_media_queue_new cfg, mp_closed = False\<rparr>"

text \<open>None: the push does not return.\<close>

definition peer_try_send :: "media_message \<Rightarrow> instant \<Rightarrow> media_peer \<Rightarrow> (bool \<times> media_peer) option" where
  "peer_try_send msg now p =
     (if mp_closed p then Some (False, p)
      else map_option (\<lambda>(r, q). (is_queued r, p\<lparr>mp_queue := q\<rparr>)) (push_at msg now (mp_queue p)))"

definition peer_take_reinit :: "string \<Rightarrow> string \<Rightarrow> media_peer \<Rightarrow> bool \<times> media_peer" where
  "peer_take_reinit app stream p = (let (b, q) = take_reinit app stream (mp_queue p) in (b, p\<lparr>mp_queue := q\<rparr>))"

definition peer_mark_reinit :: "string \<Rightarrow> string \<Rightarrow> media_peer \<Rightarrow> media_peer" where
  "peer_mark_reinit app stream p = p\<lparr>mp_queue := mark_reinit app stream (mp_queue p)\<rparr>"

definition peer_close :: "media_peer \<Rightarrow> media_peer" where
  "peer_close p = p\<lparr>mp_closed := True, mp_queue := close (mp_queue p)\<rparr>"

end
