(* ===== verification/Handshake.thy ===== *)
theory Handshake
  imports Media_Peer Security_Props "HOL-Library.Sublist"
begin

text \<open>
  What the handshake of a media connection guarantees: which conversations the accepting side admits, and
  that a dialling and an accepting node that run it against each other agree on the result.
\<close>

section \<open>Which conversations are admitted\<close>

text \<open>What the network and the other tasks answer, in order; None: the session wants something else.\<close>

datatype event = Wrote bool | Received recv | Tracked failure_map instant

fun play :: "event list \<Rightarrow> 'a session \<Rightarrow> 'a option" where
  "play [] (Finished a) = Some a"
| "play (Wrote ok # es) (Write _ k) = play es (k ok)"
| "play (Received r # es) (Read k) = play es (k r)"
| "play (Tracked m now # es) (Track k) = play es (fst (k m now))"
| "play _ _ = None"

lemma play_Finished: "play es (Finished a) = Some b \<longleftrightarrow> es = [] \<and> a = b"
  by (cases es) (auto elim: event.exhaust)

lemma play_Write: "play es (Write m k) = Some b \<longleftrightarrow> (\<exists>ok es'. es = Wrote ok # es' \<and> play es' (k ok) = Some b)"
  by (cases es rule: list.exhaust; cases "hd es") auto

lemma play_Read: "play es (Read k) = Some b \<longleftrightarrow> (\<exists>r es'. es = Received r # es' \<and> play es' (k r) = Some b)"
  by (cases es rule: list.exhaust; cases "hd es") auto

lemma play_Track: "play es (Track k) = Some b \<longleftrightarrow> (\<exists>m t es'. es = Tracked m t # es' \<and> play es' (fst (k m t)) = Some b)"
  by (cases es rule: list.exhaust; cases "hd es") auto

lemma play_write_or_fail:
  "play es (write_or_fail m k) = Some (Inr b) \<longleftrightarrow> (\<exists>es'. es = Wrote True # es' \<and> play es' k = Some (Inr b))"
  by (auto simp: write_or_fail_def play_Write play_Finished split: if_splits)

lemma play_read_or_fail:
  "play es (read_or_fail e k) = Some (Inr b) \<longleftrightarrow> (\<exists>msg es'. es = Received (Got msg) # es' \<and> play es' (k msg) = Some (Inr b))"
proof -
  have "play es' (case r of Got msg \<Rightarrow> k msg | IoError \<Rightarrow> Finished (Inl Io) | TimedOut \<Rightarrow> Finished (Inl e)) = Some (Inr b) \<longleftrightarrow>
      (\<exists>msg. r = Got msg \<and> play es' (k msg) = Some (Inr b))" for r es'
    by (cases r) (simp_all add: play_Finished)
  then show ?thesis by (auto simp: read_or_fail_def play_Read)
qed

lemma play_fail_auth: "play es (fail_auth peer e) \<noteq> Some (Inr b)"
  by (auto simp: fail_auth_def play_Track play_write_or_fail play_Finished)

lemmas play_simps = play_Finished play_Write play_Read play_Track play_write_or_fail play_read_or_fail play_fail_auth

lemma play_then_check:
  "play es (then_check allowed s) = Some (Inr (n, v)) \<longleftrightarrow> allowed n \<and> play es s = Some (Inr (n, v))"
proof (induction s arbitrary: es)
  case (Finished r)
  then show ?case by (auto simp: play_Finished split: sum.splits prod.splits if_splits)
next
  case (Track k)
  have "play es' (then_check allowed (fst (k m t))) = Some (Inr (n, v)) \<longleftrightarrow> allowed n \<and> play es' (fst (k m t)) = Some (Inr (n, v))" for m t es'
    by (rule Track.IH [of "k m" "k m t"]) (auto intro: Basic_BNFs.fsts.intros)
  then show ?case by (auto simp: play_Track)
qed (auto simp: play_simps)

text \<open>
  C26. Exactly the authenticated members are admitted. The accepting side reports node \<open>n\<close> with version \<open>v\<close> if and
  only if the source was not rate limited, the peer answered this very challenge as a holder of the shared
  secret would answer it for node \<open>n\<close>, the certificate (where TLS is on) names \<open>n\<close>, the greeting repeats \<open>n\<close> and
  announces a version this build speaks, and \<open>n\<close> is a member - and it wrote the challenge, the approval and, for
  a newer version, the confirmation, in this order.
\<close>

theorem accept_exactly:
  "play es (accept_tls_then_auth auth_response ch peer secret local_id tls allowed) = Some (Inr (n, v)) \<longleftrightarrow>
     allowed n \<and> is_supported_version v \<and> (tls = None \<or> tls = Some (Some n)) \<and>
     (\<exists>m t m' t'. \<not> fst (cluster_auth_rate_limited m peer t) \<and>
        es = [Tracked m t, Wrote True, Received (Got (Auth n (auth_response secret n ch))), Tracked m' t', Wrote True,
              Received (Got (Hello v n))] @ (if MEDIA_PROTOCOL_MIN_VERSION < v then [Wrote True] else []))"
proof -
  have greeting: "play es (if \<not> is_supported_version w then write_or_fail e (Finished (Inl BadVersion))
        else if k \<noteq> n' then Finished (Inl HelloNodeMismatch)
        else if MEDIA_PROTOCOL_MIN_VERSION < w then write_or_fail e' (Finished (Inr (n', w))) else Finished (Inr (n', w))) =
        Some (Inr (n, v)) \<longleftrightarrow> n' = n \<and> k = n \<and> w = v \<and> is_supported_version v \<and>
          es = (if MEDIA_PROTOCOL_MIN_VERSION < v then [Wrote True] else [])" for es n' k w e e'
    by (simp add: play_write_or_fail play_Finished) auto
  have "play es (case msg of Hello w k \<Rightarrow> f w k | _ \<Rightarrow> Finished (Inl ExpectedHello)) = Some (Inr b) \<longleftrightarrow>
      (\<exists>w k. msg = Hello w k \<and> play es (f w k) = Some (Inr b))"
    for es msg b and f :: "u16 \<Rightarrow> node_id \<Rightarrow> (auth_error + node_id \<times> u16) session"
    by (cases msg) (simp_all add: play_Finished)
  then have hello: "play es (accept_hello local_id n') = Some (Inr (n, v)) \<longleftrightarrow> n' = n \<and> is_supported_version v \<and>
      es = Received (Got (Hello v n)) # (if MEDIA_PROTOCOL_MIN_VERSION < v then [Wrote True] else [])" for es n'
    unfolding accept_hello_def play_read_or_fail by (simp only: greeting) blast
  have ident: "verify_tls_node_identity (tls \<noteq> None) (map_option unat (Option.bind tls id)) (unat n') =
      (if tls = None \<or> tls = Some (Some n') then Inr ()
       else Inl (if Option.bind tls id = None then MissingIdentity else IdentityMismatch))" for n'
    by (cases tls) (auto simp: verify_tls_node_identity_def word_unat_eq_iff split: option.splits)
  have auth: "play es (check_auth auth_response ch peer secret local_id (tls \<noteq> None) (Option.bind tls id) msg) = Some (Inr (n, v)) \<longleftrightarrow>
      msg = Auth n (auth_response secret n ch) \<and> (tls = None \<or> tls = Some (Some n)) \<and> is_supported_version v \<and>
      (\<exists>m t. es = [Tracked m t, Wrote True, Received (Got (Hello v n))] @ (if MEDIA_PROTOCOL_MIN_VERSION < v then [Wrote True] else []))"
    for es msg
  proof (cases msg)
    case (Auth n' r)
    show ?thesis
    proof (cases "r = auth_response secret n' ch \<and> (tls = None \<or> tls = Some (Some n'))")
      case True
      then show ?thesis
        unfolding Auth check_auth_def media_message.case secrets_equal_iff ident by (simp add: play_Track play_write_or_fail hello) auto
    next
      case False
      then show ?thesis
        unfolding Auth check_auth_def media_message.case secrets_equal_iff ident by (auto simp: play_fail_auth play_Finished)
    qed
  qed (simp_all add: check_auth_def play_fail_auth)
  have limit: "play es (fst (let (limited, m') = cluster_auth_rate_limited m peer t
        in (if limited then write_or_fail AuthFail (Finished (Inl AuthRateLimited)) else s, m'))) = Some (Inr b) \<longleftrightarrow>
      \<not> fst (cluster_auth_rate_limited m peer t) \<and> play es s = Some (Inr b)"
    for es m t b and s :: "(auth_error + node_id \<times> u16) session"
    by (cases "cluster_auth_rate_limited m peer t") (simp add: play_write_or_fail play_Finished)
  show ?thesis
    unfolding accept_tls_then_auth_def play_then_check accept_auth_negotiated_def play_Track limit play_write_or_fail play_read_or_fail auth
    by auto
qed

section \<open>Both sides agree\<close>

text \<open>
  The two sides over a connection that loses nothing: each has the messages on their way to it. The tracker
  is shared with other connections, so what it holds when the accepting side looks is arbitrary, within \<open>ok\<close>.
\<close>

type_synonym ('a, 'b) talk = "'a session \<times> 'b session \<times> media_message list \<times> media_message list"

inductive talk_step :: "(failure_map \<Rightarrow> instant \<Rightarrow> bool) \<Rightarrow> ('a, 'b) talk \<Rightarrow> ('a, 'b) talk \<Rightarrow> bool" for ok where
  dial_write: "talk_step ok (Write msg k, s, to_c, to_s) (k True, s, to_c, to_s @ [msg])"
| dial_read: "talk_step ok (Read k, s, msg # to_c, to_s) (k (Got msg), s, to_c, to_s)"
| accept_write: "talk_step ok (c, Write msg k, to_c, to_s) (c, k True, to_c @ [msg], to_s)"
| accept_read: "talk_step ok (c, Read k, to_c, msg # to_s) (c, k (Got msg), to_c, to_s)"
| accept_track: "ok m now \<Longrightarrow> talk_step ok (c, Track k, to_c, to_s) (c, fst (k m now), to_c, to_s)"

inductive_simps talk_step_iff: "talk_step ok (c, s, to_c, to_s) st"

text \<open>Every run from \<open>x\<close> leads to \<open>z\<close>, where it ends: no step is ever a choice.\<close>

inductive leads :: "('s \<Rightarrow> 's \<Rightarrow> bool) \<Rightarrow> 's \<Rightarrow> 's \<Rightarrow> bool" for r where
  stop: "(\<And>y. \<not> r x y) \<Longrightarrow> leads r x x"
| go: "(\<And>y. r x y \<longleftrightarrow> y = y') \<Longrightarrow> leads r y' z \<Longrightarrow> leads r x z"

lemma leads_end: "leads r x z \<Longrightarrow> r\<^sup>*\<^sup>* x z \<and> \<not> r z y"
proof (induction rule: leads.induct)
  case (go x y' z)
  then have "r x y'" by simp
  with go show ?case by (meson converse_rtranclp_into_rtranclp)
qed simp

lemma leads_step: "leads r x z \<Longrightarrow> r x y \<Longrightarrow> leads r y z"
  by (induction rule: leads.induct) simp_all

lemma leads_steps: "r\<^sup>*\<^sup>* x y \<Longrightarrow> leads r x z \<Longrightarrow> leads r y z"
  by (induction rule: rtranclp_induct) (auto dest: leads_step)

text \<open>A side that has to wait for the other.\<close>

fun blocked :: "'a session \<Rightarrow> media_message list \<Rightarrow> bool" where
  "blocked (Finished _) _ = True"
| "blocked (Read _) inbox = (inbox = [])"
| "blocked _ _ = False"

lemma lead_stop: "blocked c to_c \<Longrightarrow> blocked s to_s \<Longrightarrow> leads (talk_step ok) (c, s, to_c, to_s) (c, s, to_c, to_s)"
  by (rule leads.stop, cases c; cases s) (simp_all add: talk_step_iff)

lemma lead_dial_write:
  "blocked s to_s \<Longrightarrow> leads (talk_step ok) (k True, s, to_c, to_s @ [msg]) z \<Longrightarrow> leads (talk_step ok) (Write msg k, s, to_c, to_s) z"
  by (rule leads.go, cases s) (simp_all add: talk_step_iff)

lemma lead_dial_read:
  "blocked s to_s \<Longrightarrow> leads (talk_step ok) (k (Got msg), s, to_c, to_s) z \<Longrightarrow> leads (talk_step ok) (Read k, s, msg # to_c, to_s) z"
  by (rule leads.go, cases s) (simp_all add: talk_step_iff)

lemma lead_accept_write:
  "blocked c to_c \<Longrightarrow> leads (talk_step ok) (c, k True, to_c @ [msg], to_s) z \<Longrightarrow> leads (talk_step ok) (c, Write msg k, to_c, to_s) z"
  by (rule leads.go, cases c) (simp_all add: talk_step_iff)

lemma lead_accept_read:
  "blocked c to_c \<Longrightarrow> leads (talk_step ok) (c, k (Got msg), to_c, to_s) z \<Longrightarrow> leads (talk_step ok) (c, Read k, to_c, msg # to_s) z"
  by (rule leads.go, cases c) (simp_all add: talk_step_iff)

lemma lead_accept_track:
  assumes "blocked c to_c" "ok m0 t0" "\<And>m t. ok m t \<Longrightarrow> fst (k m t) = s'" "leads (talk_step ok) (c, s', to_c, to_s) z"
  shows "leads (talk_step ok) (c, Track k, to_c, to_s) z"
  by (rule leads.go [OF _ assms(4)], cases c) (use assms(1-3) in \<open>auto simp: talk_step_iff\<close>)

lemmas lead_rules = lead_dial_write lead_dial_read lead_accept_write lead_accept_read

definition dial :: "(string \<Rightarrow> node_id \<Rightarrow> bytes \<Rightarrow> string) \<Rightarrow> string \<Rightarrow> node_id \<Rightarrow> u16 \<Rightarrow>
    (string \<Rightarrow> node_id \<Rightarrow> bytes \<Rightarrow> string) \<Rightarrow> bytes \<Rightarrow> ip_addr \<Rightarrow> string \<Rightarrow> node_id \<Rightarrow> node_id option option \<Rightarrow>
    (auth_error + bool, auth_error + node_id \<times> u16) talk" where
  "dial auth secret me version auth' ch peer secret' other tls =
     (dial_handshake auth secret me version, accept_tls_then_auth auth' ch peer secret' other tls (\<lambda>_. True), [], [])"

abbreviation not_limited :: "ip_addr \<Rightarrow> failure_map \<Rightarrow> instant \<Rightarrow> bool" where
  "not_limited peer m now \<equiv> \<not> fst (cluster_auth_rate_limited m peer now)"

lemma some_not_limited: "\<exists>m now. not_limited peer m now"
  by (intro exI [of _ "[]"]) (simp add: cluster_auth_rate_limited_def purge_expired_cluster_auth_failures_def Let_def)

definition agreed ::
    "(string \<Rightarrow> node_id \<Rightarrow> bytes \<Rightarrow> string) \<Rightarrow> string \<Rightarrow> node_id \<Rightarrow> u16 \<Rightarrow> bytes \<Rightarrow> string \<Rightarrow>
     (auth_error + bool, auth_error + node_id \<times> u16) talk" where
  "agreed auth secret me version ch secret' =
     (if auth secret' me ch \<noteq> auth secret me ch then (Finished (Inl MediaAuthFailed), Finished (Inl AuthMismatch), [], [])
      else if is_supported_version version then (Finished (Inr True), Finished (Inr (me, version)), [], [])
      else (Finished (Inr False), Finished (Inl BadVersion), [], []))"

lemma blocked_read [simp]: "blocked (read_or_fail e k) inbox \<longleftrightarrow> inbox = []"
  by (simp add: read_or_fail_def)

lemma check_write [simp]: "then_check a (write_or_fail msg k) = write_or_fail msg (then_check a k)"
  by (simp add: write_or_fail_def if_distrib [of "then_check a"] cong: if_cong)

lemma check_read [simp]: "then_check a (read_or_fail e k) = read_or_fail e (\<lambda>msg. then_check a (k msg))"
  by (simp add: read_or_fail_def recv.case_distrib [of "then_check a"] cong: recv.case_cong)

lemma dial_writes:
  "blocked s to_s \<Longrightarrow> leads (talk_step ok) (k, s, to_c, to_s @ [msg]) z \<Longrightarrow> leads (talk_step ok) (write_or_fail msg k, s, to_c, to_s) z"
  unfolding write_or_fail_def by (rule lead_dial_write) simp_all

lemma dial_reads:
  "blocked s to_s \<Longrightarrow> leads (talk_step ok) (k msg, s, to_c, to_s) z \<Longrightarrow> leads (talk_step ok) (read_or_fail e k, s, msg # to_c, to_s) z"
  unfolding read_or_fail_def by (rule lead_dial_read) simp_all

lemma accept_writes:
  "blocked c to_c \<Longrightarrow> leads (talk_step ok) (c, k, to_c @ [msg], to_s) z \<Longrightarrow> leads (talk_step ok) (c, write_or_fail msg k, to_c, to_s) z"
  unfolding write_or_fail_def by (rule lead_accept_write) simp_all

lemma accept_reads:
  "blocked c to_c \<Longrightarrow> leads (talk_step ok) (c, k msg, to_c, to_s) z \<Longrightarrow> leads (talk_step ok) (c, read_or_fail e k, to_c, msg # to_s) z"
  unfolding read_or_fail_def by (rule lead_accept_read) simp_all

lemma greeting_leads:
  assumes "MEDIA_PROTOCOL_MIN_VERSION \<le> version"
  shows "leads (talk_step ok)
      (write_or_fail (Hello version me) (if MEDIA_PROTOCOL_MIN_VERSION < version
         then read_hello_ack version (\<lambda>ok. Finished (Inr ok)) else Finished (Inr True)),
       then_check (\<lambda>_. True) (accept_hello other me), [], [])
      (if is_supported_version version then (Finished (Inr True), Finished (Inr (me, version)), [], [])
       else (Finished (Inr False), Finished (Inl BadVersion), [], []))"
proof (rule dial_writes)
  let ?c = "if MEDIA_PROTOCOL_MIN_VERSION < version then read_hello_ack version (\<lambda>ok. Finished (Inr ok))
      else Finished (Inr True) :: (auth_error + bool) session"
  have wait: "blocked ?c []" by (simp add: read_hello_ack_def)
  let ?s = "if \<not> is_supported_version version
      then write_or_fail (ErrorMsg VERSION_ERROR_CODE ''unsupported media protocol'' 0) (Finished (Inl BadVersion))
      else if MEDIA_PROTOCOL_MIN_VERSION < version then write_or_fail (Hello version other) (Finished (Inr (me, version)))
      else Finished (Inr (me, version))"
  have "leads (talk_step ok) (?c, ?s, [], [])
      (if is_supported_version version then (Finished (Inr True), Finished (Inr (me, version)), [], [])
       else (Finished (Inr False), Finished (Inl BadVersion), [], []))"
  proof (cases "MEDIA_PROTOCOL_MIN_VERSION < version")
    case True
    have read: "leads (talk_step ok) (read_hello_ack version (\<lambda>ok. Finished (Inr ok)), Finished b, [msg], [])
        (Finished (Inr (case msg of Hello v _ \<Rightarrow> v = version | _ \<Rightarrow> False)), Finished b, [], [])" for b msg
      unfolding read_hello_ack_def by (rule lead_dial_read) (simp_all add: lead_stop)
    show ?thesis
    proof (cases "is_supported_version version")
      case sup: True
      have "leads (talk_step ok) (?c, write_or_fail (Hello version other) (Finished (Inr (me, version))), [], [])
          (Finished (Inr True), Finished (Inr (me, version)), [], [])"
        by (rule accept_writes) (use True wait read [of "Inr (me, version)" "Hello version other"] in simp_all)
      with True sup show ?thesis by simp
    next
      case False
      let ?e = "ErrorMsg VERSION_ERROR_CODE ''unsupported media protocol'' 0"
      have "leads (talk_step ok) (?c, write_or_fail ?e (Finished (Inl BadVersion)), [], [])
          (Finished (Inr False), Finished (Inl BadVersion), [], [])"
        by (rule accept_writes) (use True wait read [of "Inl BadVersion" ?e] in simp_all)
      with False show ?thesis by simp
    qed
  next
    case False
    with assms have "is_supported_version version" by (simp add: is_supported_version_def MEDIA_PROTOCOL_MIN_VERSION_def MEDIA_PROTOCOL_VERSION_def)
    with False show ?thesis by (simp add: lead_stop)
  qed
  moreover have "then_check (\<lambda>_. True) (case Hello version me of Hello w k \<Rightarrow> if \<not> is_supported_version w
        then write_or_fail (ErrorMsg VERSION_ERROR_CODE ''unsupported media protocol'' 0) (Finished (Inl BadVersion))
        else if k \<noteq> me then Finished (Inl HelloNodeMismatch)
        else if MEDIA_PROTOCOL_MIN_VERSION < w then write_or_fail (Hello w other) (Finished (Inr (me, w)))
        else Finished (Inr (me, w)) | _ \<Rightarrow> Finished (Inl ExpectedHello)) = ?s" by simp
  ultimately show "leads (talk_step ok) (?c, then_check (\<lambda>_. True) (accept_hello other me), [], [] @ [Hello version me])
      (if is_supported_version version then (Finished (Inr True), Finished (Inr (me, version)), [], [])
       else (Finished (Inr False), Finished (Inl BadVersion), [], []))"
    unfolding accept_hello_def check_read append_Nil by (intro accept_reads [OF wait]) simp
qed (simp add: accept_hello_def)

lemma auth_leads:
  assumes "MEDIA_PROTOCOL_MIN_VERSION \<le> version" "tls = None \<or> tls = Some (Some me)" "not_limited peer m0 t0"
  defines "tail \<equiv> write_or_fail (Hello version me) (if MEDIA_PROTOCOL_MIN_VERSION < version
       then read_hello_ack version (\<lambda>ok. Finished (Inr ok)) else Finished (Inr True))"
  shows "leads (talk_step (not_limited peer))
    (read_or_fail AuthTimeout (\<lambda>answer. if answer = AuthOk then tail else Finished (Inl MediaAuthFailed)),
     then_check (\<lambda>_. True) (check_auth auth ch peer secret' other (tls \<noteq> None) (Option.bind tls id) (Auth me (auth secret me ch))),
     [], [])
    (agreed auth secret me version ch secret')"
proof (cases "auth secret' me ch = auth secret me ch")
  case True
  have ident: "verify_tls_node_identity (tls \<noteq> None) (map_option unat (Option.bind tls id)) (unat me) = Inr ()"
    using assms(2) by (auto simp: verify_tls_node_identity_def)
  have "then_check (\<lambda>_. True) (check_auth auth ch peer secret' other (tls \<noteq> None) (Option.bind tls id) (Auth me (auth secret me ch))) =
      Track (\<lambda>m now. (write_or_fail AuthOk (then_check (\<lambda>_. True) (accept_hello other me)), clear_cluster_auth_failures m peer))"
    unfolding check_auth_def media_message.case ident by (simp add: secrets_equal_iff True)
  moreover have "leads (talk_step (not_limited peer))
      (read_or_fail AuthTimeout (\<lambda>answer. if answer = AuthOk then tail else Finished (Inl MediaAuthFailed)),
       write_or_fail AuthOk (then_check (\<lambda>_. True) (accept_hello other me)), [], []) (agreed auth secret me version ch secret')"
  proof (rule accept_writes, simp, simp, rule dial_reads)
    show "leads (talk_step (not_limited peer)) (if AuthOk = AuthOk then tail else Finished (Inl MediaAuthFailed),
        then_check (\<lambda>_. True) (accept_hello other me), [], []) (agreed auth secret me version ch secret')"
      using greeting_leads [OF assms(1), of "not_limited peer" me other] True by (simp add: agreed_def tail_def)
  qed (simp add: accept_hello_def)
  ultimately show ?thesis by (auto intro: lead_accept_track [where ok = "not_limited peer", OF _ assms(3)])
next
  case False
  have "then_check (\<lambda>_. True) (check_auth auth ch peer secret' other (tls \<noteq> None) (Option.bind tls id) (Auth me (auth secret me ch))) =
      Track (\<lambda>m now. (write_or_fail AuthFail (Finished (Inl AuthMismatch)), record_cluster_auth_failure m peer now now))"
    using False by (simp add: check_auth_def secrets_equal_iff fail_auth_def)
  moreover have "leads (talk_step (not_limited peer))
      (read_or_fail AuthTimeout (\<lambda>answer. if answer = AuthOk then tail else Finished (Inl MediaAuthFailed)),
       write_or_fail AuthFail (Finished (Inl AuthMismatch)), [], []) (agreed auth secret me version ch secret')"
    by (rule accept_writes, simp, simp, rule dial_reads) (use False in \<open>simp_all add: agreed_def lead_stop\<close>)
  ultimately show ?thesis by (auto intro: lead_accept_track [where ok = "not_limited peer", OF _ assms(3)])
qed

lemma dial_leads:
  assumes "MEDIA_PROTOCOL_MIN_VERSION \<le> version" "tls = None \<or> tls = Some (Some me)"
  shows "leads (talk_step (not_limited peer)) (dial auth secret me version auth ch peer secret' other tls)
    (agreed auth secret me version ch secret')"
proof -
  obtain m0 t0 where free: "not_limited peer m0 t0" using some_not_limited by blast
  let ?server = "read_or_fail AuthTimeout (\<lambda>msg. then_check (\<lambda>_. True) (check_auth auth ch peer secret' other (tls \<noteq> None) (Option.bind tls id) msg))"
  have "leads (talk_step (not_limited peer)) (dial_handshake auth secret me version, write_or_fail (AuthChallenge ch) ?server, [], [])
      (agreed auth secret me version ch secret')"
    unfolding dial_handshake_def client_media_auth_def
    by (rule accept_writes, simp, unfold append_Nil, rule dial_reads, simp, unfold media_message.case, rule dial_writes, simp,
        unfold append_Nil, rule accept_reads, simp, rule auth_leads [OF assms free])
  then show ?thesis
    unfolding dial_def accept_tls_then_auth_def accept_auth_negotiated_def then_check.simps
    by (rule lead_accept_track [where ok = "not_limited peer", OF _ free, rotated 2]) (auto simp: dial_handshake_def client_media_auth_def Let_def split: prod.splits)
qed



end
