(* ===== verification/Config_Text.thy ===== *)
theory Config_Text
  imports Security_Props
begin

text \<open>
  The text formats of the configuration (\<open>src/src/config.rs\<close>): the string functions of the standard library
  it calls, lines of an \<open>.env\<close> file, numbers, booleans, and bind addresses.
\<close>

section \<open>Strings\<close>

text \<open>The characters with the Unicode property White_Space, as their UTF-8 bytes.\<close>

definition whitespace :: "string list" where
  "whitespace =
     map (\<lambda>c. [char_of (c :: nat)]) [9, 10, 11, 12, 13, 32] @
     map (map char_of) [[0xC2, 0x85], [0xC2, 0xA0 :: nat], [0xE1, 0x9A, 0x80]] @
     map (\<lambda>c. map char_of [0xE2, 0x80, c :: nat]) ([0x80 ..< 0x8B] @ [0xA8, 0xA9, 0xAF]) @
     map (map char_of) [[0xE2, 0x81, 0x9F :: nat], [0xE3, 0x80, 0x80]]"

function strip_all :: "string list \<Rightarrow> string \<Rightarrow> string" where
  "strip_all ws s =
     (case List.find (\<lambda>w. w \<noteq> [] \<and> prefix w s) ws of None \<Rightarrow> s | Some w \<Rightarrow> strip_all ws (drop (length w) s))"
  by pat_completeness auto

termination
  by (relation "measure (\<lambda>(_, s). length s)") (auto simp: find_Some_iff prefix_def)

declare strip_all.simps [simp del]

text \<open>\<open>str::trim\<close>.\<close>

definition trim_start :: "string \<Rightarrow> string" where
  "trim_start s = strip_all whitespace s"

definition trim_end :: "string \<Rightarrow> string" where
  "trim_end s = rev (strip_all (map rev whitespace) (rev s))"

definition str_trim :: "string \<Rightarrow> string" where
  "str_trim s = trim_end (trim_start s)"

definition to_ascii_lowercase :: "string \<Rightarrow> string" where
  "to_ascii_lowercase = map (\<lambda>c. if CHR ''A'' \<le> c \<and> c \<le> CHR ''Z'' then char_of (of_char c + 32 :: nat) else c)"

text \<open>\<open>str::split_once\<close> and \<open>str::rsplit_once\<close> on one character.\<close>

definition split_once :: "char \<Rightarrow> string \<Rightarrow> (string \<times> string) option" where
  "split_once c s = (if c \<in> set s then Some (takeWhile (\<lambda>d. d \<noteq> c) s, tl (dropWhile (\<lambda>d. d \<noteq> c) s)) else None)"

definition rsplit_once :: "char \<Rightarrow> string \<Rightarrow> (string \<times> string) option" where
  "rsplit_once c s = map_option (\<lambda>(a, b). (rev b, rev a)) (split_once c (rev s))"

fun split_on :: "char \<Rightarrow> string \<Rightarrow> string list" where
  "split_on c [] = [[]]"
| "split_on c (d # s) = (if d = c then [] # split_on c s else case split_on c s of p # ps \<Rightarrow> (d # p) # ps | [] \<Rightarrow> [[d]])"

definition strip_suffix1 :: "char \<Rightarrow> string \<Rightarrow> string" where
  "strip_suffix1 c s = (if s \<noteq> [] \<and> last s = c then butlast s else s)"

text \<open>\<open>str::lines\<close>: each line ends at a newline, which takes a carriage return before it along.\<close>

definition newline :: char where
  "newline = char_of (10 :: nat)"

definition carriage_return :: char where
  "carriage_return = char_of (13 :: nat)"

function lines :: "string \<Rightarrow> string list" where
  "lines s =
     (if s = [] then []
      else case split_once newline s of
        None \<Rightarrow> [s]
      | Some (line, rest) \<Rightarrow> strip_suffix1 carriage_return line # lines rest)"
  by pat_completeness auto

lemma split_once_Some:
  assumes "split_once c s = Some (a, b)"
  shows "s = a @ c # b" and "c \<notin> set a"
proof -
  have c: "c \<in> set s" and a: "a = takeWhile (\<lambda>d. d \<noteq> c) s" and b: "b = tl (dropWhile (\<lambda>d. d \<noteq> c) s)"
    using assms by (auto simp: split_once_def split: if_splits)
  have ne: "dropWhile (\<lambda>d. d \<noteq> c) s \<noteq> []" using c by simp
  then have "hd (dropWhile (\<lambda>d. d \<noteq> c) s) = c" using hd_dropWhile [OF ne] by simp
  then have "dropWhile (\<lambda>d. d \<noteq> c) s = c # b" using ne b by (metis list.collapse)
  then show "s = a @ c # b" using a takeWhile_dropWhile_id [of "\<lambda>d. d \<noteq> c" s] by simp
  show "c \<notin> set a" using a by (auto dest: set_takeWhileD)
qed

lemma split_once_append: "c \<notin> set a \<Longrightarrow> split_once c (a @ c # b) = Some (a, b)"
  by (induction a) (auto simp: split_once_def)

lemma rsplit_once_append: "c \<notin> set b \<Longrightarrow> rsplit_once c (a @ c # b) = Some (a, b)"
  by (simp add: rsplit_once_def split_once_append)

lemma rsplit_once_Some:
  assumes "rsplit_once c s = Some (a, b)"
  shows "s = a @ c # b \<and> c \<notin> set b"
proof -
  obtain x y where "split_once c (rev s) = Some (x, y)" and xy: "a = rev y" "b = rev x"
    using assms by (auto simp: rsplit_once_def)
  then have "rev s = x @ c # y" and "c \<notin> set x" by (auto dest: split_once_Some)
  then have "s = rev (x @ c # y)" by (metis rev_rev_ident)
  with \<open>c \<notin> set x\<close> xy show ?thesis by simp
qed

lemma split_once_None: "split_once c s = None \<longleftrightarrow> c \<notin> set s"
  by (simp add: split_once_def)

lemma rsplit_once_None: "rsplit_once c s = None \<longleftrightarrow> c \<notin> set s"
  by (simp add: rsplit_once_def split_once_None)

termination lines
  by (relation "measure length") (auto dest: split_once_Some)

declare lines.simps [simp del]

section \<open>Numbers and booleans\<close>

text \<open>\<open>str::parse\<close> at an unsigned type of the given width, and at \<open>i32\<close>.\<close>

definition parse_unsigned :: "nat \<Rightarrow> string \<Rightarrow> nat option" where
  "parse_unsigned bits s =
     (let ds = (case s of c # cs \<Rightarrow> if c = CHR ''+'' then cs else s | [] \<Rightarrow> [])
      in if ds = [] \<or> \<not> list_all is_ascii_digit ds then None
         else if digits_value ds < 2 ^ bits then Some (digits_value ds) else None)"

definition parse_i32 :: "string \<Rightarrow> int option" where
  "parse_i32 s =
     (let neg = (s \<noteq> [] \<and> hd s = CHR ''-'');
          ds = (if s \<noteq> [] \<and> (hd s = CHR ''+'' \<or> hd s = CHR ''-'') then tl s else s);
          v = (if neg then - int (digits_value ds) else int (digits_value ds))
      in if ds = [] \<or> \<not> list_all is_ascii_digit ds then None
         else if - (2 ^ 31) \<le> v \<and> v < 2 ^ 31 then Some v else None)"

definition clamp :: "'a::linorder \<Rightarrow> 'a \<Rightarrow> 'a \<Rightarrow> 'a" where
  "clamp v lo hi = (if v < lo then lo else if hi < v then hi else v)"

definition i32_max :: int where
  "i32_max = 2 ^ 31 - 1"

definition parse_mb :: "string \<Rightarrow> nat \<Rightarrow> nat \<Rightarrow> nat \<Rightarrow> nat" where
  "parse_mb val dflt lo hi = (case parse_unsigned 32 val of Some v \<Rightarrow> clamp v lo hi | None \<Rightarrow> dflt)"

definition parse_idle_timeout_secs :: "string \<Rightarrow> nat" where
  "parse_idle_timeout_secs val = (case parse_unsigned 64 val of Some v \<Rightarrow> clamp v 5 600 | None \<Rightarrow> 30)"

definition parse_max_connections :: "string \<Rightarrow> int" where
  "parse_max_connections val = (case parse_i32 val of Some v \<Rightarrow> clamp v 1 10000 | None \<Rightarrow> 100)"

definition bool_words :: "string \<Rightarrow> bool option" where
  "bool_words s =
     (if s \<in> set [''1'', ''true'', ''yes'', ''on''] then Some True
      else if s \<in> set [''0'', ''false'', ''no'', ''off''] then Some False
      else None)"

definition parse_bool :: "string \<Rightarrow> bool option" where
  "parse_bool val = bool_words (to_ascii_lowercase (str_trim val))"

definition parse_per_addr_cap :: "string \<Rightarrow> int option" where
  "parse_per_addr_cap val =
     (case parse_i32 val of Some v \<Rightarrow> if 0 < v then Some v else Some i32_max | None \<Rightarrow> None)"

text \<open>\<open>parse_ip\<close> stands for \<open>str::parse::<IpAddr>\<close>.\<close>

definition parse_ip_list :: "(string \<Rightarrow> ip_addr option) \<Rightarrow> string \<Rightarrow> ip_addr list" where
  "parse_ip_list parse_ip val =
     List.map_filter parse_ip (filter (\<lambda>part. part \<noteq> []) (map str_trim (split_on (CHR '','') val)))"

definition parse_rate_limit_window_secs :: "string \<Rightarrow> nat" where
  "parse_rate_limit_window_secs val = (case parse_unsigned 64 val of Some v \<Rightarrow> clamp v 1 3600 | None \<Rightarrow> 60)"

definition parse_rate_limit_count :: "string \<Rightarrow> nat \<Rightarrow> nat option" where
  "parse_rate_limit_count val mx = map_option (\<lambda>v. min v mx) (parse_unsigned 64 val)"

definition parse_max_body_bytes :: "string \<Rightarrow> nat" where
  "parse_max_body_bytes val =
     (case parse_unsigned 64 val of Some v \<Rightarrow> clamp v 1024 (16 * 1024 * 1024) | None \<Rightarrow> 64 * 1024)"

section \<open>Lines of the file\<close>

definition quoted_by :: "char \<Rightarrow> string \<Rightarrow> bool" where
  "quoted_by q val \<longleftrightarrow> hd val = q \<and> last val = q"

definition parse_env_line :: "string \<Rightarrow> (string \<times> string) option" where
  "parse_env_line line0 =
     (let line = str_trim line0
      in if line = [] \<or> hd line = CHR ''#'' then None
         else case split_once (CHR ''='') line of
           None \<Rightarrow> None
         | Some (key, val0) \<Rightarrow>
             (let val = str_trim val0;
                  is_quoted = (2 \<le> length val \<and> (quoted_by (CHR 0x22) val \<or> quoted_by (CHR 0x27) val))
              in Some (str_trim key, if is_quoted then butlast (tl val) else val)))"

section \<open>Bind addresses\<close>

definition bind_host_of :: "string \<Rightarrow> string" where
  "bind_host_of bind0 =
     (let bind = str_trim bind0
      in case rsplit_once (CHR '']'') bind of
           Some (before, _) \<Rightarrow> before @ '']''
         | None \<Rightarrow>
             (let colons = length (filter (\<lambda>c. c = CHR '':'') bind)
              in if colons = 0 then bind
                 else if colons = 1 then
                   (case rsplit_once (CHR '':'') bind of Some (host, _) \<Rightarrow> host | None \<Rightarrow> bind)
                 else ''['' @ bind @ '']''))"

definition set_bind_port :: "string \<Rightarrow> u16 \<Rightarrow> string" where
  "set_bind_port bind new_port = bind_host_of bind @ '':'' @ dec (unat new_port)"

definition parse_port :: "string \<Rightarrow> u16 option" where
  "parse_port s = map_option of_nat (parse_unsigned 16 s)"

definition port_of :: "string \<Rightarrow> u16 \<Rightarrow> u16" where
  "port_of bind0 dflt =
     (let bind = str_trim bind0
      in case rsplit_once (CHR '']'') bind of
           Some (_, rest) \<Rightarrow>
             (case rest of
                c # port \<Rightarrow> if c = CHR '':'' then (case parse_port port of Some p \<Rightarrow> p | None \<Rightarrow> dflt) else dflt
              | [] \<Rightarrow> dflt)
         | None \<Rightarrow>
             if length (filter (\<lambda>c. c = CHR '':'') bind) \<noteq> 1 then dflt
             else case rsplit_once (CHR '':'') bind of
               Some (_, port) \<Rightarrow> (case parse_port port of Some p \<Rightarrow> p | None \<Rightarrow> dflt)
             | None \<Rightarrow> dflt)"

definition mb_to_bytes :: "nat \<Rightarrow> nat" where
  "mb_to_bytes mb = usize_saturating_mul mb (1024 * 1024)"

section \<open>Trimmed strings\<close>

definition trimmed :: "string \<Rightarrow> bool" where
  "trimmed s \<longleftrightarrow> (\<forall>w \<in> set whitespace. \<not> prefix w s \<and> \<not> suffix w s)"

lemma whitespace_nonempty [simp]: "[] \<notin> set whitespace"
  by (auto simp: whitespace_def)

lemma strip_all_suffix: "suffix (strip_all ws s) s"
proof (induction ws s rule: strip_all.induct)
  case (1 ws s)
  show ?case
  proof (cases "List.find (\<lambda>w. w \<noteq> [] \<and> prefix w s) ws")
    case (Some w)
    then have "suffix (strip_all ws (drop (length w) s)) (drop (length w) s)" by (rule 1)
    with Some show ?thesis
      by (subst strip_all.simps) (auto intro: suffix_order.trans suffix_drop)
  qed (subst strip_all.simps, simp)
qed

lemma strip_all_clean: "w \<in> set ws \<Longrightarrow> w \<noteq> [] \<Longrightarrow> \<not> prefix w (strip_all ws s)"
proof (induction ws s rule: strip_all.induct)
  case (1 ws s)
  show ?case
  proof (cases "List.find (\<lambda>w. w \<noteq> [] \<and> prefix w s) ws")
    case None
    then have "strip_all ws s = s" by (subst strip_all.simps) simp
    moreover have "\<forall>x. x \<in> set ws \<longrightarrow> x = [] \<or> \<not> prefix x s" using None by (auto simp: find_None_iff)
    ultimately show ?thesis using 1(2,3) by auto
  next
    case (Some v)
    with 1 show ?thesis by (subst strip_all.simps) simp
  qed
qed

lemma strip_all_id: "\<forall>w \<in> set ws. w \<noteq> [] \<longrightarrow> \<not> prefix w s \<Longrightarrow> strip_all ws s = s"
  by (subst strip_all.simps) (auto simp: find_None_iff split: option.splits dest!: find_Some_iff [THEN iffD1] nth_mem)

lemma trimmed_str_trim: "trimmed (str_trim s)"
proof -
  let ?t = "trim_start s"
  have "suffix (strip_all (map rev whitespace) (rev ?t)) (rev ?t)" by (rule strip_all_suffix)
  then have pre: "prefix (str_trim s) ?t" by (simp add: str_trim_def trim_end_def suffix_to_prefix)
  {
    fix w
    assume w: "w \<in> set whitespace"
    then have ne: "w \<noteq> []" using whitespace_nonempty by metis
    have "\<not> prefix w ?t" unfolding trim_start_def using w ne by (rule strip_all_clean)
    then have "\<not> prefix w (str_trim s)" using pre by (metis prefix_order.trans)
    moreover have "\<not> prefix (rev w) (strip_all (map rev whitespace) (rev ?t))"
      using w ne by (intro strip_all_clean) auto
    then have "\<not> suffix w (str_trim s)" by (simp add: str_trim_def trim_end_def suffix_to_prefix)
    ultimately have "\<not> prefix w (str_trim s) \<and> \<not> suffix w (str_trim s)" by blast
  }
  then show ?thesis by (simp add: trimmed_def)
qed

lemma str_trim_id:
  assumes "trimmed s"
  shows "str_trim s = s"
proof -
  have "trim_start s = s"
    using assms unfolding trim_start_def trimmed_def by (intro strip_all_id) auto
  moreover have "strip_all (map rev whitespace) (rev s) = rev s"
    using assms unfolding trimmed_def by (intro strip_all_id) (auto simp: suffix_to_prefix)
  ultimately show ?thesis by (simp add: str_trim_def trim_end_def)
qed

text \<open>No whitespace contains a character that a bind address is split at, or ends in a visible one.\<close>

definition visible :: "char \<Rightarrow> bool" where
  "visible c \<longleftrightarrow> 33 \<le> (of_char c :: nat) \<and> (of_char c :: nat) \<le> 126"

lemma whitespace_invisible: "w \<in> set whitespace \<Longrightarrow> c \<in> set w \<Longrightarrow> \<not> visible c"
  by (auto simp: whitespace_def visible_def)

lemma trimmed_visible: "s \<noteq> [] \<Longrightarrow> visible (hd s) \<Longrightarrow> visible (last s) \<Longrightarrow> trimmed s"
  unfolding trimmed_def
proof (intro ballI conjI notI)
  fix w
  assume s: "s \<noteq> []" "visible (hd s)" "visible (last s)" and w: "w \<in> set whitespace"
  have ne: "w \<noteq> []" using w whitespace_nonempty by metis
  {
    assume "prefix w s"
    then have "hd s = hd w" using ne by (auto simp: prefix_def)
    then show False using s w whitespace_invisible hd_in_set [OF ne] by metis
  }
  {
    assume "suffix w s"
    then have "last s = last w" using ne by (auto simp: suffix_def)
    then show False using s w whitespace_invisible last_in_set [OF ne] by metis
  }
qed

lemma trimmed_append:
  assumes "trimmed (a @ b)" and "visible c" and "visible d"
  shows "trimmed (a @ c # xs @ [d])"
proof -
  {
    fix w
    assume w: "w \<in> set whitespace"
    then have c: "c \<notin> set w" and d: "d \<notin> set w" using whitespace_invisible assms by blast+
    have "\<not> prefix w (a @ c # xs @ [d])"
    proof
      assume "prefix w (a @ c # xs @ [d])"
      then have "prefix w a" using c by (auto simp: prefix_append prefix_Cons)
      with w assms(1) show False by (auto simp: trimmed_def prefix_def)
    qed
    moreover have "\<not> suffix w (a @ c # xs @ [d])"
    proof
      assume "suffix w (a @ c # xs @ [d])"
      then obtain zs where e: "a @ c # xs @ [d] = zs @ w" by (auto simp: suffix_def)
      have "w \<noteq> []" using w whitespace_nonempty by metis
      then have "last w = d" using arg_cong [OF e, of last] by simp
      with \<open>w \<noteq> []\<close> d show False by (metis last_in_set)
    qed
    ultimately have "\<not> prefix w (a @ c # xs @ [d]) \<and> \<not> suffix w (a @ c # xs @ [d])" by simp
  }
  then show ?thesis by (simp add: trimmed_def)
qed

section \<open>Properties\<close>

lemma visible_digit: "is_ascii_digit c \<Longrightarrow> visible c \<and> c \<noteq> CHR '':'' \<and> c \<noteq> CHR '']''"
  by (auto simp: is_ascii_digit_def visible_def less_eq_char_def)

lemma dec_chars: "c \<in> set (dec n) \<Longrightarrow> is_ascii_digit c"
  using list_all_dec [of n] by (auto simp: list_all_iff)

lemma parse_unsigned_dec: "n < 2 ^ bits \<Longrightarrow> parse_unsigned bits (dec n) = Some n"
proof -
  assume n: "n < 2 ^ bits"
  have "hd (dec n) \<noteq> CHR ''+''"
    using dec_chars [of "hd (dec n)" n] dec_nonempty [of n] by (auto simp: is_ascii_digit_def less_eq_char_def)
  then have "(case dec n of c # cs \<Rightarrow> if c = CHR ''+'' then cs else dec n | [] \<Rightarrow> []) = dec n"
    by (cases "dec n") auto
  with n show ?thesis by (simp add: parse_unsigned_def list_all_dec digits_value_dec dec_nonempty)
qed

lemma parse_port_dec: "parse_port (dec (unat p)) = Some p"
  using parse_unsigned_dec [of "unat p" 16] unat_less_width(2) [of p] by (simp add: parse_port_def)

text \<open>The host of a bind address ends in a bracket, or has neither a colon nor a bracket.\<close>

lemma trimmed_Nil [simp]: "trimmed []"
  using whitespace_nonempty by (auto simp: trimmed_def)

lemma bind_host_cases:
  obtains (bracket) a r where "bind_host_of b = a @ '']''" "trimmed (bind_host_of b @ r)"
  | (plain) r where "CHR '':'' \<notin> set (bind_host_of b)" "CHR '']'' \<notin> set (bind_host_of b)" "trimmed (bind_host_of b @ r)"
proof -
  let ?s = "str_trim b"
  have t: "trimmed ?s" by (rule trimmed_str_trim)
  show thesis
  proof (cases "rsplit_once (CHR '']'') ?s")
    case (Some p)
    then obtain x y where "rsplit_once (CHR '']'') ?s = Some (x, y)" by (cases p) auto
    with t show ?thesis
      by (intro bracket [of x y]) (auto simp: bind_host_of_def Let_def dest!: rsplit_once_Some)
  next
    case None
    then have nb: "CHR '']'' \<notin> set ?s" by (simp add: rsplit_once_None)
    consider "length (filter (\<lambda>c. c = CHR '':'') ?s) = 0" | "length (filter (\<lambda>c. c = CHR '':'') ?s) = 1"
      | "1 < length (filter (\<lambda>c. c = CHR '':'') ?s)" by linarith
    then show ?thesis
    proof cases
      case 1
      then have "bind_host_of b = ?s" using None by (simp add: bind_host_of_def Let_def)
      with 1 nb t show ?thesis by (intro plain [of "[]"]) (auto simp: filter_empty_conv)
    next
      case 2
      then have "filter (\<lambda>c. c = CHR '':'') ?s \<noteq> []" by auto
      then have "CHR '':'' \<in> set ?s" by (auto simp: filter_empty_conv)
      then obtain x y where xy: "rsplit_once (CHR '':'') ?s = Some (x, y)"
        using rsplit_once_None by (metis not_None_eq prod.exhaust)
      then have s: "?s = x @ CHR '':'' # y" using rsplit_once_Some by blast
      have "bind_host_of b = x" using 2 None xy by (simp add: bind_host_of_def Let_def)
      moreover have "CHR '':'' \<notin> set x" using 2 unfolding s by (auto simp: filter_empty_conv)
      ultimately show ?thesis using nb t unfolding s by (intro plain [of "CHR '':'' # y"]) auto
    next
      case 3
      moreover from 3 have "filter (\<lambda>c. c = CHR '':'') ?s \<noteq> []" by auto
      ultimately have "bind_host_of b = ''['' @ ?s @ '']''" using None by (simp add: bind_host_of_def Let_def)
      moreover have "trimmed ([] @ CHR ''['' # ?s @ [CHR '']''])"
        by (rule trimmed_append [of _ "[]"]) (simp_all add: visible_def)
      ultimately show ?thesis by (intro bracket [of "''['' @ ?s" "[]"]) auto
    qed
  qed
qed

lemma trimmed_host_port:
  assumes "trimmed (host @ r)"
  shows "trimmed (host @ CHR '':'' # dec n)"
proof -
  have "dec n = butlast (dec n) @ [last (dec n)]" using dec_nonempty by simp
  moreover have "visible (last (dec n))" using visible_digit [OF dec_chars] dec_nonempty last_in_set by blast
  then have "trimmed (host @ CHR '':'' # butlast (dec n) @ [last (dec n)])"
    using assms by (intro trimmed_append) (simp_all add: visible_def)
  ultimately show ?thesis by simp
qed

text \<open>
  C38. Changing the port of a bind address changes the port and nothing else: whatever string is configured -
  a name, an IPv4 address, an IPv6 address with or without brackets, with or without a port, or none of these -
  the address written by \<open>set_bind_port\<close> resolves to the new port, and its host is the host of the old one.
\<close>

theorem bind_port_roundtrip:
  "port_of (set_bind_port b p) dflt = p \<and> bind_host_of (set_bind_port b p) = bind_host_of b"
proof -
  have digits: "CHR '':'' \<notin> set (dec (unat p))" "CHR '']'' \<notin> set (dec (unat p))"
    using visible_digit [OF dec_chars] by blast+
  show ?thesis
  proof (cases b rule: bind_host_cases)
    case (bracket a r)
    then have "str_trim (set_bind_port b p) = a @ CHR '']'' # CHR '':'' # dec (unat p)"
      using str_trim_id [OF trimmed_host_port [OF bracket(2)]] by (simp add: set_bind_port_def)
    moreover have "rsplit_once (CHR '']'') (a @ CHR '']'' # CHR '':'' # dec (unat p)) = Some (a, CHR '':'' # dec (unat p))"
      using digits by (intro rsplit_once_append) auto
    ultimately show ?thesis using bracket(1) by (simp add: port_of_def bind_host_of_def [of "set_bind_port b p"] parse_port_dec)
  next
    case (plain r)
    define h where "h = bind_host_of b"
    have "str_trim (set_bind_port b p) = h @ CHR '':'' # dec (unat p)"
      using str_trim_id [OF trimmed_host_port [OF plain(3)]] by (simp add: set_bind_port_def h_def)
    moreover have "rsplit_once (CHR '':'') (h @ CHR '':'' # dec (unat p)) = Some (h, dec (unat p))"
      using digits by (intro rsplit_once_append)
    moreover have "rsplit_once (CHR '']'') (h @ CHR '':'' # dec (unat p)) = None"
      using digits plain(2) by (simp add: rsplit_once_None h_def)
    moreover have "filter (\<lambda>c. c = CHR '':'') h = []" "filter (\<lambda>c. c = CHR '':'') (dec (unat p)) = []"
      using plain(1) digits by (auto simp: filter_empty_conv h_def)
    ultimately show ?thesis
      by (simp add: port_of_def bind_host_of_def [of "set_bind_port b p"] parse_port_dec flip: h_def)
  qed
qed

end
