(* ===== verification/Config.thy ===== *)
theory Config
  imports Config_Text
begin

text \<open>
  The configuration of the server (\<open>src/src/config.rs\<close>) and of the cluster (\<open>src/src/cluster/config.rs\<close>): defaults,
  the keys of the file, the overrides from the environment, and validation.

  \<open>str::parse\<close> at \<open>IpAddr\<close>, \<open>SocketAddr\<close> and \<open>f64\<close>, the file system and the environment are arguments, as is the
  rounding of a quotient to a double. An integer field is a number whose range the type of the field bounds; no
  arithmetic is done on it. A warning leaves no trace.
\<close>

section \<open>Floating point numbers\<close>

datatype double = Finite real | PosInf | NegInf | NotANumber

fun is_finite :: "double \<Rightarrow> bool" where
  "is_finite (Finite _) = True"
| "is_finite _ = False"

fun double_le :: "double \<Rightarrow> double \<Rightarrow> bool" where
  "double_le (Finite x) (Finite y) = (x \<le> y)"
| "double_le NotANumber _ = False"
| "double_le _ NotANumber = False"
| "double_le NegInf _ = True"
| "double_le _ PosInf = True"
| "double_le _ _ = False"

text \<open>Division by a divisor that is not zero; zeros carry no sign here.\<close>

definition of_sign :: "real \<Rightarrow> double" where
  "of_sign x = (if 0 < x then PosInf else NegInf)"

fun double_div :: "(real \<Rightarrow> double) \<Rightarrow> double \<Rightarrow> double \<Rightarrow> double" where
  "double_div rnd (Finite x) (Finite y) = rnd (x / y)"
| "double_div rnd (Finite x) PosInf = Finite 0"
| "double_div rnd (Finite x) NegInf = Finite 0"
| "double_div rnd PosInf (Finite y) = of_sign y"
| "double_div rnd NegInf (Finite y) = of_sign (- y)"
| "double_div rnd _ _ = NotANumber"

fun clamp_unit :: "double \<Rightarrow> double" where
  "clamp_unit (Finite x) = Finite (if x < 0 then 0 else if 1 < x then 1 else x)"
| "clamp_unit PosInf = Finite 1"
| "clamp_unit NegInf = Finite 0"
| "clamp_unit NotANumber = NotANumber"

definition in_unit :: "double \<Rightarrow> bool" where
  "in_unit d \<longleftrightarrow> double_le (Finite 0) d \<and> double_le d (Finite 1)"

section \<open>Cluster settings\<close>

datatype bandwidth_mode = Tx | Rx | Max | Sum

definition bandwidth_mode_parse :: "string \<Rightarrow> bandwidth_mode option" where
  "bandwidth_mode_parse val =
     (let v = to_ascii_lowercase (str_trim val)
      in if v = ''tx'' then Some Tx else if v = ''rx'' then Some Rx else if v = ''max'' then Some Max
         else if v = ''sum'' then Some Sum else None)"

record cluster_config =
  cl_enabled :: bool
  cl_node_id :: nat
  cl_bind :: string
  cl_media_bind :: string
  cl_bootstrap :: bool
  cl_join :: "string option"
  cl_join_proof :: string
  cl_secret :: string
  cl_tls_enabled :: bool
  cl_tls_cert_file :: string
  cl_tls_key_file :: string
  cl_tls_ca_file :: string
  cl_heartbeat :: duration
  cl_capacity :: double
  cl_drain_threshold :: double
  cl_resume_threshold :: double
  cl_bandwidth_interface :: string
  cl_bandwidth_mode :: bandwidth_mode
  cl_bandwidth_max_mbps :: double
  cl_drain_at_mbps :: "double option"
  cl_resume_at_mbps :: "double option"
  cl_media_replicas :: nat
  cl_media_queue_mb :: nat
  cl_media_max_age_ms :: nat
  cl_advertise_addr :: "string option"
  cl_media_advertise_addr :: "string option"
  cl_allow_loopback_peer_addrs :: bool

definition cluster_config_default :: cluster_config where
  "cluster_config_default =
     \<lparr>cl_enabled = False, cl_node_id = 0, cl_bind = ''0.0.0.0:1940'', cl_media_bind = ''0.0.0.0:1941'', cl_bootstrap = False,
      cl_join = None, cl_join_proof = [], cl_secret = [], cl_tls_enabled = False, cl_tls_cert_file = [], cl_tls_key_file = [],
      cl_tls_ca_file = [], cl_heartbeat = millis 500, cl_capacity = Finite 1, cl_drain_threshold = Finite 0.85,
      cl_resume_threshold = Finite 0.70, cl_bandwidth_interface = [], cl_bandwidth_mode = Tx,
      cl_bandwidth_max_mbps = Finite 0, cl_drain_at_mbps = None, cl_resume_at_mbps = None, cl_media_replicas = 0,
      cl_media_queue_mb = 64, cl_media_max_age_ms = 0, cl_advertise_addr = None, cl_media_advertise_addr = None,
      cl_allow_loopback_peer_addrs = False\<rparr>"

definition is_valid_cluster_secret :: "string \<Rightarrow> bool" where
  "is_valid_cluster_secret secret \<longleftrightarrow>
     32 \<le> length secret \<and> length secret \<le> 256 \<and>
     list_all (\<lambda>c. is_ascii_digit c \<or> (CHR ''a'' \<le> c \<and> c \<le> CHR ''z'') \<or> (CHR ''A'' \<le> c \<and> c \<le> CHR ''Z'') \<or>
       c = CHR ''-'' \<or> c = CHR ''_'') secret"

datatype config_error =
    BadBoolean string
  | NodeIdMissing
  | BadSecret
  | BadBind string
  | PortZero string
  | BadAddress string
  | PeerAddress string peer_addr_error
  | BootstrapAndJoin
  | NeitherBootstrapNorJoin
  | TlsFilesMissing
  | NotAFile string
  | BadDrainThreshold
  | BadResumeThreshold
  | ThresholdOrder
  | BadCapacity
  | BadBandwidth
  | BadQueueMb
  | BadMaxAge
  | CannotOpen string

definition parse_bool_strict :: "string \<Rightarrow> string \<Rightarrow> config_error + bool" where
  "parse_bool_strict val key =
     (case bool_words (to_ascii_lowercase (str_trim val)) of Some b \<Rightarrow> Inr b | None \<Rightarrow> Inl (BadBoolean key))"

text \<open>A parsed value is stored, another one ignored.\<close>

definition set_parsed :: "'v option \<Rightarrow> ('v \<Rightarrow> 'c \<Rightarrow> 'c) \<Rightarrow> 'c \<Rightarrow> 'c" where
  "set_parsed v f cfg = (case v of Some x \<Rightarrow> f x cfg | None \<Rightarrow> cfg)"

definition set_bool :: "config_error + bool \<Rightarrow> (bool \<Rightarrow> 'c \<Rightarrow> 'c) \<Rightarrow> 'c \<Rightarrow> config_error + 'c" where
  "set_bool r f cfg = (case r of Inl e \<Rightarrow> Inl e | Inr b \<Rightarrow> Inr (f b cfg))"

definition apply_cluster_kv ::
    "(string \<Rightarrow> double option) \<Rightarrow> string \<Rightarrow> string \<Rightarrow> cluster_config \<Rightarrow> config_error + cluster_config" where
  "apply_cluster_kv parse_f64 key val cfg =
     (if key = ''CLUSTER_ENABLED'' then set_bool (parse_bool_strict val key) (\<lambda>b c. c\<lparr>cl_enabled := b\<rparr>) cfg
      else if key = ''CLUSTER_NODE_ID'' then Inr (set_parsed (parse_unsigned 64 val) (\<lambda>v c. c\<lparr>cl_node_id := v\<rparr>) cfg)
      else if key = ''CLUSTER_BIND'' then Inr (cfg\<lparr>cl_bind := val\<rparr>)
      else if key = ''CLUSTER_MEDIA_BIND'' then Inr (cfg\<lparr>cl_media_bind := val\<rparr>)
      else if key = ''CLUSTER_BOOTSTRAP'' then set_bool (parse_bool_strict val key) (\<lambda>b c. c\<lparr>cl_bootstrap := b\<rparr>) cfg
      else if key = ''CLUSTER_JOIN'' then Inr (cfg\<lparr>cl_join := (if val = [] then None else Some val)\<rparr>)
      else if key = ''CLUSTER_JOIN_PROOF'' then Inr (cfg\<lparr>cl_join_proof := val\<rparr>)
      else if key = ''CLUSTER_SECRET'' then Inr (cfg\<lparr>cl_secret := val\<rparr>)
      else if key = ''CLUSTER_TLS_ENABLED'' then set_bool (parse_bool_strict val key) (\<lambda>b c. c\<lparr>cl_tls_enabled := b\<rparr>) cfg
      else if key = ''CLUSTER_TLS_CERT_FILE'' then Inr (cfg\<lparr>cl_tls_cert_file := val\<rparr>)
      else if key = ''CLUSTER_TLS_KEY_FILE'' then Inr (cfg\<lparr>cl_tls_key_file := val\<rparr>)
      else if key = ''CLUSTER_TLS_CA_FILE'' then Inr (cfg\<lparr>cl_tls_ca_file := val\<rparr>)
      else if key = ''CLUSTER_HEARTBEAT_MS'' \<or> key = ''CLUSTER_HEARTBEAT_INTERVAL_MS'' then
        Inr (set_parsed (parse_unsigned 64 val) (\<lambda>ms c. c\<lparr>cl_heartbeat := millis (clamp ms 50 10000)\<rparr>) cfg)
      else if key = ''CLUSTER_NODE_TIMEOUT_MS'' then Inr cfg
      else if key = ''CLUSTER_NODE_NAME'' then Inr cfg
      else if key = ''CLUSTER_CAPACITY'' then Inr (set_parsed (parse_f64 val) (\<lambda>v c. c\<lparr>cl_capacity := v\<rparr>) cfg)
      else if key = ''CLUSTER_CAPACITY_MBPS'' then
        Inr (set_parsed (parse_f64 val) (\<lambda>v c. c\<lparr>cl_bandwidth_max_mbps := v\<rparr>) cfg)
      else if key = ''CLUSTER_DRAIN_THRESHOLD'' then
        Inr (set_parsed (parse_f64 val) (\<lambda>v c. c\<lparr>cl_drain_threshold := v\<rparr>) cfg)
      else if key = ''CLUSTER_DRAIN_AT_MBPS'' then Inr cfg
      else if key = ''CLUSTER_RESUME_THRESHOLD'' then
        Inr (set_parsed (parse_f64 val) (\<lambda>v c. c\<lparr>cl_resume_threshold := v\<rparr>) cfg)
      else if key = ''CLUSTER_RESUME_AT_MBPS'' then Inr cfg
      else if key = ''CLUSTER_BANDWIDTH_MODE'' then
        Inr (set_parsed (bandwidth_mode_parse val) (\<lambda>m c. c\<lparr>cl_bandwidth_mode := m\<rparr>) cfg)
      else if key = ''CLUSTER_BANDWIDTH_INTERFACE'' then Inr (cfg\<lparr>cl_bandwidth_interface := val\<rparr>)
      else if key = ''CLUSTER_BANDWIDTH_MAX_MBPS'' then
        Inr (set_parsed (parse_f64 val) (\<lambda>v c. c\<lparr>cl_bandwidth_max_mbps := v\<rparr>) cfg)
      else if key = ''CLUSTER_MEDIA_REPLICAS'' then
        Inr (set_parsed (parse_unsigned 32 val) (\<lambda>v c. c\<lparr>cl_media_replicas := min v 8\<rparr>) cfg)
      else if key = ''CLUSTER_MEDIA_QUEUE_MB'' then
        Inr (set_parsed (parse_unsigned 32 val) (\<lambda>v c. c\<lparr>cl_media_queue_mb := v\<rparr>) cfg)
      else if key = ''CLUSTER_MEDIA_MAX_AGE_MS'' then
        Inr (set_parsed (parse_unsigned 32 val) (\<lambda>v c. c\<lparr>cl_media_max_age_ms := v\<rparr>) cfg)
      else if key = ''CLUSTER_ADVERTISE_ADDR'' then Inr (cfg\<lparr>cl_advertise_addr := Some val\<rparr>)
      else if key = ''CLUSTER_MEDIA_ADVERTISE_ADDR'' then Inr (cfg\<lparr>cl_media_advertise_addr := Some val\<rparr>)
      else if key = ''CLUSTER_ALLOW_LOOPBACK_PEER_ADDRS'' then
        set_bool (parse_bool_strict val key) (\<lambda>b c. c\<lparr>cl_allow_loopback_peer_addrs := b\<rparr>) cfg
      else Inr cfg)"

text \<open>The ratio that is set, and whether an absolute target survives: the two halves of \<open>apply_bandwidth_kv\<close>.\<close>

definition apply_ratio_threshold ::
    "(string \<Rightarrow> double option) \<Rightarrow> string \<Rightarrow> bool \<Rightarrow> cluster_config \<times> double option \<Rightarrow> cluster_config \<times> double option" where
  "apply_ratio_threshold parse_f64 val is_drain s =
     (case parse_f64 val of
        Some v \<Rightarrow> (if is_drain then (fst s)\<lparr>cl_drain_threshold := v\<rparr> else (fst s)\<lparr>cl_resume_threshold := v\<rparr>, None)
      | None \<Rightarrow> s)"

type_synonym loading = "cluster_config \<times> double option \<times> double option"

definition apply_bandwidth_kv :: "(string \<Rightarrow> double option) \<Rightarrow> string \<Rightarrow> string \<Rightarrow> loading \<Rightarrow> bool \<times> loading" where
  "apply_bandwidth_kv parse_f64 key val s =
     (case s of (cfg, abs_drain, abs_resume) \<Rightarrow>
        if key = ''CLUSTER_DRAIN_AT_MBPS'' then
          (True, cfg, (case parse_f64 val of Some mbps \<Rightarrow> Some mbps | None \<Rightarrow> abs_drain), abs_resume)
        else if key = ''CLUSTER_RESUME_AT_MBPS'' then
          (True, cfg, abs_drain, (case parse_f64 val of Some mbps \<Rightarrow> Some mbps | None \<Rightarrow> abs_resume))
        else if key = ''CLUSTER_DRAIN_THRESHOLD'' then
          (let (cfg', d) = apply_ratio_threshold parse_f64 val True (cfg, abs_drain) in (True, cfg', d, abs_resume))
        else if key = ''CLUSTER_RESUME_THRESHOLD'' then
          (let (cfg', r) = apply_ratio_threshold parse_f64 val False (cfg, abs_resume) in (True, cfg', abs_drain, r))
        else (False, s))"

definition normalize_absolute_bandwidth_thresholds ::
    "(real \<Rightarrow> double) \<Rightarrow> double option \<Rightarrow> double option \<Rightarrow> cluster_config \<Rightarrow> cluster_config" where
  "normalize_absolute_bandwidth_thresholds rnd drain_at resume_at cfg =
     (if double_le (cl_bandwidth_max_mbps cfg) (Finite 0) then cfg
      else
        let cfg1 = set_parsed drain_at
              (\<lambda>mbps c. c\<lparr>cl_drain_threshold := clamp_unit (double_div rnd mbps (cl_bandwidth_max_mbps c))\<rparr>) cfg
        in set_parsed resume_at
              (\<lambda>mbps c. c\<lparr>cl_resume_threshold := clamp_unit (double_div rnd mbps (cl_bandwidth_max_mbps c))\<rparr>) cfg1)"

definition CLUSTER_FILE_KEYS :: "string list" where
  "CLUSTER_FILE_KEYS = [
      ''CLUSTER_ENABLED'', ''CLUSTER_NODE_ID'', ''CLUSTER_NODE_NAME'', ''CLUSTER_BIND'',
      ''CLUSTER_MEDIA_BIND'', ''CLUSTER_BOOTSTRAP'', ''CLUSTER_JOIN'', ''CLUSTER_JOIN_PROOF'',
      ''CLUSTER_SECRET'', ''CLUSTER_TLS_ENABLED'', ''CLUSTER_TLS_CERT_FILE'', ''CLUSTER_TLS_KEY_FILE'',
      ''CLUSTER_TLS_CA_FILE'', ''CLUSTER_HEARTBEAT_MS'', ''CLUSTER_HEARTBEAT_INTERVAL_MS'',
      ''CLUSTER_NODE_TIMEOUT_MS'', ''CLUSTER_CAPACITY'', ''CLUSTER_CAPACITY_MBPS'', ''CLUSTER_DRAIN_AT_MBPS'',
      ''CLUSTER_DRAIN_THRESHOLD'', ''CLUSTER_RESUME_AT_MBPS'', ''CLUSTER_RESUME_THRESHOLD'',
      ''CLUSTER_BANDWIDTH_INTERFACE'', ''CLUSTER_BANDWIDTH_MODE'', ''CLUSTER_BANDWIDTH_MAX_MBPS'',
      ''CLUSTER_MEDIA_REPLICAS'', ''CLUSTER_MEDIA_QUEUE_MB'', ''CLUSTER_MEDIA_MAX_AGE_MS'',
      ''CLUSTER_ADVERTISE_ADDR'', ''CLUSTER_MEDIA_ADVERTISE_ADDR'', ''CLUSTER_ALLOW_LOOPBACK_PEER_ADDRS'']"

definition CLUSTER_ENV_OVERRIDES :: "(string \<times> string) list" where
  "CLUSTER_ENV_OVERRIDES = map (\<lambda>key. (''LRTMP2_'' @ key, key)) CLUSTER_FILE_KEYS"

definition CLUSTER_ENV_OVERRIDE_KEYS :: "string list" where
  "CLUSTER_ENV_OVERRIDE_KEYS = [
      ''LRTMP2_CLUSTER_ENABLED'', ''LRTMP2_CLUSTER_NODE_ID'', ''LRTMP2_CLUSTER_NODE_NAME'',
      ''LRTMP2_CLUSTER_BIND'', ''LRTMP2_CLUSTER_MEDIA_BIND'', ''LRTMP2_CLUSTER_BOOTSTRAP'',
      ''LRTMP2_CLUSTER_JOIN'', ''LRTMP2_CLUSTER_JOIN_PROOF'', ''LRTMP2_CLUSTER_SECRET'',
      ''LRTMP2_CLUSTER_TLS_ENABLED'', ''LRTMP2_CLUSTER_TLS_CERT_FILE'', ''LRTMP2_CLUSTER_TLS_KEY_FILE'',
      ''LRTMP2_CLUSTER_TLS_CA_FILE'', ''LRTMP2_CLUSTER_HEARTBEAT_MS'',
      ''LRTMP2_CLUSTER_HEARTBEAT_INTERVAL_MS'', ''LRTMP2_CLUSTER_NODE_TIMEOUT_MS'',
      ''LRTMP2_CLUSTER_CAPACITY'', ''LRTMP2_CLUSTER_CAPACITY_MBPS'', ''LRTMP2_CLUSTER_DRAIN_THRESHOLD'',
      ''LRTMP2_CLUSTER_DRAIN_AT_MBPS'', ''LRTMP2_CLUSTER_RESUME_THRESHOLD'', ''LRTMP2_CLUSTER_RESUME_AT_MBPS'',
      ''LRTMP2_CLUSTER_BANDWIDTH_INTERFACE'', ''LRTMP2_CLUSTER_BANDWIDTH_MODE'',
      ''LRTMP2_CLUSTER_BANDWIDTH_MAX_MBPS'', ''LRTMP2_CLUSTER_MEDIA_REPLICAS'',
      ''LRTMP2_CLUSTER_MEDIA_QUEUE_MB'', ''LRTMP2_CLUSTER_MEDIA_MAX_AGE_MS'',
      ''LRTMP2_CLUSTER_ADVERTISE_ADDR'', ''LRTMP2_CLUSTER_MEDIA_ADVERTISE_ADDR'',
      ''LRTMP2_CLUSTER_ALLOW_LOOPBACK_PEER_ADDRS'']"

text \<open>The closure \<open>apply\<close> of the loaders, and a key that is absent or, in the environment, empty.\<close>

definition apply_key :: "(string \<Rightarrow> double option) \<Rightarrow> string \<Rightarrow> string \<Rightarrow> loading \<Rightarrow> config_error + loading" where
  "apply_key parse_f64 key val s =
     (let (handled, s') = apply_bandwidth_kv parse_f64 key val s
      in if handled then Inr s'
         else case apply_cluster_kv parse_f64 key val (fst s') of Inl e \<Rightarrow> Inl e | Inr cfg \<Rightarrow> Inr (cfg, snd s'))"

definition apply_file_key ::
    "(string \<Rightarrow> double option) \<Rightarrow> (string \<Rightarrow> string option) \<Rightarrow> string \<Rightarrow> loading \<Rightarrow> config_error + loading" where
  "apply_file_key parse_f64 get key s = (case get key of Some val \<Rightarrow> apply_key parse_f64 key val s | None \<Rightarrow> Inr s)"

definition apply_env_key ::
    "(string \<Rightarrow> double option) \<Rightarrow> (string \<Rightarrow> string option) \<Rightarrow> string \<times> string \<Rightarrow> loading \<Rightarrow> config_error + loading" where
  "apply_env_key parse_f64 get ks s =
     (case get (fst ks) of
        Some val \<Rightarrow> if val = [] then Inr s else apply_key parse_f64 (snd ks) val s
      | None \<Rightarrow> Inr s)"

definition load_file_only_from_kv ::
    "(string \<Rightarrow> double option) \<Rightarrow> (real \<Rightarrow> double) \<Rightarrow> (string \<Rightarrow> string option) \<Rightarrow> config_error + cluster_config" where
  "load_file_only_from_kv parse_f64 rnd get_file =
     (case fold_res (apply_file_key parse_f64 get_file) CLUSTER_FILE_KEYS (cluster_config_default, None, None) of
        Inl e \<Rightarrow> Inl e
      | Inr (cfg, drain_at, resume_at) \<Rightarrow>
          Inr (normalize_absolute_bandwidth_thresholds rnd drain_at resume_at
                 (cfg\<lparr>cl_drain_at_mbps := drain_at, cl_resume_at_mbps := resume_at\<rparr>)))"

section \<open>Validation\<close>

definition parse_bind :: "(string \<Rightarrow> (ip_addr \<times> u16) option) \<Rightarrow> string \<Rightarrow> (ip_addr \<times> u16) option" where
  "parse_bind parse_socket bind =
     (case parse_socket bind of Some a \<Rightarrow> Some a | None \<Rightarrow> parse_socket (''127.0.0.1:'' @ bind))"

definition validate_bind_addrs :: "(string \<Rightarrow> (ip_addr \<times> u16) option) \<Rightarrow> string \<Rightarrow> string \<Rightarrow> config_error + unit" where
  "validate_bind_addrs parse_socket bind media_bind =
     (case parse_bind parse_socket bind of
        None \<Rightarrow> Inl (BadBind ''CLUSTER_BIND'')
      | Some control \<Rightarrow>
          (case parse_bind parse_socket media_bind of
             None \<Rightarrow> Inl (BadBind ''CLUSTER_MEDIA_BIND'')
           | Some media \<Rightarrow>
               if snd control = 0 then Inl (PortZero ''CLUSTER_BIND'')
               else if snd media = 0 then Inl (PortZero ''CLUSTER_MEDIA_BIND'')
               else Inr ()))"

text \<open>A configured peer address is a literal socket address that may be dialled.\<close>

definition check_peer_addr ::
    "(string \<Rightarrow> (ip_addr \<times> u16) option) \<Rightarrow> bool \<Rightarrow> string \<Rightarrow> string option \<Rightarrow> config_error + unit" where
  "check_peer_addr parse_socket allow key addr =
     (case addr of
        None \<Rightarrow> Inr ()
      | Some a \<Rightarrow>
          if parse_socket a = None then Inl (BadAddress key)
          else case validate_cluster_peer_addr str_trim parse_socket a allow of
            Inl e \<Rightarrow> Inl (PeerAddress key e)
          | Inr _ \<Rightarrow> Inr ())"

definition check_tls_files :: "(string \<Rightarrow> bool) \<Rightarrow> cluster_config \<Rightarrow> config_error + unit" where
  "check_tls_files is_file cfg =
     (if \<not> cl_tls_enabled cfg then Inr ()
      else if cl_tls_cert_file cfg = [] \<or> cl_tls_key_file cfg = [] \<or> cl_tls_ca_file cfg = [] then Inl TlsFilesMissing
      else
        fold_res (\<lambda>(label, path) s. if is_file path then Inr s else Inl (NotAFile label))
          [(''CLUSTER_TLS_CERT_FILE'', cl_tls_cert_file cfg), (''CLUSTER_TLS_KEY_FILE'', cl_tls_key_file cfg),
           (''CLUSTER_TLS_CA_FILE'', cl_tls_ca_file cfg)] ())"

definition then_ok :: "'e + unit \<Rightarrow> 'e + unit \<Rightarrow> 'e + unit" where
  "then_ok r k = (case r of Inl e \<Rightarrow> Inl e | Inr _ \<Rightarrow> k)"

definition require :: "bool \<Rightarrow> 'e \<Rightarrow> 'e + unit" where
  "require b e = (if b then Inr () else Inl e)"

definition validate :: "(string \<Rightarrow> (ip_addr \<times> u16) option) \<Rightarrow> (string \<Rightarrow> bool) \<Rightarrow> cluster_config \<Rightarrow> config_error + unit" where
  "validate parse_socket is_file cfg =
     foldr then_ok
       [require (cl_node_id cfg \<noteq> 0) NodeIdMissing,
        require (is_valid_cluster_secret (cl_secret cfg)) BadSecret,
        validate_bind_addrs parse_socket (cl_bind cfg) (cl_media_bind cfg),
        check_peer_addr parse_socket (cl_allow_loopback_peer_addrs cfg) ''CLUSTER_ADVERTISE_ADDR'' (cl_advertise_addr cfg),
        check_peer_addr parse_socket (cl_allow_loopback_peer_addrs cfg) ''CLUSTER_MEDIA_ADVERTISE_ADDR'' (cl_media_advertise_addr cfg),
        require (\<not> (cl_bootstrap cfg \<and> cl_join cfg \<noteq> None)) BootstrapAndJoin,
        require (\<not> (\<not> cl_bootstrap cfg \<and> cl_join cfg = None)) NeitherBootstrapNorJoin,
        check_peer_addr parse_socket (cl_allow_loopback_peer_addrs cfg) ''CLUSTER_JOIN'' (cl_join cfg),
        check_tls_files is_file cfg,
        require (is_finite (cl_drain_threshold cfg) \<and> in_unit (cl_drain_threshold cfg)) BadDrainThreshold,
        require (is_finite (cl_resume_threshold cfg) \<and> in_unit (cl_resume_threshold cfg)) BadResumeThreshold,
        require (\<not> double_le (cl_drain_threshold cfg) (cl_resume_threshold cfg)) ThresholdOrder,
        require (is_finite (cl_capacity cfg) \<and> in_unit (cl_capacity cfg)) BadCapacity,
        require (is_finite (cl_bandwidth_max_mbps cfg)) BadBandwidth,
        require (\<not> (cl_media_queue_mb cfg = 0 \<or> 1024 < cl_media_queue_mb cfg)) BadQueueMb,
        require (\<not> (cl_media_max_age_ms cfg \<noteq> 0 \<and> \<not> (100 \<le> cl_media_max_age_ms cfg \<and> cl_media_max_age_ms cfg \<le> 600000))) BadMaxAge]
       (Inr ())"

definition validate_if_enabled ::
    "(string \<Rightarrow> (ip_addr \<times> u16) option) \<Rightarrow> (string \<Rightarrow> bool) \<Rightarrow> cluster_config \<Rightarrow> config_error + cluster_config" where
  "validate_if_enabled parse_socket is_file cfg =
     (if cl_enabled cfg then case validate parse_socket is_file cfg of Inl e \<Rightarrow> Inl e | Inr _ \<Rightarrow> Inr cfg else Inr cfg)"

definition load_from_kv ::
    "(string \<Rightarrow> double option) \<Rightarrow> (real \<Rightarrow> double) \<Rightarrow> (string \<Rightarrow> (ip_addr \<times> u16) option) \<Rightarrow> (string \<Rightarrow> bool) \<Rightarrow>
     (string \<Rightarrow> string option) \<Rightarrow> (string \<Rightarrow> string option) \<Rightarrow> config_error + cluster_config" where
  "load_from_kv parse_f64 rnd parse_socket is_file env get_file =
     (case fold_res (apply_file_key parse_f64 get_file) CLUSTER_FILE_KEYS (cluster_config_default, None, None) of
        Inl e \<Rightarrow> Inl e
      | Inr s \<Rightarrow>
          (case fold_res (apply_env_key parse_f64 env) CLUSTER_ENV_OVERRIDES s of
             Inl e \<Rightarrow> Inl e
           | Inr (cfg, drain_at, resume_at) \<Rightarrow>
               validate_if_enabled parse_socket is_file
                 (normalize_absolute_bandwidth_thresholds rnd drain_at resume_at
                    (cfg\<lparr>cl_drain_at_mbps := drain_at, cl_resume_at_mbps := resume_at\<rparr>))))"

text \<open>The absolute targets are moved out of the record for a bandwidth key and written back after it.\<close>

definition override_key ::
    "(string \<Rightarrow> double option) \<Rightarrow> (string \<Rightarrow> string option) \<Rightarrow> string \<times> string \<Rightarrow> cluster_config \<Rightarrow> config_error + cluster_config" where
  "override_key parse_f64 get ks cfg =
     (case get (fst ks) of
        None \<Rightarrow> Inr cfg
      | Some val \<Rightarrow>
          if val = [] then Inr cfg
          else
            (case apply_bandwidth_kv parse_f64 (snd ks) val (cfg, cl_drain_at_mbps cfg, cl_resume_at_mbps cfg) of
               (True, cfg', drain_at, resume_at) \<Rightarrow> Inr (cfg'\<lparr>cl_drain_at_mbps := drain_at, cl_resume_at_mbps := resume_at\<rparr>)
             | (False, cfg', _) \<Rightarrow> apply_cluster_kv parse_f64 (snd ks) val cfg'))"

definition apply_env_overrides_from ::
    "(string \<Rightarrow> double option) \<Rightarrow> (real \<Rightarrow> double) \<Rightarrow> (string \<Rightarrow> (ip_addr \<times> u16) option) \<Rightarrow> (string \<Rightarrow> bool) \<Rightarrow>
     (string \<Rightarrow> string option) \<Rightarrow> cluster_config \<Rightarrow> config_error + cluster_config" where
  "apply_env_overrides_from parse_f64 rnd parse_socket is_file get cfg0 =
     (case fold_res (override_key parse_f64 get) CLUSTER_ENV_OVERRIDES cfg0 of
        Inl e \<Rightarrow> Inl e
      | Inr cfg \<Rightarrow>
          validate_if_enabled parse_socket is_file
            (normalize_absolute_bandwidth_thresholds rnd (cl_drain_at_mbps cfg) (cl_resume_at_mbps cfg) cfg))"

text \<open>The address peers are told to dial; \<open>show_socket\<close> prints a socket address.\<close>

definition advertise_bind ::
    "(string \<Rightarrow> (ip_addr \<times> u16) option) \<Rightarrow> (ip_addr \<times> u16 \<Rightarrow> string) \<Rightarrow> string \<Rightarrow> string" where
  "advertise_bind parse_socket show_socket bind =
     (case parse_socket bind of
        Some (ip, port) \<Rightarrow> if is_unspecified ip then ''127.0.0.1:'' @ dec (unat port) else bind
      | None \<Rightarrow> (case parse_bind parse_socket bind of Some addr \<Rightarrow> show_socket addr | None \<Rightarrow> bind))"

definition advertise_control ::
    "(string \<Rightarrow> (ip_addr \<times> u16) option) \<Rightarrow> (ip_addr \<times> u16 \<Rightarrow> string) \<Rightarrow> cluster_config \<Rightarrow> string" where
  "advertise_control parse_socket show_socket cfg =
     (case cl_advertise_addr cfg of Some a \<Rightarrow> a | None \<Rightarrow> advertise_bind parse_socket show_socket (cl_bind cfg))"

definition advertise_media ::
    "(string \<Rightarrow> (ip_addr \<times> u16) option) \<Rightarrow> (ip_addr \<times> u16 \<Rightarrow> string) \<Rightarrow> cluster_config \<Rightarrow> string" where
  "advertise_media parse_socket show_socket cfg =
     (case cl_media_advertise_addr cfg of Some a \<Rightarrow> a | None \<Rightarrow> advertise_bind parse_socket show_socket (cl_media_bind cfg))"

section \<open>Server settings\<close>

record server_config =
  rtmp_bind :: string
  rtmp_max_conn :: int
  rtmp_max_connections_per_addr :: int
  rtmp_max_pending_tls_per_addr :: int
  rtmp_idle_timeout_secs :: nat
  rtmp_max_reassembly_mb :: nat
  rtmp_max_cache_mb :: nat
  rtmp_max_relay_queue_mb :: nat
  tls_enabled :: bool
  tls_cert_file :: string
  tls_key_file :: string
  rtmps_bind :: string
  http_bind :: string
  http_trusted_proxies :: "ip_addr list"
  http_rate_limit_window_secs :: nat
  http_rate_limit_api :: nat
  http_rate_limit_stats :: nat
  http_rate_limit_default :: nat
  http_max_body_bytes :: nat
  api_token :: string
  config_file :: string
  log_level :: int
  log_file :: string
  cluster :: cluster_config

definition server_config_default :: server_config where
  "server_config_default =
     \<lparr>rtmp_bind = ''0.0.0.0:1935'', rtmp_max_conn = 100, rtmp_max_connections_per_addr = i32_max,
      rtmp_max_pending_tls_per_addr = i32_max, rtmp_idle_timeout_secs = 30, rtmp_max_reassembly_mb = 32,
      rtmp_max_cache_mb = 64, rtmp_max_relay_queue_mb = 8, tls_enabled = False, tls_cert_file = [], tls_key_file = [],
      rtmps_bind = ''0.0.0.0:1936'', http_bind = ''0.0.0.0:8080'', http_trusted_proxies = [],
      http_rate_limit_window_secs = 60, http_rate_limit_api = 120, http_rate_limit_stats = 30,
      http_rate_limit_default = 60, http_max_body_bytes = 64 * 1024, api_token = [], config_file = [],
      log_level = 2, log_file = [], cluster = cluster_config_default\<rparr>"

definition rtmp_port :: "server_config \<Rightarrow> u16" where
  "rtmp_port cfg = port_of (rtmp_bind cfg) 1935"

definition rtmps_port :: "server_config \<Rightarrow> u16" where
  "rtmps_port cfg = port_of (rtmps_bind cfg) 1936"

text \<open>The cache, reassembly and relay limits in bytes.\<close>

definition rtmp_resource_limits :: "server_config \<Rightarrow> nat \<times> nat \<times> nat" where
  "rtmp_resource_limits cfg =
     (mb_to_bytes (rtmp_max_cache_mb cfg), mb_to_bytes (rtmp_max_reassembly_mb cfg), mb_to_bytes (rtmp_max_relay_queue_mb cfg))"

definition parse_log_level :: "string \<Rightarrow> int option" where
  "parse_log_level val = (case parse_i32 val of Some v \<Rightarrow> if 0 \<le> v \<and> v \<le> 3 then Some v else None | None \<Rightarrow> None)"

definition apply_kv :: "(string \<Rightarrow> ip_addr option) \<Rightarrow> string \<Rightarrow> string \<Rightarrow> server_config \<Rightarrow> server_config" where
  "apply_kv parse_ip key val cfg =
     (if key = ''RTMP_BIND'' then cfg\<lparr>rtmp_bind := val\<rparr>
      else if key = ''RTMP_MAX_CONNECTIONS'' then cfg\<lparr>rtmp_max_conn := parse_max_connections val\<rparr>
      else if key = ''RTMP_MAX_CONNECTIONS_PER_ADDR'' then
        set_parsed (parse_per_addr_cap val) (\<lambda>v c. c\<lparr>rtmp_max_connections_per_addr := v\<rparr>) cfg
      else if key = ''RTMP_MAX_PENDING_TLS_PER_ADDR'' then
        set_parsed (parse_per_addr_cap val) (\<lambda>v c. c\<lparr>rtmp_max_pending_tls_per_addr := v\<rparr>) cfg
      else if key = ''RTMP_IDLE_TIMEOUT_SECS'' then cfg\<lparr>rtmp_idle_timeout_secs := parse_idle_timeout_secs val\<rparr>
      else if key = ''RTMP_MAX_REASSEMBLY_MB'' then cfg\<lparr>rtmp_max_reassembly_mb := parse_mb val 32 1 256\<rparr>
      else if key = ''RTMP_MAX_CACHE_MB'' then cfg\<lparr>rtmp_max_cache_mb := parse_mb val 64 1 512\<rparr>
      else if key = ''RTMP_MAX_RELAY_QUEUE_MB'' then cfg\<lparr>rtmp_max_relay_queue_mb := parse_mb val 8 1 128\<rparr>
      else if key = ''TLS_ENABLED'' then set_parsed (parse_bool val) (\<lambda>v c. c\<lparr>tls_enabled := v\<rparr>) cfg
      else if key = ''TLS_CERT_FILE'' then cfg\<lparr>tls_cert_file := val\<rparr>
      else if key = ''TLS_KEY_FILE'' then cfg\<lparr>tls_key_file := val\<rparr>
      else if key = ''RTMPS_BIND'' then cfg\<lparr>rtmps_bind := val\<rparr>
      else if key = ''HTTP_BIND'' then cfg\<lparr>http_bind := val\<rparr>
      else if key = ''HTTP_TRUSTED_PROXIES'' then cfg\<lparr>http_trusted_proxies := parse_ip_list parse_ip val\<rparr>
      else if key = ''HTTP_RATE_LIMIT_WINDOW_SECS'' then
        cfg\<lparr>http_rate_limit_window_secs := parse_rate_limit_window_secs val\<rparr>
      else if key = ''HTTP_RATE_LIMIT_API'' then
        set_parsed (parse_rate_limit_count val 10000) (\<lambda>v c. c\<lparr>http_rate_limit_api := v\<rparr>) cfg
      else if key = ''HTTP_RATE_LIMIT_STATS'' then
        set_parsed (parse_rate_limit_count val 10000) (\<lambda>v c. c\<lparr>http_rate_limit_stats := v\<rparr>) cfg
      else if key = ''HTTP_RATE_LIMIT_DEFAULT'' then
        set_parsed (parse_rate_limit_count val 10000) (\<lambda>v c. c\<lparr>http_rate_limit_default := v\<rparr>) cfg
      else if key = ''HTTP_MAX_BODY_BYTES'' then cfg\<lparr>http_max_body_bytes := parse_max_body_bytes val\<rparr>
      else if key = ''LOG_LEVEL'' then set_parsed (parse_log_level val) (\<lambda>v c. c\<lparr>log_level := v\<rparr>) cfg
      else if key = ''LOG_FILE'' then cfg\<lparr>log_file := val\<rparr>
      else cfg)"

definition env_pairs :: "string \<Rightarrow> (string \<times> string) list" where
  "env_pairs txt = List.map_filter parse_env_line (lines txt)"

text \<open>The file is read twice, once for the server and once for the cluster; \<open>None\<close> is a failed read.\<close>

definition config_load ::
    "(string \<Rightarrow> ip_addr option) \<Rightarrow> (string \<Rightarrow> double option) \<Rightarrow> (real \<Rightarrow> double) \<Rightarrow> string \<Rightarrow> string option \<Rightarrow> string option \<Rightarrow>
     config_error + server_config" where
  "config_load parse_ip parse_f64 rnd path first_read second_read =
     (case first_read of
        None \<Rightarrow> Inl (CannotOpen path)
      | Some txt \<Rightarrow>
          (let cfg = fold (\<lambda>(key, val). apply_kv parse_ip key val) (env_pairs txt) server_config_default;
               cfg1 = cfg\<lparr>config_file := path\<rparr>
           in case second_read of
                None \<Rightarrow> Inl (CannotOpen path)
              | Some txt2 \<Rightarrow>
                  (let kv = fold (\<lambda>(key, val). hm_insert key val) (env_pairs txt2) []
                   in case load_file_only_from_kv parse_f64 rnd (hm_get kv) of
                        Inl e \<Rightarrow> Inl e
                      | Inr cl \<Rightarrow> Inr (cfg1\<lparr>cluster := cl\<rparr>))))"

text \<open>The environment: a variable counts when it is set and not empty.\<close>

definition with_env :: "(string \<Rightarrow> string option) \<Rightarrow> string \<Rightarrow> (string \<Rightarrow> 'c \<Rightarrow> 'c) \<Rightarrow> 'c \<Rightarrow> 'c" where
  "with_env get key f cfg = (case get key of Some v \<Rightarrow> if v = [] then cfg else f v cfg | None \<Rightarrow> cfg)"

definition env_server_steps ::
    "(string \<Rightarrow> ip_addr option) \<Rightarrow> (string \<Rightarrow> string option) \<Rightarrow> (server_config \<Rightarrow> server_config) list" where
  "env_server_steps parse_ip get =
     [with_env get ''LRTMP2_RTMP_BIND'' (\<lambda>v c. c\<lparr>rtmp_bind := v\<rparr>),
      with_env get ''LRTMP2_HTTP_BIND'' (\<lambda>v c. c\<lparr>http_bind := v\<rparr>),
      with_env get ''LRTMP2_RTMP_MAX_CONNECTIONS'' (\<lambda>v c. c\<lparr>rtmp_max_conn := parse_max_connections v\<rparr>),
      with_env get ''LRTMP2_RTMP_MAX_CONNECTIONS_PER_ADDR''
        (\<lambda>v. set_parsed (parse_per_addr_cap v) (\<lambda>cap c. c\<lparr>rtmp_max_connections_per_addr := cap\<rparr>)),
      with_env get ''LRTMP2_RTMP_MAX_PENDING_TLS_PER_ADDR''
        (\<lambda>v. set_parsed (parse_per_addr_cap v) (\<lambda>cap c. c\<lparr>rtmp_max_pending_tls_per_addr := cap\<rparr>)),
      with_env get ''LRTMP2_RTMP_IDLE_TIMEOUT_SECS'' (\<lambda>v c. c\<lparr>rtmp_idle_timeout_secs := parse_idle_timeout_secs v\<rparr>),
      with_env get ''LRTMP2_RTMP_MAX_REASSEMBLY_MB'' (\<lambda>v c. c\<lparr>rtmp_max_reassembly_mb := parse_mb v 32 1 256\<rparr>),
      with_env get ''LRTMP2_RTMP_MAX_CACHE_MB'' (\<lambda>v c. c\<lparr>rtmp_max_cache_mb := parse_mb v 64 1 512\<rparr>),
      with_env get ''LRTMP2_RTMP_MAX_RELAY_QUEUE_MB'' (\<lambda>v c. c\<lparr>rtmp_max_relay_queue_mb := parse_mb v 8 1 128\<rparr>),
      with_env get ''LRTMP2_TLS_ENABLED'' (\<lambda>v. set_parsed (parse_bool v) (\<lambda>b c. c\<lparr>tls_enabled := b\<rparr>)),
      with_env get ''LRTMP2_TLS_CERT_FILE'' (\<lambda>v c. c\<lparr>tls_cert_file := v\<rparr>),
      with_env get ''LRTMP2_TLS_KEY_FILE'' (\<lambda>v c. c\<lparr>tls_key_file := v\<rparr>),
      with_env get ''LRTMP2_RTMPS_BIND'' (\<lambda>v c. c\<lparr>rtmps_bind := v\<rparr>),
      with_env get ''LRTMP2_HTTP_TRUSTED_PROXIES'' (\<lambda>v c. c\<lparr>http_trusted_proxies := parse_ip_list parse_ip v\<rparr>),
      with_env get ''LRTMP2_HTTP_RATE_LIMIT_WINDOW_SECS''
        (\<lambda>v c. c\<lparr>http_rate_limit_window_secs := parse_rate_limit_window_secs v\<rparr>),
      with_env get ''LRTMP2_HTTP_RATE_LIMIT_API''
        (\<lambda>v. set_parsed (parse_rate_limit_count v 10000) (\<lambda>n c. c\<lparr>http_rate_limit_api := n\<rparr>)),
      with_env get ''LRTMP2_HTTP_RATE_LIMIT_STATS''
        (\<lambda>v. set_parsed (parse_rate_limit_count v 10000) (\<lambda>n c. c\<lparr>http_rate_limit_stats := n\<rparr>)),
      with_env get ''LRTMP2_HTTP_RATE_LIMIT_DEFAULT''
        (\<lambda>v. set_parsed (parse_rate_limit_count v 10000) (\<lambda>n c. c\<lparr>http_rate_limit_default := n\<rparr>)),
      with_env get ''LRTMP2_HTTP_MAX_BODY_BYTES'' (\<lambda>v c. c\<lparr>http_max_body_bytes := parse_max_body_bytes v\<rparr>),
      (\<lambda>c. set_parsed (Option.bind (get ''LRTMP2_LOG_LEVEL'') parse_log_level) (\<lambda>v c. c\<lparr>log_level := v\<rparr>) c)]"

definition config_apply_env_from ::
    "(string \<Rightarrow> ip_addr option) \<Rightarrow> (string \<Rightarrow> double option) \<Rightarrow> (real \<Rightarrow> double) \<Rightarrow> (string \<Rightarrow> (ip_addr \<times> u16) option) \<Rightarrow>
     (string \<Rightarrow> bool) \<Rightarrow> (string \<Rightarrow> string option) \<Rightarrow> server_config \<Rightarrow> config_error + server_config" where
  "config_apply_env_from parse_ip parse_f64 rnd parse_socket is_file get cfg0 =
     (let cfg = fold (\<lambda>f. f) (env_server_steps parse_ip get) cfg0;
          has_cluster_env = list_ex (\<lambda>k. get k \<noteq> None \<and> get k \<noteq> Some []) CLUSTER_ENV_OVERRIDE_KEYS
      in case (if has_cluster_env then apply_env_overrides_from parse_f64 rnd parse_socket is_file get (cluster cfg)
               else Inr (cluster cfg)) of
           Inl e \<Rightarrow> Inl e
         | Inr cl \<Rightarrow>
             (case validate_if_enabled parse_socket is_file cl of
                Inl e \<Rightarrow> Inl e
              | Inr cl' \<Rightarrow> Inr (cfg\<lparr>cluster := cl'\<rparr>)))"

section \<open>Start of the program\<close>

record cli =
  cli_config :: string
  cli_rtmp_port :: "u16 option"
  cli_http_port :: "u16 option"
  cli_verbose :: bool

text \<open>
  The configuration that \<open>run\<close> of \<open>src/src/main.rs\<close> starts the server with: the file if there is one, the
  environment over it, and the command line over both.
\<close>

definition startup_config ::
    "(string \<Rightarrow> ip_addr option) \<Rightarrow> (string \<Rightarrow> double option) \<Rightarrow> (real \<Rightarrow> double) \<Rightarrow> (string \<Rightarrow> (ip_addr \<times> u16) option) \<Rightarrow>
     (string \<Rightarrow> bool) \<Rightarrow> string option \<Rightarrow> string option \<Rightarrow> (string \<Rightarrow> string option) \<Rightarrow> cli \<Rightarrow> config_error + server_config" where
  "startup_config parse_ip parse_f64 rnd parse_socket is_file first_read second_read get opts =
     (case (if is_file (cli_config opts) then config_load parse_ip parse_f64 rnd (cli_config opts) first_read second_read
            else Inr (server_config_default\<lparr>config_file := cli_config opts\<rparr>)) of
        Inl e \<Rightarrow> Inl e
      | Inr cfg0 \<Rightarrow>
          (case config_apply_env_from parse_ip parse_f64 rnd parse_socket is_file get cfg0 of
             Inl e \<Rightarrow> Inl e
           | Inr cfg \<Rightarrow>
               (let cfg1 = set_parsed (cli_rtmp_port opts) (\<lambda>p c. c\<lparr>rtmp_bind := set_bind_port (rtmp_bind c) p\<rparr>) cfg;
                    cfg2 = set_parsed (cli_http_port opts) (\<lambda>p c. c\<lparr>http_bind := set_bind_port (http_bind c) p\<rparr>) cfg1
                in Inr (if cli_verbose opts then cfg2\<lparr>log_level := 3\<rparr> else cfg2))))"

end
