(* ===== verification/Config_Props.thy ===== *)
theory Config_Props
  imports Config
begin

text \<open>
  What holds of every configuration the program starts with, and which of several settings of a threshold wins.
\<close>

section \<open>Ranges\<close>

text \<open>The ranges of the settings that no validation looks at.\<close>

definition server_range :: "server_config \<Rightarrow> bool" where
  "server_range c \<longleftrightarrow>
     1 \<le> rtmp_max_conn c \<and> rtmp_max_conn c \<le> 10000 \<and>
     1 \<le> rtmp_max_connections_per_addr c \<and> rtmp_max_connections_per_addr c \<le> i32_max \<and>
     1 \<le> rtmp_max_pending_tls_per_addr c \<and> rtmp_max_pending_tls_per_addr c \<le> i32_max \<and>
     5 \<le> rtmp_idle_timeout_secs c \<and> rtmp_idle_timeout_secs c \<le> 600 \<and>
     1 \<le> rtmp_max_reassembly_mb c \<and> rtmp_max_reassembly_mb c \<le> 256 \<and>
     1 \<le> rtmp_max_cache_mb c \<and> rtmp_max_cache_mb c \<le> 512 \<and>
     1 \<le> rtmp_max_relay_queue_mb c \<and> rtmp_max_relay_queue_mb c \<le> 128 \<and>
     1 \<le> http_rate_limit_window_secs c \<and> http_rate_limit_window_secs c \<le> 3600 \<and>
     http_rate_limit_api c \<le> 10000 \<and> http_rate_limit_stats c \<le> 10000 \<and> http_rate_limit_default c \<le> 10000 \<and>
     1024 \<le> http_max_body_bytes c \<and> http_max_body_bytes c \<le> 16 * 1024 * 1024 \<and>
     0 \<le> log_level c \<and> log_level c \<le> 3"

definition cluster_range :: "cluster_config \<Rightarrow> bool" where
  "cluster_range c \<longleftrightarrow>
     cl_node_id c < 2 ^ 64 \<and> millis 50 \<le> cl_heartbeat c \<and> cl_heartbeat c \<le> millis 10000 \<and> cl_media_replicas c \<le> 8 \<and>
     cl_media_queue_mb c < 2 ^ 32 \<and> cl_media_max_age_ms c < 2 ^ 32"

text \<open>What a cluster that is switched on may rely on.\<close>

definition dialable :: "(string \<Rightarrow> (ip_addr \<times> u16) option) \<Rightarrow> bool \<Rightarrow> string option \<Rightarrow> bool" where
  "dialable parse_socket allow addr =
     (case addr of
        None \<Rightarrow> True
      | Some a \<Rightarrow> parse_socket a \<noteq> None \<and> validate_cluster_peer_addr str_trim parse_socket a allow = Inr ())"

definition cluster_usable :: "(string \<Rightarrow> (ip_addr \<times> u16) option) \<Rightarrow> (string \<Rightarrow> bool) \<Rightarrow> cluster_config \<Rightarrow> bool" where
  "cluster_usable parse_socket is_file c \<longleftrightarrow>
     cl_node_id c \<noteq> 0 \<and> is_valid_cluster_secret (cl_secret c) \<and>
     (\<exists>ip port. parse_bind parse_socket (cl_bind c) = Some (ip, port) \<and> port \<noteq> 0) \<and>
     (\<exists>ip port. parse_bind parse_socket (cl_media_bind c) = Some (ip, port) \<and> port \<noteq> 0) \<and>
     dialable parse_socket (cl_allow_loopback_peer_addrs c) (cl_advertise_addr c) \<and>
     dialable parse_socket (cl_allow_loopback_peer_addrs c) (cl_media_advertise_addr c) \<and>
     dialable parse_socket (cl_allow_loopback_peer_addrs c) (cl_join c) \<and>
     (cl_bootstrap c \<longleftrightarrow> cl_join c = None) \<and>
     (if cl_tls_enabled c then is_file (cl_tls_cert_file c) \<and> is_file (cl_tls_key_file c) \<and> is_file (cl_tls_ca_file c) else True) \<and>
     (\<exists>r d. cl_resume_threshold c = Finite r \<and> cl_drain_threshold c = Finite d \<and> 0 \<le> r \<and> r < d \<and> d \<le> 1) \<and>
     (\<exists>x. cl_capacity c = Finite x \<and> 0 \<le> x \<and> x \<le> 1) \<and> is_finite (cl_bandwidth_max_mbps c) \<and>
     1 \<le> cl_media_queue_mb c \<and> cl_media_queue_mb c \<le> 1024 \<and>
     (cl_media_max_age_ms c = 0 \<or> cl_media_max_age_ms c \<in> {100..600000})"

named_theorems ranges

lemma parse_unsigned_less [ranges]: "parse_unsigned bits s = Some v \<Longrightarrow> v < 2 ^ bits"
  by (auto simp: parse_unsigned_def Let_def split: if_splits)

lemma clamp_bounds [ranges]: "(lo :: 'a::linorder) \<le> hi \<Longrightarrow> lo \<le> clamp v lo hi \<and> clamp v lo hi \<le> hi"
  by (auto simp: clamp_def)

lemma parse_i32_le: "parse_i32 s = Some v \<Longrightarrow> v \<le> i32_max"
  by (auto simp: parse_i32_def Let_def i32_max_def split: if_splits)

lemma parsed_bounds [ranges]:
  "1 \<le> parse_max_connections s" "parse_max_connections s \<le> 10000"
  "5 \<le> parse_idle_timeout_secs s" "parse_idle_timeout_secs s \<le> 600"
  "Suc 0 \<le> parse_rate_limit_window_secs s" "parse_rate_limit_window_secs s \<le> 3600"
  "1024 \<le> parse_max_body_bytes s" "parse_max_body_bytes s \<le> 16777216"
  by (auto simp: parse_max_connections_def parse_idle_timeout_secs_def parse_rate_limit_window_secs_def
      parse_max_body_bytes_def clamp_def split: option.splits)

lemma parse_mb_bounds [ranges]: "lo \<le> d \<Longrightarrow> d \<le> hi \<Longrightarrow> lo \<le> parse_mb s d lo hi \<and> parse_mb s d lo hi \<le> hi"
  by (auto simp: parse_mb_def clamp_def split: option.splits)

lemma parsed_options [ranges]:
  "parse_per_addr_cap s = Some cap \<Longrightarrow> 1 \<le> cap \<and> cap \<le> i32_max"
  "parse_rate_limit_count s mx = Some n \<Longrightarrow> n \<le> mx"
  "parse_log_level s = Some l \<Longrightarrow> 0 \<le> l \<and> l \<le> 3"
  by (auto simp: parse_per_addr_cap_def parse_rate_limit_count_def parse_log_level_def i32_max_def
      dest: parse_i32_le [unfolded i32_max_def] split: option.splits if_splits)

text \<open>An invariant of a chain of conditionals, and of a value that is set if it parses.\<close>

lemma keep_if: "P a \<Longrightarrow> P b \<Longrightarrow> P (if c then a else b)"
  by simp

lemma keep_parsed: "P cfg \<Longrightarrow> (\<And>x. v = Some x \<Longrightarrow> P (f x cfg)) \<Longrightarrow> P (set_parsed v f cfg)"
  by (simp add: set_parsed_def split: option.split)

lemma keep_env: "P cfg \<Longrightarrow> (\<And>v. P (f v cfg)) \<Longrightarrow> P (with_env get key f cfg)"
  by (simp add: with_env_def split: option.split)

lemma server_range_apply: "server_range c \<Longrightarrow> server_range (apply_kv parse_ip key val c)"
  unfolding apply_kv_def
  by (intro keep_if [where P = server_range] keep_parsed [where P = server_range]) (auto simp: server_range_def ranges parse_mb_bounds dest: parsed_options)

lemma server_range_default: "server_range server_config_default"
  by (simp add: server_range_def server_config_default_def i32_max_def)

lemma server_range_env: "f \<in> set (env_server_steps parse_ip get) \<Longrightarrow> server_range c \<Longrightarrow> server_range (f c)"
  unfolding env_server_steps_def set_simps insert_iff empty_iff
  by (elim disjE FalseE; hypsubst; intro keep_env [where P = server_range] keep_parsed [where P = server_range])
    (auto simp: server_range_def ranges parse_mb_bounds bind_eq_Some_conv dest: parsed_options)

section \<open>The cluster settings\<close>

definition ok_result :: "('c \<Rightarrow> bool) \<Rightarrow> 'e + 'c \<Rightarrow> bool" where
  "ok_result P r = (case r of Inl _ \<Rightarrow> True | Inr c \<Rightarrow> P c)"

lemma ok_result_simps [simp]: "ok_result P (Inl e)" "ok_result P (Inr c) = P c"
  by (simp_all add: ok_result_def)

lemma ok_resultD: "ok_result P r \<Longrightarrow> r = Inr c \<Longrightarrow> P c"
  by (simp add: ok_result_def)

lemma ok_set_bool: "(\<And>b. P (f b cfg)) \<Longrightarrow> ok_result P (set_bool r f cfg)"
  by (simp add: set_bool_def split: sum.split)

lemma ok_fold_res: "P s \<Longrightarrow> (\<And>x s. P s \<Longrightarrow> ok_result P (body x s)) \<Longrightarrow> ok_result P (fold_res body xs s)"
proof (induction xs arbitrary: s)
  case (Cons x xs)
  have "ok_result P (body x s)" by (rule Cons.prems(2)) (rule Cons.prems(1))
  with Cons show ?case by (cases "body x s") auto
qed simp

lemma ok_InrI: "P c \<Longrightarrow> ok_result P (Inr c)"
  by simp

lemma cluster_range_apply: "cluster_range c \<Longrightarrow> ok_result cluster_range (apply_cluster_kv parse_f64 key val c)"
  unfolding apply_cluster_kv_def
  by (intro keep_if [where P = "ok_result cluster_range"] ok_set_bool ok_InrI keep_parsed [where P = cluster_range])
    (auto simp: cluster_range_def clamp_bounds millis_def dest: parse_unsigned_less)

lemma apply_bandwidth_cases:
  obtains (drain_at) "key = ''CLUSTER_DRAIN_AT_MBPS''"
      "apply_bandwidth_kv pf key val (c, d, r) = (True, c, (case pf val of Some x \<Rightarrow> Some x | None \<Rightarrow> d), r)"
  | (resume_at) "key = ''CLUSTER_RESUME_AT_MBPS''"
      "apply_bandwidth_kv pf key val (c, d, r) = (True, c, d, (case pf val of Some x \<Rightarrow> Some x | None \<Rightarrow> r))"
  | (drain) "key = ''CLUSTER_DRAIN_THRESHOLD''"
      "apply_bandwidth_kv pf key val (c, d, r) =
         (case pf val of Some v \<Rightarrow> (True, c\<lparr>cl_drain_threshold := v\<rparr>, None, r) | None \<Rightarrow> (True, c, d, r))"
  | (resume) "key = ''CLUSTER_RESUME_THRESHOLD''"
      "apply_bandwidth_kv pf key val (c, d, r) =
         (case pf val of Some v \<Rightarrow> (True, c\<lparr>cl_resume_threshold := v\<rparr>, d, None) | None \<Rightarrow> (True, c, d, r))"
  | (other) "key \<notin> {''CLUSTER_DRAIN_AT_MBPS'', ''CLUSTER_RESUME_AT_MBPS'', ''CLUSTER_DRAIN_THRESHOLD'', ''CLUSTER_RESUME_THRESHOLD''}"
      "apply_bandwidth_kv pf key val (c, d, r) = (False, c, d, r)"
proof -
  consider "key = ''CLUSTER_DRAIN_AT_MBPS''" | "key = ''CLUSTER_RESUME_AT_MBPS''" | "key = ''CLUSTER_DRAIN_THRESHOLD''"
    | "key = ''CLUSTER_RESUME_THRESHOLD''"
    | "key \<notin> {''CLUSTER_DRAIN_AT_MBPS'', ''CLUSTER_RESUME_AT_MBPS'', ''CLUSTER_DRAIN_THRESHOLD'', ''CLUSTER_RESUME_THRESHOLD''}"
    by blast
  then show thesis
    by cases (rule drain_at resume_at drain resume other,
        simp_all add: apply_bandwidth_kv_def apply_ratio_threshold_def split: option.split)+
qed

lemma cluster_range_thresholds [simp]:
  "cluster_range (c\<lparr>cl_drain_threshold := x\<rparr>) = cluster_range c"
  "cluster_range (c\<lparr>cl_resume_threshold := x\<rparr>) = cluster_range c"
  "cluster_range (c\<lparr>cl_drain_at_mbps := d\<rparr>) = cluster_range c"
  "cluster_range (c\<lparr>cl_resume_at_mbps := d\<rparr>) = cluster_range c"
  by (simp_all add: cluster_range_def)

lemma cluster_range_bandwidth: "cluster_range c \<Longrightarrow> cluster_range (fst (snd (apply_bandwidth_kv pf key val (c, d, r))))"
  by (rule apply_bandwidth_cases [where key = key and pf = pf and val = val and c = c and d = d and r = r]) (simp_all split: option.split)

lemma cluster_range_normalize: "cluster_range (normalize_absolute_bandwidth_thresholds rnd d r c) = cluster_range c"
  by (simp add: normalize_absolute_bandwidth_thresholds_def set_parsed_def split: option.split)

lemma cluster_range_key: "cluster_range (fst s) \<Longrightarrow> ok_result (cluster_range \<circ> fst) (apply_key pf key val s)"
proof -
  assume s: "cluster_range (fst s)"
  obtain h s' where a: "apply_bandwidth_kv pf key val s = (h, s')" by (cases "apply_bandwidth_kv pf key val s")
  have "cluster_range (fst s')"
    using cluster_range_bandwidth [OF s, of pf key val "fst (snd s)" "snd (snd s)"] a by simp
  then show ?thesis using a cluster_range_apply [of "fst s'" pf key val]
    by (auto simp: apply_key_def ok_result_def split: sum.splits)
qed

lemma cluster_range_default: "cluster_range cluster_config_default"
  by (simp add: cluster_range_def cluster_config_default_def millis_def)

lemma cluster_range_file: "ok_result cluster_range (load_file_only_from_kv pf rnd get)"
proof -
  have "ok_result (cluster_range \<circ> fst) (fold_res (apply_file_key pf get) CLUSTER_FILE_KEYS (cluster_config_default, None, None))"
    by (rule ok_fold_res) (auto simp: apply_file_key_def cluster_range_default cluster_range_key split: option.split)
  then show ?thesis
    by (auto simp: load_file_only_from_kv_def ok_result_def cluster_range_normalize split: sum.splits)
qed

lemma cluster_range_override: "cluster_range c \<Longrightarrow> ok_result cluster_range (override_key pf get ks c)"
proof -
  assume c: "cluster_range c"
  show ?thesis
  proof (cases "get (fst ks)")
    case (Some val)
    obtain h c' d r where a: "apply_bandwidth_kv pf (snd ks) val (c, cl_drain_at_mbps c, cl_resume_at_mbps c) = (h, c', d, r)"
      by (metis prod.exhaust)
    have "cluster_range c'"
      using cluster_range_bandwidth [OF c, of pf "snd ks" val "cl_drain_at_mbps c" "cl_resume_at_mbps c"] a by simp
    then show ?thesis using Some a c cluster_range_apply [of c' pf "snd ks" val]
      by (cases h) (auto simp: override_key_def)
  qed (simp add: override_key_def c)
qed

section \<open>Validated settings\<close>

lemma foldr_then_ok: "foldr then_ok rs (Inr ()) = Inr () \<longleftrightarrow> list_all (\<lambda>r. r = Inr ()) rs"
  by (induction rs) (auto simp: then_ok_def split: sum.splits)

lemma require_ok [simp]: "require b e = Inr () \<longleftrightarrow> b"
  by (simp add: require_def)

lemma validate_bind_ok:
  "validate_bind_addrs ps b m = Inr () \<longleftrightarrow>
     (\<exists>ip port. parse_bind ps b = Some (ip, port) \<and> port \<noteq> 0) \<and> (\<exists>ip port. parse_bind ps m = Some (ip, port) \<and> port \<noteq> 0)"
  by (auto simp: validate_bind_addrs_def split: option.splits)

lemma check_peer_addr_ok: "check_peer_addr ps allow key addr = Inr () \<longleftrightarrow> dialable ps allow addr"
  by (auto simp: check_peer_addr_def dialable_def split: option.splits sum.splits)

lemma check_tls_files_ok:
  "check_tls_files is_file c = Inr () \<Longrightarrow> cl_tls_enabled c \<Longrightarrow>
     is_file (cl_tls_cert_file c) \<and> is_file (cl_tls_key_file c) \<and> is_file (cl_tls_ca_file c)"
  by (auto simp: check_tls_files_def split: if_splits sum.splits)

lemma unit_double: "is_finite d \<and> in_unit d \<longleftrightarrow> (\<exists>x. d = Finite x \<and> 0 \<le> x \<and> x \<le> 1)"
  by (cases d) (auto simp: in_unit_def)

lemma validate_usable:
  assumes "validate ps is_file c = Inr ()"
  shows "cluster_usable ps is_file c"
proof -
  have v: "cl_node_id c \<noteq> 0" "is_valid_cluster_secret (cl_secret c)" "validate_bind_addrs ps (cl_bind c) (cl_media_bind c) = Inr ()"
    "dialable ps (cl_allow_loopback_peer_addrs c) (cl_advertise_addr c)"
    "dialable ps (cl_allow_loopback_peer_addrs c) (cl_media_advertise_addr c)"
    "dialable ps (cl_allow_loopback_peer_addrs c) (cl_join c)"
    "cl_bootstrap c \<longleftrightarrow> cl_join c = None" "check_tls_files is_file c = Inr ()"
    "is_finite (cl_drain_threshold c) \<and> in_unit (cl_drain_threshold c)"
    "is_finite (cl_resume_threshold c) \<and> in_unit (cl_resume_threshold c)"
    "\<not> double_le (cl_drain_threshold c) (cl_resume_threshold c)"
    "is_finite (cl_capacity c) \<and> in_unit (cl_capacity c)" "is_finite (cl_bandwidth_max_mbps c)"
    "1 \<le> cl_media_queue_mb c" "cl_media_queue_mb c \<le> 1024"
    "cl_media_max_age_ms c = 0 \<or> cl_media_max_age_ms c \<in> {100..600000}"
    using assms unfolding validate_def foldr_then_ok list.pred_inject require_ok check_peer_addr_ok by auto
  from v(9-11) have "\<exists>r d. cl_resume_threshold c = Finite r \<and> cl_drain_threshold c = Finite d \<and> 0 \<le> r \<and> r < d \<and> d \<le> 1"
    unfolding unit_double by auto
  with v check_tls_files_ok [OF v(8)] show ?thesis
    unfolding cluster_usable_def validate_bind_ok unit_double by auto
qed

lemma validated:
  "validate_if_enabled ps is_file c = Inr c' \<Longrightarrow> c' = c \<and> (cl_enabled c \<longrightarrow> cluster_usable ps is_file c)"
  by (auto simp: validate_if_enabled_def split: if_splits sum.splits intro: validate_usable)

lemma cluster_range_env:
  assumes "apply_env_overrides_from pf rnd ps is_file get c = Inr c'" and "cluster_range c"
  shows "cluster_range c'"
proof -
  obtain c1 where c1: "fold_res (override_key pf get) CLUSTER_ENV_OVERRIDES c = Inr c1"
    and v: "validate_if_enabled ps is_file
      (normalize_absolute_bandwidth_thresholds rnd (cl_drain_at_mbps c1) (cl_resume_at_mbps c1) c1) = Inr c'"
    using assms(1) by (auto simp: apply_env_overrides_from_def split: sum.splits)
  have "ok_result cluster_range (fold_res (override_key pf get) CLUSTER_ENV_OVERRIDES c)"
    using assms(2) cluster_range_override by (rule ok_fold_res)
  with c1 have "cluster_range c1" by simp
  with validated [OF v] show ?thesis by (simp add: cluster_range_normalize)
qed

section \<open>Every configuration the program starts with\<close>

lemma config_load_range:
  assumes "config_load parse_ip pf rnd path r1 r2 = Inr c"
  shows "server_range c \<and> cluster_range (cluster c)"
proof -
  obtain t1 t2 cl where t: "r1 = Some t1" "r2 = Some t2"
    and l: "load_file_only_from_kv pf rnd (hm_get (fold (\<lambda>(key, val). hm_insert key val) (env_pairs t2) [])) = Inr cl"
    and c: "c = (fold (\<lambda>(key, val). apply_kv parse_ip key val) (env_pairs t1) server_config_default)\<lparr>config_file := path, cluster := cl\<rparr>"
    using assms by (auto simp: config_load_def Let_def split: option.splits sum.splits)
  have "server_range (fold (\<lambda>(key, val). apply_kv parse_ip key val) kvs s)" if "server_range s" for kvs s
    using that by (induction kvs arbitrary: s) (auto simp: server_range_apply)
  then have "server_range (fold (\<lambda>(key, val). apply_kv parse_ip key val) (env_pairs t1) server_config_default)"
    using server_range_default by blast
  then have "server_range c" by (simp add: c server_range_def)
  moreover have "cluster_range cl" using cluster_range_file l by (rule ok_resultD)
  ultimately show ?thesis by (simp add: c)
qed

lemma fold_steps: "(\<And>f x. f \<in> set fs \<Longrightarrow> P x \<Longrightarrow> P (f x)) \<Longrightarrow> P x \<Longrightarrow> P (fold (\<lambda>f. f) fs x)"
  by (induction fs arbitrary: x) auto

lemma env_keeps_cluster: "cluster (fold (\<lambda>f. f) (env_server_steps parse_ip get) c) = cluster c"
proof (rule fold_steps [where P = "\<lambda>x. cluster x = cluster c"])
  fix f and x :: server_config
  assume "f \<in> set (env_server_steps parse_ip get)" and "cluster x = cluster c"
  then show "cluster (f x) = cluster c"
    unfolding env_server_steps_def set_simps insert_iff empty_iff
    by (elim disjE FalseE; hypsubst) (auto simp: with_env_def set_parsed_def split: option.splits)
qed simp

lemma config_env_range:
  assumes "config_apply_env_from parse_ip pf rnd ps is_file get c0 = Inr c"
    and "server_range c0" and "cluster_range (cluster c0)"
  shows "server_range c \<and> cluster_range (cluster c) \<and> (cl_enabled (cluster c) \<longrightarrow> cluster_usable ps is_file (cluster c))"
proof -
  let ?s = "fold (\<lambda>f. f) (env_server_steps parse_ip get) c0"
  have s: "server_range ?s" using server_range_env assms(2) by (rule fold_steps)
  obtain cl cl' where cl: "cl = cluster ?s \<or> apply_env_overrides_from pf rnd ps is_file get (cluster ?s) = Inr cl"
    and v: "validate_if_enabled ps is_file cl = Inr cl'" and c: "c = ?s\<lparr>cluster := cl'\<rparr>"
    using assms(1) by (auto simp: config_apply_env_from_def Let_def split: sum.splits if_splits)
  have "cluster_range cl"
    using cl assms(3) cluster_range_env env_keeps_cluster by metis
  with validated [OF v] s show ?thesis by (simp add: c server_range_def)
qed

text \<open>
  C39. The program never starts with a setting out of its range. Whatever the file, the environment and the
  command line say - including text that is no number, numbers that do not fit, infinities and a file that
  changes between its two readings -, if \<open>run\<close> gets a configuration then every limit of the server is within
  its bounds, the settings of the cluster are within theirs, and if the cluster is enabled it has a node id, a
  valid secret, bind addresses with a port, peer addresses that may be dialled, exactly one of bootstrap and
  join, the files TLS needs, and thresholds with \<open>0 \<le> resume < drain \<le> 1\<close>.
\<close>

theorem config_in_range:
  assumes "startup_config parse_ip parse_f64 rnd parse_socket is_file first_read second_read get opts = Inr c"
  shows "server_range c \<and> cluster_range (cluster c) \<and>
    (if cl_enabled (cluster c) then cluster_usable parse_socket is_file (cluster c) else True)"
proof -
  obtain c0 c1 where c0: "(if is_file (cli_config opts) then config_load parse_ip parse_f64 rnd (cli_config opts) first_read second_read
      else Inr (server_config_default\<lparr>config_file := cli_config opts\<rparr>)) = Inr c0"
    and c1: "config_apply_env_from parse_ip parse_f64 rnd parse_socket is_file get c0 = Inr c1"
    and c: "c = (let c2 = set_parsed (cli_rtmp_port opts) (\<lambda>p c. c\<lparr>rtmp_bind := set_bind_port (rtmp_bind c) p\<rparr>) c1;
        c3 = set_parsed (cli_http_port opts) (\<lambda>p c. c\<lparr>http_bind := set_bind_port (http_bind c) p\<rparr>) c2
      in if cli_verbose opts then c3\<lparr>log_level := 3\<rparr> else c3)"
    using assms unfolding startup_config_def Let_def by (auto split: sum.splits)
  have "server_range c0 \<and> cluster_range (cluster c0)"
    using c0 config_load_range server_range_default cluster_range_default
    by (auto simp: server_range_def server_config_default_def split: if_splits)
  with config_env_range [OF c1] show ?thesis
    by (auto simp: c Let_def set_parsed_def server_range_def split: option.split)
qed

text \<open>A first node of a cluster, configured by its environment alone.\<close>

lemma parse_true: "parse_bool_strict ''true'' k = Inr True" 
  by (simp add: parse_bool_strict_def str_trim_id trimmed_visible visible_def to_ascii_lowercase_def bool_words_def less_eq_char_def)

definition demo_env :: "string \<Rightarrow> string option" where
  "demo_env = map_of
     [(''LRTMP2_CLUSTER_ENABLED'', ''true''), (''LRTMP2_CLUSTER_NODE_ID'', ''7''), (''LRTMP2_CLUSTER_BOOTSTRAP'', ''true''),
      (''LRTMP2_CLUSTER_SECRET'', replicate 32 (CHR ''k''))]"

definition demo_cluster :: cluster_config where
  "demo_cluster = cluster_config_default\<lparr>cl_enabled := True, cl_node_id := 7, cl_bootstrap := True, cl_secret := replicate 32 (CHR ''k'')\<rparr>"

lemma demo_server: "fold (\<lambda>f. f) (env_server_steps (\<lambda>_. None) demo_env) c = c"
  by (simp add: env_server_steps_def with_env_def demo_env_def set_parsed_def)

lemma demo_has: "list_ex (\<lambda>k. demo_env k \<noteq> None \<and> demo_env k \<noteq> Some []) CLUSTER_ENV_OVERRIDE_KEYS"
  by (simp add: CLUSTER_ENV_OVERRIDE_KEYS_def demo_env_def)

lemma demo_seven: "parse_unsigned 64 ''7'' = Some 7"
  by (simp add: parse_unsigned_def is_ascii_digit_def less_eq_char_def digits_value_def)

lemma demo_over: "fold_res (override_key (\<lambda>_. None) demo_env) CLUSTER_ENV_OVERRIDES cluster_config_default = Inr demo_cluster"
  by (simp add: CLUSTER_ENV_OVERRIDES_def CLUSTER_FILE_KEYS_def override_key_def demo_env_def apply_bandwidth_kv_def
    apply_cluster_kv_def parse_true set_bool_def set_parsed_def demo_seven demo_cluster_def)

definition demo_addr :: "string \<Rightarrow> (ip_addr \<times> u16) option" where
  "demo_addr s = (if s = ''0.0.0.0:1940'' then Some (V4 0 0 0 0, 1940) else if s = ''0.0.0.0:1941'' then Some (V4 0 0 0 0, 1941) else None)"

lemma demo_valid: "validate_if_enabled demo_addr (\<lambda>_. False) demo_cluster = Inr demo_cluster"
proof -
  have "validate demo_addr (\<lambda>_. False) demo_cluster = Inr ()"
    unfolding validate_def foldr_then_ok list.pred_inject require_ok check_peer_addr_ok validate_bind_ok
    by (simp add: demo_cluster_def cluster_config_default_def is_valid_cluster_secret_def less_eq_char_def parse_bind_def
        demo_addr_def dialable_def check_tls_files_def in_unit_def list_all_iff)
  then show ?thesis by (simp add: validate_if_enabled_def)
qed

definition demo_cli :: cli where
  "demo_cli = \<lparr>cli_config = ''.env'', cli_rtmp_port = None, cli_http_port = Some 80, cli_verbose = False\<rparr>"

lemma demo_normal: "normalize_absolute_bandwidth_thresholds rnd d r demo_cluster = demo_cluster"
  by (simp add: normalize_absolute_bandwidth_thresholds_def demo_cluster_def cluster_config_default_def)

lemma demo_starts:
  "startup_config (\<lambda>_. None) (\<lambda>_. None) Finite demo_addr (\<lambda>_. False) None None demo_env demo_cli =
     Inr (server_config_default\<lparr>config_file := ''.env'', cluster := demo_cluster,
       http_bind := set_bind_port ''0.0.0.0:8080'' 80\<rparr>)"
  by (simp add: startup_config_def demo_cli_def config_apply_env_from_def demo_server demo_has apply_env_overrides_from_def
      demo_normal demo_valid set_parsed_def Let_def server_config_default_def demo_over del: not_None_eq)

theorem config_in_range_witness:
  "server_range (server_config_default\<lparr>config_file := ''.env'', cluster := demo_cluster,
       http_bind := set_bind_port ''0.0.0.0:8080'' 80\<rparr>) \<and> cluster_usable demo_addr (\<lambda>_. False) demo_cluster"
  using config_in_range [OF demo_starts] by (simp add: demo_cluster_def)

end
