(* ===== verification/Config_Thresholds.thy ===== *)
theory Config_Thresholds
  imports Config_Props
begin

text \<open>
  The drain and resume thresholds of the cluster can be set as ratios or as absolute rates, in the file and in the
  environment. This theory shows which setting wins.
\<close>

section \<open>Which threshold wins\<close>

definition given :: "(string \<Rightarrow> double option) \<Rightarrow> (string \<Rightarrow> string option) \<Rightarrow> string \<Rightarrow> double option" where
  "given pf get key = Option.bind (get key) pf"

definition given_env :: "(string \<Rightarrow> double option) \<Rightarrow> (string \<Rightarrow> string option) \<Rightarrow> string \<Rightarrow> double option" where
  "given_env pf get key = (if get (''LRTMP2_'' @ key) = Some [] then None else given pf get (''LRTMP2_'' @ key))"

definition or_else :: "'v option \<Rightarrow> 'v \<Rightarrow> 'v" where
  "or_else x d = (case x of Some v \<Rightarrow> v | None \<Rightarrow> d)"

definition scaled :: "(real \<Rightarrow> double) \<Rightarrow> double \<Rightarrow> double option \<Rightarrow> double \<Rightarrow> double" where
  "scaled rnd bw mbps t =
     (if double_le bw (Finite 0) then t else case mbps of Some a \<Rightarrow> clamp_unit (double_div rnd a bw) | None \<Rightarrow> t)"

text \<open>The threshold by precedence, not by the order in which keys are worked off.\<close>

definition bandwidth :: "(string \<Rightarrow> double option) \<Rightarrow> double \<Rightarrow> double" where
  "bandwidth v dflt = or_else (v ''CLUSTER_BANDWIDTH_MAX_MBPS'') (or_else (v ''CLUSTER_CAPACITY_MBPS'') dflt)"

definition winning_threshold ::
    "(real \<Rightarrow> double) \<Rightarrow> (string \<Rightarrow> double option) \<Rightarrow> (string \<Rightarrow> double option) \<Rightarrow> string \<Rightarrow> string \<Rightarrow> double \<Rightarrow> double" where
  "winning_threshold rnd file env ratio_key mbps_key dflt =
     (let file_bw = bandwidth file (Finite 0);
          file_mbps = (if file ratio_key = None then file mbps_key else None);
          from_file = or_else (file ratio_key) (scaled rnd file_bw (file mbps_key) dflt);
          mbps = (case env mbps_key of Some a \<Rightarrow> Some a | None \<Rightarrow> file_mbps)
      in or_else (env ratio_key) (scaled rnd (bandwidth env file_bw) mbps from_file))"

type_synonym thresholds = "double \<times> double option \<times> double \<times> double option \<times> double"

definition thr_step :: "string \<Rightarrow> double option \<Rightarrow> thresholds \<Rightarrow> thresholds" where
  "thr_step key v s =
     (case s of (d, da, r, ra, bw) \<Rightarrow>
        case v of
          None \<Rightarrow> s
        | Some x \<Rightarrow>
            if key = ''CLUSTER_DRAIN_AT_MBPS'' then (d, Some x, r, ra, bw)
            else if key = ''CLUSTER_RESUME_AT_MBPS'' then (d, da, r, Some x, bw)
            else if key = ''CLUSTER_DRAIN_THRESHOLD'' then (x, None, r, ra, bw)
            else if key = ''CLUSTER_RESUME_THRESHOLD'' then (d, da, x, None, bw)
            else if key = ''CLUSTER_CAPACITY_MBPS'' \<or> key = ''CLUSTER_BANDWIDTH_MAX_MBPS'' then (d, da, r, ra, x)
            else s)"

definition view :: "loading \<Rightarrow> thresholds" where
  "view s = (cl_drain_threshold (fst s), fst (snd s), cl_resume_threshold (fst s), snd (snd s), cl_bandwidth_max_mbps (fst s))"

definition own_view :: "cluster_config \<Rightarrow> thresholds" where
  "own_view c = view (c, cl_drain_at_mbps c, cl_resume_at_mbps c)"

lemma cluster_kv_view:
  assumes "key \<notin> {''CLUSTER_DRAIN_AT_MBPS'', ''CLUSTER_RESUME_AT_MBPS'', ''CLUSTER_DRAIN_THRESHOLD'', ''CLUSTER_RESUME_THRESHOLD''}"
  shows "ok_result (\<lambda>c'. view (c', d, r) = thr_step key (pf val) (view (c, d, r)) \<and>
    cl_drain_at_mbps c' = cl_drain_at_mbps c \<and> cl_resume_at_mbps c' = cl_resume_at_mbps c) (apply_cluster_kv pf key val c)"
    (is "ok_result ?P _")
proof -
  have [simp]: "key \<noteq> ''CLUSTER_DRAIN_AT_MBPS''" "key \<noteq> ''CLUSTER_RESUME_AT_MBPS''" "key \<noteq> ''CLUSTER_DRAIN_THRESHOLD''"
    "key \<noteq> ''CLUSTER_RESUME_THRESHOLD''" using assms by auto
  have if2: "(b \<Longrightarrow> ok_result ?P x) \<Longrightarrow> (\<not> b \<Longrightarrow> ok_result ?P y) \<Longrightarrow> ok_result ?P (if b then x else y)" for b x y
    by simp
  show ?thesis
    unfolding apply_cluster_kv_def
    by (intro if2 ok_set_bool ok_InrI)
      ((erule disjE)?, simp_all add: thr_step_def view_def set_parsed_def split: option.split)+
qed

lemma bandwidth_kv_view:
  "apply_bandwidth_kv pf key val (c, d, r) = (True, s) \<Longrightarrow> view s = thr_step key (pf val) (view (c, d, r))"
  by (rule apply_bandwidth_cases [where key = key and pf = pf and val = val and c = c and d = d and r = r])
    (auto simp: view_def thr_step_def split: option.splits)

lemma apply_key_view: "apply_key pf key val s = Inr s' \<Longrightarrow> view s' = thr_step key (pf val) (view s)"
proof -
  assume a: "apply_key pf key val s = Inr s'"
  obtain c d r where s: "s = (c, d, r)" by (cases s)
  obtain h t where t: "apply_bandwidth_kv pf key val s = (h, t)" by (cases "apply_bandwidth_kv pf key val s")
  show ?thesis
  proof (cases h)
    case True
    with a t s bandwidth_kv_view [of pf key val c d r] show ?thesis by (simp add: apply_key_def)
  next
    case False
    then have k: "key \<notin> {''CLUSTER_DRAIN_AT_MBPS'', ''CLUSTER_RESUME_AT_MBPS'', ''CLUSTER_DRAIN_THRESHOLD'', ''CLUSTER_RESUME_THRESHOLD''}"
      and ts: "t = s" using t s by (auto simp: apply_bandwidth_kv_def split: if_splits prod.splits)
    from a t ts s False obtain c' where c': "apply_cluster_kv pf key val c = Inr c'" "s' = (c', d, r)"
      by (auto simp: apply_key_def split: sum.splits)
    with ok_resultD [OF cluster_kv_view [OF k] c'(1)] s show ?thesis by simp
  qed
qed

lemma override_key_view:
  assumes "override_key pf get (''LRTMP2_'' @ key, key) c = Inr c'"
  shows "own_view c' = thr_step key (given_env pf get key) (own_view c)"
proof (cases "get (''LRTMP2_'' @ key)")
  case None
  with assms show ?thesis by (simp add: override_key_def given_env_def given_def thr_step_def split: prod.split)
next
  case (Some val)
  show ?thesis
  proof (cases "val = []")
    case True
    with assms Some show ?thesis by (simp add: override_key_def given_env_def thr_step_def split: prod.split)
  next
    case False
    have g: "given_env pf get key = pf val" using Some False by (simp add: given_env_def given_def)
    obtain h c1 d r where t: "apply_bandwidth_kv pf key val (c, cl_drain_at_mbps c, cl_resume_at_mbps c) = (h, c1, d, r)"
      by (metis prod.exhaust)
    show ?thesis
    proof (cases h)
      case True
      with t bandwidth_kv_view have "view (c1, d, r) = thr_step key (pf val) (own_view c)" by (simp add: own_view_def)
      moreover have "c' = c1\<lparr>cl_drain_at_mbps := d, cl_resume_at_mbps := r\<rparr>"
        using assms Some False t True by (simp add: override_key_def)
      ultimately show ?thesis by (simp add: g own_view_def view_def)
    next
      case False
      then have k: "key \<notin> {''CLUSTER_DRAIN_AT_MBPS'', ''CLUSTER_RESUME_AT_MBPS'', ''CLUSTER_DRAIN_THRESHOLD'', ''CLUSTER_RESUME_THRESHOLD''}"
        and "c1 = c" using t by (auto simp: apply_bandwidth_kv_def split: if_splits prod.splits)
      then have "apply_cluster_kv pf key val c = Inr c'"
        using assms Some \<open>val \<noteq> []\<close> t False by (simp add: override_key_def)
      from ok_resultD [OF cluster_kv_view [OF k] this] show ?thesis by (simp add: g own_view_def)
    qed
  qed
qed

lemma file_view:
  "fold_res (apply_file_key pf get) ks s = Inr s' \<Longrightarrow> view s' = fold (\<lambda>key. thr_step key (given pf get key)) ks (view s)"
proof (induction ks arbitrary: s)
  case (Cons k ks)
  then obtain t where t: "apply_file_key pf get k s = Inr t" and r: "fold_res (apply_file_key pf get) ks t = Inr s'"
    by (auto split: sum.splits)
  have "view t = thr_step k (given pf get k) (view s)"
    using t by (auto simp: apply_file_key_def given_def thr_step_def [of _ None] apply_key_view split: option.splits prod.split)
  with Cons.IH [OF r] show ?case by simp
qed simp

lemma env_view:
  "fold_res (override_key pf get) (map (\<lambda>key. (''LRTMP2_'' @ key, key)) ks) c = Inr c' \<Longrightarrow>
     own_view c' = fold (\<lambda>key. thr_step key (given_env pf get key)) ks (own_view c)"
proof (induction ks arbitrary: c)
  case (Cons k ks)
  then obtain t where t: "override_key pf get (''LRTMP2_'' @ k, k) c = Inr t"
    and r: "fold_res (override_key pf get) (map (\<lambda>key. (''LRTMP2_'' @ key, key)) ks) t = Inr c'"
    by (auto split: sum.splits)
  from Cons.IH [OF r] override_key_view [OF t] show ?case by simp
qed simp

definition threshold_keys :: "string list" where
  "threshold_keys = [''CLUSTER_CAPACITY_MBPS'', ''CLUSTER_DRAIN_AT_MBPS'', ''CLUSTER_DRAIN_THRESHOLD'', ''CLUSTER_RESUME_AT_MBPS'',
     ''CLUSTER_RESUME_THRESHOLD'', ''CLUSTER_BANDWIDTH_MAX_MBPS'']"

lemma filter_threshold_keys: "filter (\<lambda>k. k \<in> set threshold_keys) CLUSTER_FILE_KEYS = threshold_keys"
  by (simp add: threshold_keys_def CLUSTER_FILE_KEYS_def)

lemma thr_step_other: "key \<notin> set threshold_keys \<Longrightarrow> thr_step key x s = s"
  by (cases s) (simp add: thr_step_def threshold_keys_def split: option.split)

lemma thr_step_eqs:
  "thr_step ''CLUSTER_CAPACITY_MBPS'' v (d, da, r, ra, bw) = (d, da, r, ra, or_else v bw)"
  "thr_step ''CLUSTER_BANDWIDTH_MAX_MBPS'' v (d, da, r, ra, bw) = (d, da, r, ra, or_else v bw)"
  "thr_step ''CLUSTER_DRAIN_AT_MBPS'' v (d, da, r, ra, bw) = (d, case v of Some a \<Rightarrow> Some a | None \<Rightarrow> da, r, ra, bw)"
  "thr_step ''CLUSTER_RESUME_AT_MBPS'' v (d, da, r, ra, bw) = (d, da, r, case v of Some a \<Rightarrow> Some a | None \<Rightarrow> ra, bw)"
  "thr_step ''CLUSTER_DRAIN_THRESHOLD'' v (d, da, r, ra, bw) = (or_else v d, if v = None then da else None, r, ra, bw)"
  "thr_step ''CLUSTER_RESUME_THRESHOLD'' v (d, da, r, ra, bw) = (d, da, or_else v r, if v = None then ra else None, bw)"
  by (cases v; simp add: thr_step_def or_else_def)+

lemma fold_filter_id: "(\<And>x s. \<not> R x \<Longrightarrow> f x s = s) \<Longrightarrow> fold f xs s = fold f (filter R xs) s"
  by (induction xs arbitrary: s) auto

text \<open>One pass over the keys: a ratio beats an absolute target, and the maximum beats the capacity.\<close>

lemma thr_pass:
  "fold (\<lambda>key. thr_step key (v key)) CLUSTER_FILE_KEYS (d, da, r, ra, bw) =
     (or_else (v ''CLUSTER_DRAIN_THRESHOLD'') d,
      (if v ''CLUSTER_DRAIN_THRESHOLD'' = None then case v ''CLUSTER_DRAIN_AT_MBPS'' of Some a \<Rightarrow> Some a | None \<Rightarrow> da else None),
      or_else (v ''CLUSTER_RESUME_THRESHOLD'') r,
      (if v ''CLUSTER_RESUME_THRESHOLD'' = None then case v ''CLUSTER_RESUME_AT_MBPS'' of Some a \<Rightarrow> Some a | None \<Rightarrow> ra else None),
      bandwidth v bw)"
proof -
  have "fold (\<lambda>key. thr_step key (v key)) CLUSTER_FILE_KEYS s = fold (\<lambda>key. thr_step key (v key)) threshold_keys s" for s
    using fold_filter_id [of "\<lambda>k. k \<in> set threshold_keys" "\<lambda>key. thr_step key (v key)" CLUSTER_FILE_KEYS s, OF thr_step_other]
    unfolding filter_threshold_keys by simp
  then show ?thesis by (simp add: threshold_keys_def thr_step_eqs bandwidth_def)
qed

lemma normalize_view:
  assumes "view (c, d, r) = (t, d, u, r, bw)"
  shows "cl_drain_threshold (normalize_absolute_bandwidth_thresholds rnd d r c) = scaled rnd bw d t"
    and "cl_resume_threshold (normalize_absolute_bandwidth_thresholds rnd d r c) = scaled rnd bw r u"
    and "cl_bandwidth_max_mbps (normalize_absolute_bandwidth_thresholds rnd d r c) = bw"
    and "cl_drain_at_mbps (normalize_absolute_bandwidth_thresholds rnd d r c) = cl_drain_at_mbps c"
    and "cl_resume_at_mbps (normalize_absolute_bandwidth_thresholds rnd d r c) = cl_resume_at_mbps c"
  using assms
  by (auto simp: view_def normalize_absolute_bandwidth_thresholds_def scaled_def set_parsed_def split: option.split)

lemma scaled_or_else: "scaled rnd bw (if x = None then m else None) (or_else x t) = or_else x (scaled rnd bw m t)"
  by (cases x) (simp_all add: scaled_def or_else_def)

lemma file_thresholds:
  assumes "load_file_only_from_kv pf rnd file = Inr c"
  defines "v \<equiv> given pf file"
  shows "own_view c =
    (scaled rnd (bandwidth v (Finite 0)) (if v ''CLUSTER_DRAIN_THRESHOLD'' = None then v ''CLUSTER_DRAIN_AT_MBPS'' else None)
       (or_else (v ''CLUSTER_DRAIN_THRESHOLD'') (Finite 0.85)),
     (if v ''CLUSTER_DRAIN_THRESHOLD'' = None then v ''CLUSTER_DRAIN_AT_MBPS'' else None),
     scaled rnd (bandwidth v (Finite 0)) (if v ''CLUSTER_RESUME_THRESHOLD'' = None then v ''CLUSTER_RESUME_AT_MBPS'' else None)
       (or_else (v ''CLUSTER_RESUME_THRESHOLD'') (Finite 0.70)),
     (if v ''CLUSTER_RESUME_THRESHOLD'' = None then v ''CLUSTER_RESUME_AT_MBPS'' else None),
     bandwidth v (Finite 0))"
proof -
  obtain cfg d r where l: "fold_res (apply_file_key pf file) CLUSTER_FILE_KEYS (cluster_config_default, None, None) = Inr (cfg, d, r)"
    and c: "c = normalize_absolute_bandwidth_thresholds rnd d r (cfg\<lparr>cl_drain_at_mbps := d, cl_resume_at_mbps := r\<rparr>)"
    using assms(1) by (auto simp: load_file_only_from_kv_def split: sum.splits)
  have start: "view (cluster_config_default, None, None) = (Finite 0.85, None, Finite 0.70, None, Finite 0)"
    by (simp add: view_def cluster_config_default_def)
  have none: "(case x of None \<Rightarrow> None | Some a \<Rightarrow> Some a) = x" for x :: "double option" by (cases x) auto
  note p = file_view [OF l, unfolded start thr_pass none, folded v_def]
  from p have w: "view (cfg\<lparr>cl_drain_at_mbps := d, cl_resume_at_mbps := r\<rparr>, d, r) =
      (or_else (v ''CLUSTER_DRAIN_THRESHOLD'') (Finite 0.85), d, or_else (v ''CLUSTER_RESUME_THRESHOLD'') (Finite 0.70), r,
       bandwidth v (Finite 0))" by (simp add: view_def)
  from p have dr: "d = (if v ''CLUSTER_DRAIN_THRESHOLD'' = None then v ''CLUSTER_DRAIN_AT_MBPS'' else None)"
    "r = (if v ''CLUSTER_RESUME_THRESHOLD'' = None then v ''CLUSTER_RESUME_AT_MBPS'' else None)" by (simp_all add: view_def)
  show ?thesis
    unfolding dr [symmetric] own_view_def c by (simp add: view_def normalize_view [OF w])
qed

text \<open>
  C40. Which setting of a threshold wins is a matter of precedence, although the keys are worked off one by one
  in two passes and the file's absolute targets are turned into ratios before the environment is read. For both
  the drain and the resume threshold: a ratio in the environment wins; otherwise an absolute target in the
  environment, or one in the file that no ratio of the file overrides, is divided by the bandwidth that is finally
  in force and clamped; otherwise the ratio of the file, or else the default, remains. A value that is not a
  number counts as absent, and so does an empty variable.
\<close>

theorem threshold_precedence:
  assumes "load_file_only_from_kv parse_f64 rnd file = Inr c0"
    and "apply_env_overrides_from parse_f64 rnd parse_socket is_file env c0 = Inr c"
  shows "cl_drain_threshold c = winning_threshold rnd (given parse_f64 file) (given_env parse_f64 env)
      ''CLUSTER_DRAIN_THRESHOLD'' ''CLUSTER_DRAIN_AT_MBPS'' (Finite 0.85) \<and>
    cl_resume_threshold c = winning_threshold rnd (given parse_f64 file) (given_env parse_f64 env)
      ''CLUSTER_RESUME_THRESHOLD'' ''CLUSTER_RESUME_AT_MBPS'' (Finite 0.70)"
proof -
  obtain c1 where l: "fold_res (override_key parse_f64 env) (map (\<lambda>key. (''LRTMP2_'' @ key, key)) CLUSTER_FILE_KEYS) c0 = Inr c1"
    and v: "validate_if_enabled parse_socket is_file
      (normalize_absolute_bandwidth_thresholds rnd (cl_drain_at_mbps c1) (cl_resume_at_mbps c1) c1) = Inr c"
    using assms(2) by (auto simp: apply_env_overrides_from_def CLUSTER_ENV_OVERRIDES_def split: sum.splits)
  note p = env_view [OF l, unfolded file_thresholds [OF assms(1)] thr_pass]
  have w: "view (c1, cl_drain_at_mbps c1, cl_resume_at_mbps c1) =
      (cl_drain_threshold c1, cl_drain_at_mbps c1, cl_resume_threshold c1, cl_resume_at_mbps c1, cl_bandwidth_max_mbps c1)"
    by (simp add: view_def)
  from p have e: "cl_drain_threshold c1 = or_else (given_env parse_f64 env ''CLUSTER_DRAIN_THRESHOLD'')
        (or_else (given parse_f64 file ''CLUSTER_DRAIN_THRESHOLD'') (scaled rnd (bandwidth (given parse_f64 file) (Finite 0))
          (given parse_f64 file ''CLUSTER_DRAIN_AT_MBPS'') (Finite 0.85)))"
    "cl_resume_threshold c1 = or_else (given_env parse_f64 env ''CLUSTER_RESUME_THRESHOLD'')
        (or_else (given parse_f64 file ''CLUSTER_RESUME_THRESHOLD'') (scaled rnd (bandwidth (given parse_f64 file) (Finite 0))
          (given parse_f64 file ''CLUSTER_RESUME_AT_MBPS'') (Finite 0.70)))"
    by (simp_all add: own_view_def view_def scaled_or_else)
  have c: "cl_drain_threshold c = scaled rnd (cl_bandwidth_max_mbps c1) (cl_drain_at_mbps c1) (cl_drain_threshold c1)"
    "cl_resume_threshold c = scaled rnd (cl_bandwidth_max_mbps c1) (cl_resume_at_mbps c1) (cl_resume_threshold c1)"
    using validated [OF v] normalize_view(1,2) [OF w, of rnd] by simp_all
  from p show ?thesis
    unfolding c e by (simp add: own_view_def view_def winning_threshold_def Let_def scaled_or_else)
qed

text \<open>A file with an absolute target of 800 and a bandwidth of 1000 that the environment raises to 2000.\<close>

definition demo_f64 :: "string \<Rightarrow> double option" where
  "demo_f64 s = (if s = ''800'' then Some (Finite 800) else if s = ''1000'' then Some (Finite 1000)
     else if s = ''2000'' then Some (Finite 2000) else None)"

definition demo_file :: "string \<Rightarrow> string option" where
  "demo_file k = (if k = ''CLUSTER_DRAIN_AT_MBPS'' then Some ''800'' else if k = ''CLUSTER_BANDWIDTH_MAX_MBPS'' then Some ''1000'' else None)"

definition demo_vars :: "string \<Rightarrow> string option" where
  "demo_vars k = (if k = ''LRTMP2_CLUSTER_BANDWIDTH_MAX_MBPS'' then Some ''2000'' else None)"

definition demo_loaded :: cluster_config where
  "demo_loaded = cluster_config_default\<lparr>cl_bandwidth_max_mbps := Finite 1000, cl_drain_at_mbps := Some (Finite 800),
     cl_drain_threshold := Finite 0.8\<rparr>"

lemma demo_load: "load_file_only_from_kv demo_f64 Finite demo_file = Inr demo_loaded"
  by (simp add: load_file_only_from_kv_def CLUSTER_FILE_KEYS_def apply_file_key_def demo_file_def apply_key_def
      apply_bandwidth_kv_def demo_f64_def apply_cluster_kv_def set_parsed_def normalize_absolute_bandwidth_thresholds_def
      demo_loaded_def cluster_config_default_def)

lemma demo_override:
  "apply_env_overrides_from demo_f64 Finite (\<lambda>_. None) (\<lambda>_. False) demo_vars demo_loaded =
     Inr (demo_loaded\<lparr>cl_bandwidth_max_mbps := Finite 2000, cl_drain_threshold := Finite 0.4\<rparr>)"
  by (simp add: apply_env_overrides_from_def CLUSTER_ENV_OVERRIDES_def CLUSTER_FILE_KEYS_def override_key_def demo_vars_def
      apply_bandwidth_kv_def demo_f64_def apply_cluster_kv_def set_parsed_def normalize_absolute_bandwidth_thresholds_def
      demo_loaded_def cluster_config_default_def validate_if_enabled_def)

theorem threshold_precedence_witness:
  "Finite 0.4 = winning_threshold Finite (given demo_f64 demo_file) (given_env demo_f64 demo_vars)
     ''CLUSTER_DRAIN_THRESHOLD'' ''CLUSTER_DRAIN_AT_MBPS'' (Finite 0.85)"
  using threshold_precedence [OF demo_load demo_override] by simp

end
