(* ===== verification/Spec2Isabelle.thy ===== *)
theory Spec2Isabelle
  imports
    Timeline
    Protocol
    Rate_Limit_Props
    Live_Queue_Correct
    Byte_Budget
    Wire_Roundtrip
    Security_Props
    Ownership
    Init_Cache
    Subscription
    Health
    Admission
    Session_Props
    Node_Runs
    Snapshot_Builder
    Raft_Guarantees
    Log_Store
    Media_Queues_Props
    Handshake
    Config_Thresholds
begin

text \<open>
  A verification development for the RTMP server of \<open>src/\<close>.

  \<^bold>\<open>The program.\<close> The server accepts publishers and players, keeps streams, play keys and sessions in
  a database (\<open>src/src/db.rs\<close>), limits clients (\<open>src/src/rate_limit.rs\<close>) and optionally runs as a cluster
  (\<open>src/src/cluster/\<close>): the replicated tables are changed by commands that a consensus library orders into a
  log (\<open>command.rs\<close>, \<open>raft/state_machine.rs\<close>), and media of a stream is sent by the node that owns it to the
  nodes that play it (\<open>media/\<close>), over authenticated connections (\<open>security.rs\<close>), with overload decided by
  \<open>admission.rs\<close> and dead nodes found by \<open>health.rs\<close>.

  \<^bold>\<open>Conventions.\<close> A struct is a record, an enum a datatype, a machine integer a word of its width where
  the code relies on the width, \<open>usize\<close> a natural number with saturation written out, an \<open>Instant\<close> or
  \<open>Duration\<close> a natural number of nanoseconds, a \<open>HashMap\<close> an association list with distinct keys
  (\<open>hm_get\<close>, \<open>hm_insert\<close>, \<open>hm_remove\<close> of \<open>Rtmp_Prelude\<close>), a table a list of rows whose constraints the
  statements check as the database does, an error a value. A method that takes \<open>&mut self\<close> or a lock takes
  the state and returns it updated. What other tasks do between two critical sections is a step relation or
  a list of operations the theorems quantify over. Clock readings, random bytes, serialisation, hashing and
  the consensus library are arguments.

  \<^bold>\<open>Theories.\<close>

  \<^item> \<open>Rtmp_Prelude\<close>: maps, early return from loops (\<open>fold_res\<close>), saturating arithmetic; the locale of hash maps.
  \<^item> \<open>Sliding_Window\<close>, \<open>Net_Addr\<close>, \<open>Ct_Compare\<close>, \<open>Rate_Limit\<close>, \<open>Rate_Limit_Props\<close>: \<open>rate_limit.rs\<close>. The
    number of admissions in every window, throttling that no other client can lift, the client address
    behind a proxy, the comparison of tokens.
  \<^item> \<open>Access_Keys\<close>, \<open>Db_Rows\<close>, \<open>Database\<close>, \<open>Sessions\<close>, \<open>Session_Props\<close>: \<open>keygen.rs\<close> and \<open>db.rs\<close>. At most one
    publisher of a stream and a bounded number of connections of a play key in every history of the server.
  \<^item> \<open>Raft_Command\<close>, \<open>State_Machine\<close>: \<open>command.rs\<close>, \<open>state.rs\<close>, \<open>snapshot.rs\<close> and \<open>state_machine.rs\<close>.
    \<open>Replicated_State\<close> gives the meaning of a command on maps, \<open>Raft_Refinement\<close> and \<open>Raft_Props\<close> show that
    the tables implement it, \<open>Snapshot_Props\<close> that a snapshot carries it, \<open>Node_Runs\<close> that a node always
    holds a prefix of the log, \<open>Snapshot_Builder\<close> that building returns, \<open>Raft_Guarantees\<close> that a replayed
    entry is applied once. \<open>Log_Store\<close>: \<open>raft/log_store.rs\<close>, whose rows read back as a list of consecutive
    entries under every legal sequence of calls.
  \<^item> \<open>Nested_Map\<close>, \<open>Live_Queue\<close> and its companions, \<open>Lossy_Queue\<close>, \<open>Live_Queue_Correct\<close>:
    \<open>media/live_queue.rs\<close>. Bounds, order, protection of control messages, freshness.
  \<^item> \<open>Protocol\<close>, \<open>Wire\<close>, \<open>Byte_Budget\<close>, \<open>Wire_Budget\<close>, \<open>Wire_Roundtrip\<close>: \<open>media/protocol.rs\<close> and
    \<open>media/wire.rs\<close>. What is written is read back, in one spelling, within the memory budget.
  \<^item> \<open>Timeline\<close>, \<open>Ownership\<close>, \<open>Init_Cache\<close>, \<open>Subscription\<close>: the files of the same names under \<open>media/\<close>
    (\<open>cache.rs\<close> for \<open>Init_Cache\<close>).
  \<^item> \<open>Media_Queues\<close>, \<open>Media_Queues_Props\<close>: the export and inject queues of \<open>media/hub.rs\<close>. Eviction on running
    totals gives up the frames a recount would select; nothing is lost uncounted.
  \<^item> \<open>Media_Peer\<close>, \<open>Handshake\<close>: the connections of \<open>media/peer.rs\<close>. A handshake is a tree of the actions its code
    awaits; who is accepted, and that both sides of every run come to the same end.
  \<^item> \<open>Security\<close>, \<open>Security_Props\<close>, \<open>Health\<close>, \<open>Admission\<close>: the files of the same names under \<open>cluster/\<close>.
  \<^item> \<open>Config_Text\<close>, \<open>Config\<close>, \<open>Config_Props\<close>, \<open>Config_Thresholds\<close>: \<open>config.rs\<close>, \<open>cluster/config.rs\<close> and the start of
    \<open>main.rs\<close>. Every configuration the program starts with is in range; which of several settings wins; a
    bind address keeps its host when its port is replaced.

  \<^bold>\<open>Interfaces.\<close> The locales \<open>hash_map\<close>, \<open>window_tracker\<close> (what a counter of events in a window promises, for
  the rate limiter and the tracker of failed handshakes), \<open>lossy_queue\<close> (the live queue as a queue that may
  lose), \<open>frame_budget\<close> (the byte budget of the frame reader) and \<open>ref_table\<close> (the subscription tables) are
  interpreted on the definitions of the components.

  \<^bold>\<open>Loops and bounds.\<close> Recursion that is not structural is defined with a termination proof or as a
  partial function into \<open>option\<close> together with a theorem that it returns (the eviction loop of the live
  queue, the loop of the snapshot builder). No fuel is used.

  \<^bold>\<open>Not modelled.\<close> The RTMP poll loop and its callbacks (\<open>server.rs\<close>, \<open>rtmp_bridge.rs\<close>) belong to a crate whose
  sources are not here. \<open>http.rs\<close> is routing and rendering in a web framework, \<open>media_output.rs\<close> files and child
  processes, \<open>readiness.rs\<close> and \<open>logger.rs\<close> system calls, \<open>cluster/network.rs\<close> a transport. Left open are the
  parts that compose modelled ones over the tasks and timers of the async runtime and the consensus library:
  the hub itself (\<open>MediaHub\<close> in \<open>media/hub.rs\<close>), \<open>cluster/manager.rs\<close>, \<open>cluster/membership.rs\<close>,
  \<open>auth_worker.rs\<close> and \<open>state.rs\<close>. In modelled files, the loops that pump frames between a socket and a queue, TLS,
  certificate parsing, hashing, JSON and the schema migrations of the database are left out; floating point
  numbers in \<open>Health\<close> and \<open>Admission\<close> are reals or not a number, and rounding is an argument in \<open>Config\<close>.
\<close>

end
